(* ===== verification/Prelude.thy ===== *)
theory Prelude
  imports Main "HOL-Library.Word" "HOL-Library.Char_ord" "HOL-Library.List_Lexorder"
begin

text \<open>
  What every component of the library shares: the machine types of the C++ code, the
  outcome of a call that may abort the process, the decimal and little-endian
  representations the code builds with \<^verbatim>\<open>snprintf\<close> and \<^verbatim>\<open>reinterpret_cast\<close>, C++
  integer division, and the generic list lemmas the component proofs use.

  A \<^verbatim>\<open>std::string\<close> and a \<^verbatim>\<open>char\<close> buffer are values of type \<^typ>\<open>string\<close>: a
  \<^typ>\<open>char\<close> of HOL is exactly one byte, and the lexicographic order that
  \<open>List_Lexorder\<close> and \<open>Char_ord\<close> give it is the order of \<^verbatim>\<open>std::string::compare\<close>
  (byte-wise, unsigned). Fixed-width unsigned fields are words; \<^verbatim>\<open>off_t\<close> values are
  \<^typ>\<open>int\<close>.
\<close>

section \<open>Types\<close>

type_synonym u16 = "16 word"
type_synonym u32 = "32 word"
type_synonym u64 = "64 word"

abbreviation NUL :: char where
  "NUL \<equiv> CHR 0x00"

text \<open>
  A call returns a value, or the process ends: a failed \<^verbatim>\<open>EXPECT\<close> or \<^verbatim>\<open>assert\<close>, a
  \<^verbatim>\<open>LOG(FATAL)\<close> and an uncaught exception are all \<open>Abort\<close>. \<open>Undef\<close> is a read outside
  an object, which C++ leaves undefined.
\<close>

datatype 'a outcome = Val 'a | Abort | Undef

primrec obind :: "'a outcome \<Rightarrow> ('a \<Rightarrow> 'b outcome) \<Rightarrow> 'b outcome" where
  "obind (Val x) f = f x"
| "obind Abort f = Abort"
| "obind Undef f = Undef"

definition expect :: "bool \<Rightarrow> 'a outcome \<Rightarrow> 'a outcome" where
  "expect b r = (if b then r else Abort)"

definition of_option :: "'a option \<Rightarrow> 'a outcome" where
  "of_option x = (case x of None \<Rightarrow> Undef | Some y \<Rightarrow> Val y)"

section \<open>Collections\<close>

named_theorems outcome_simps \<open>rewriting a sequence of calls\<close>
named_theorems kv_simps \<open>rewriting through the key-value store\<close>
named_theorems key_simps \<open>distinctness of the keys the file system builds\<close>
named_theorems codec_simps \<open>decoding what was encoded\<close>

lemma obind_Val_iff [outcome_simps]:
  "obind m f = Val y \<longleftrightarrow> (\<exists>x. m = Val x \<and> f x = Val y)"
  by (cases m) auto

lemma obind_assoc [outcome_simps]: "obind (obind m f) g = obind m (\<lambda>x. obind (f x) g)"
  by (cases m) auto

lemma expect_simps [simp]: "expect True r = r" "expect False r = Abort"
  by (simp_all add: expect_def)

lemma expect_Val_iff [outcome_simps]: "expect b r = Val y \<longleftrightarrow> b \<and> r = Val y"
  by (simp add: expect_def)

lemma obind_cong [fundef_cong]:
  "m = m' \<Longrightarrow> (\<And>x. m' = Val x \<Longrightarrow> f x = g x) \<Longrightarrow> obind m f = obind m' g"
  by (cases m') auto

lemma expect_cong [fundef_cong]: "b = b' \<Longrightarrow> (b' \<Longrightarrow> r = r') \<Longrightarrow> expect b r = expect b' r'"
  by (simp add: expect_def)

lemma of_option_simps [simp]: "of_option None = Undef" "of_option (Some y) = Val y"
  by (simp_all add: of_option_def)

text \<open>
  What holds of the value of a call that returns: the rules for a sequence of calls, and a
  collection for the rule of each call.
\<close>

definition wpo :: "('a \<Rightarrow> bool) \<Rightarrow> 'a outcome \<Rightarrow> bool" where
  "wpo P x = (case x of Val v \<Rightarrow> P v | Abort \<Rightarrow> True | Undef \<Rightarrow> True)"

named_theorems wp \<open>what holds after a call\<close>

lemma wpo_simps [simp]:
  "wpo P (Val v) = P v" "wpo P Abort" "wpo P Undef"
  "wpo P (obind x f) = wpo (\<lambda>v. wpo P (f v)) x" "wpo P (expect b r) = (b \<longrightarrow> wpo P r)"
  by (cases x; simp add: wpo_def expect_def)+

lemma wpo_of_option [simp]: "wpo P (of_option x) = (\<forall>y. x = Some y \<longrightarrow> P y)"
  by (cases x) simp_all

lemma wpo_iff: "wpo P x \<longleftrightarrow> (\<forall>v. x = Val v \<longrightarrow> P v)"
  by (cases x) simp_all

lemma wpo_mono: "wpo P x \<Longrightarrow> (\<And>v. P v \<Longrightarrow> Q v) \<Longrightarrow> wpo Q x"
  by (simp add: wpo_iff)

section \<open>C++ integer arithmetic\<close>

text \<open>Integer division of C++ truncates towards zero.\<close>

definition cquot :: "int \<Rightarrow> int \<Rightarrow> int" where
  "cquot a b = sgn a * sgn b * (\<bar>a\<bar> div \<bar>b\<bar>)"

lemma cquot_nonneg [simp]: "0 \<le> a \<Longrightarrow> 0 < b \<Longrightarrow> cquot a b = a div b"
  by (cases "a = 0") (auto simp: cquot_def sgn_if)

lemma cquot_minus_one: "1 < b \<Longrightarrow> cquot (-1) b = 0"
  by (simp add: cquot_def)

lemma unat_bound: "unat (w :: 'a::len word) < 2 ^ LENGTH('a)"
  by (rule unsigned_less)

text \<open>The ranges of the signed types.\<close>

abbreviation in_int64 :: "int \<Rightarrow> bool" where
  "in_int64 x \<equiv> - (2 ^ 63) \<le> x \<and> x < 2 ^ 63"

abbreviation in_int32 :: "int \<Rightarrow> bool" where
  "in_int32 x \<equiv> - (2 ^ 31) \<le> x \<and> x < 2 ^ 31"

text \<open>The conversion of a wider integer to \<^verbatim>\<open>int\<close>.\<close>

definition to_int32 :: "int \<Rightarrow> int" where
  "to_int32 x = signed_take_bit 31 x"

lemma to_int32_id: "in_int32 x \<Longrightarrow> to_int32 x = x"
  by (simp add: to_int32_def signed_take_bit_int_eq_self_iff)

lemma to_int32_range: "in_int32 (to_int32 x)"
  using signed_take_bit_int_greater_eq_minus_exp [of 31 x] signed_take_bit_int_less_exp [of 31 x] by (simp add: to_int32_def)

section \<open>Decimal numerals\<close>

definition digit_char :: "nat \<Rightarrow> char" where
  "digit_char d = char_of (48 + d)"

fun show_nat :: "nat \<Rightarrow> string" where
  "show_nat n = (if n < 10 then [digit_char n] else show_nat (n div 10) @ [digit_char (n mod 10)])"

declare show_nat.simps [simp del]

text \<open>\<^verbatim>\<open>%lu\<close> of a 64-bit unsigned value.\<close>

definition show_lu :: "u64 \<Rightarrow> string" where
  "show_lu w = show_nat (unat w)"

text \<open>\<^verbatim>\<open>snprintf(key, 128, ...)\<close>: at most 127 characters reach the buffer.\<close>

definition snprintf128 :: "string \<Rightarrow> string" where
  "snprintf128 s = take 127 s"

definition digit_val :: "char \<Rightarrow> nat" where
  "digit_val c = of_char c - 48"

definition read_nat :: "string \<Rightarrow> nat" where
  "read_nat s = foldl (\<lambda>a c. 10 * a + digit_val c) 0 s"

lemma of_char_digit [simp]: "d < 10 \<Longrightarrow> of_char (digit_char d) = 48 + d"
  by (simp add: digit_char_def of_char_of)

lemma digit_val_digit [simp]: "d < 10 \<Longrightarrow> digit_val (digit_char d) = d"
  by (simp add: digit_val_def)

lemma read_show_nat [simp]: "read_nat (show_nat n) = n"
proof (induction n rule: show_nat.induct)
  case (1 n)
  show ?case
  proof (cases "n < 10")
    case True
    then show ?thesis by (simp add: show_nat.simps [of n] read_nat_def)
  next
    case False
    with "1.IH" have "foldl (\<lambda>a c. 10 * a + digit_val c) 0 (show_nat (n div 10)) = n div 10"
      by (simp add: read_nat_def)
    with False show ?thesis by (simp add: show_nat.simps [of n] read_nat_def)
  qed
qed

lemma show_nat_inject [simp]: "show_nat m = show_nat n \<longleftrightarrow> m = n"
  by (metis read_show_nat)

lemma show_lu_inject [simp]: "show_lu v = show_lu w \<longleftrightarrow> v = w"
  by (simp add: show_lu_def word_unat_eq_iff)

lemma set_show_nat: "c \<in> set (show_nat n) \<Longrightarrow> 48 \<le> (of_char c :: nat) \<and> (of_char c :: nat) < 58"
proof (induction n rule: show_nat.induct)
  case (1 n)
  then show ?case
    by (cases "n < 10") (auto simp: show_nat.simps [of n])
qed

lemma dot_not_digit [simp]: "CHR ''.'' \<notin> set (show_nat n)"
  using set_show_nat [of "CHR ''.''" n] by auto

lemma letter_not_digit [simp]: "CHR ''S'' \<notin> set (show_nat n)"
  using set_show_nat [of "CHR ''S''" n] by auto

lemma length_show_nat: "n < 10 ^ k \<Longrightarrow> 0 < k \<Longrightarrow> length (show_nat n) \<le> k"
proof (induction n arbitrary: k rule: show_nat.induct)
  case (1 n)
  show ?case
  proof (cases "n < 10")
    case True
    with "1.prems" show ?thesis by (simp add: show_nat.simps [of n])
  next
    case False
    with "1.prems" have "k \<noteq> 0" "k \<noteq> 1" by auto
    then obtain j where j: "k = Suc j" "0 < j"
      by (cases k) auto
    with "1.prems" have "n div 10 < 10 ^ j"
      by (simp add: less_mult_imp_div_less mult.commute)
    with "1.IH" False j have "length (show_nat (n div 10)) \<le> j" by simp
    with False j show ?thesis by (simp add: show_nat.simps [of n])
  qed
qed

lemma length_show_lu: "length (show_lu w) \<le> 20"
proof -
  have "unat w < 2 ^ 64" using unat_bound [of w] by simp
  then have "unat w < 10 ^ 20" by (rule order_less_trans) simp
  then show ?thesis by (simp add: show_lu_def length_show_nat)
qed

lemma append_sep_eq_iff:
  assumes "x \<notin> set a" "x \<notin> set c"
  shows "a @ x # b = c @ x # d \<longleftrightarrow> a = c \<and> b = d"
proof
  assume eq: "a @ x # b = c @ x # d"
  have "takeWhile (\<lambda>y. y \<noteq> x) (a @ x # b) = a" "takeWhile (\<lambda>y. y \<noteq> x) (c @ x # d) = c"
    using assms by (auto simp: takeWhile_append)
  with eq have "a = c" by metis
  with eq show "a = c \<and> b = d" by simp
qed simp

section \<open>Little-endian integers\<close>

text \<open>The object representation of an unsigned integer of \<open>n\<close> bytes on x86.\<close>

primrec le_enc :: "nat \<Rightarrow> nat \<Rightarrow> string" where
  "le_enc 0 x = []"
| "le_enc (Suc n) x = char_of (x mod 256) # le_enc n (x div 256)"

primrec le_dec :: "string \<Rightarrow> nat" where
  "le_dec [] = 0"
| "le_dec (c # cs) = of_char c + 256 * le_dec cs"

lemma length_le_enc [simp]: "length (le_enc n x) = n"
  by (induction n arbitrary: x) auto

lemma le_dec_enc_mod: "le_dec (le_enc n x) = x mod 256 ^ n"
proof (induction n arbitrary: x)
  case 0
  then show ?case by simp
next
  case (Suc n)
  have "x mod 256 + 256 * (x div 256 mod 256 ^ n) = x mod (256 * 256 ^ n)"
    by (metis add.commute mod_mult2_eq mult.commute)
  with Suc show ?case by (simp add: of_char_of)
qed

lemma le_dec_enc_64 [codec_simps]: "word_of_nat (le_dec (le_enc 8 (unat (w :: u64)))) = w"
  using unat_bound [of w] by (simp add: le_dec_enc_mod)

lemma le_dec_enc_32 [codec_simps]: "word_of_nat (le_dec (le_enc 4 (unat (w :: u32)))) = w"
  using unat_bound [of w] by (simp add: le_dec_enc_mod)

lemma le_dec_enc_16 [codec_simps]: "word_of_nat (le_dec (le_enc 2 (unat (w :: u16)))) = w"
  using unat_bound [of w] by (simp add: le_dec_enc_mod)

section \<open>Byte strings\<close>

text \<open>\<^verbatim>\<open>std::string::resize(n)\<close>: truncate, or extend with NUL bytes.\<close>

definition str_resize :: "nat \<Rightarrow> string \<Rightarrow> string" where
  "str_resize n s = take n s @ replicate (n - length s) NUL"

text \<open>\<^verbatim>\<open>s.replace(pos, n, buf, n)\<close> for a range inside \<open>s\<close>.\<close>

definition str_replace :: "nat \<Rightarrow> string \<Rightarrow> string \<Rightarrow> string" where
  "str_replace pos buf s = take pos s @ buf @ drop (pos + length buf) s"

text \<open>The byte at an index of a string that is read as if NUL bytes followed it.\<close>

definition byte_at :: "string \<Rightarrow> nat \<Rightarrow> char" where
  "byte_at s i = (if i < length s then s ! i else NUL)"

lemma length_str_resize [simp]: "length (str_resize n s) = n"
  by (simp add: str_resize_def)

lemma length_str_replace [simp]:
  "pos + length buf \<le> length s \<Longrightarrow> length (str_replace pos buf s) = length s"
  by (simp add: str_replace_def)

lemma byte_at_resize: "byte_at (str_resize n s) i = (if i < n then byte_at s i else NUL)"
  by (auto simp: byte_at_def str_resize_def nth_append)

lemma byte_at_replace:
  "pos + length buf \<le> length s \<Longrightarrow>
   byte_at (str_replace pos buf s) i =
     (if pos \<le> i \<and> i < pos + length buf then buf ! (i - pos) else byte_at s i)"
  by (auto simp: byte_at_def str_replace_def nth_append)

lemma byte_at_Nil [simp]: "byte_at [] i = NUL"
  by (simp add: byte_at_def)

end
