(* ===== verification/StdMap.thy ===== *)
theory StdMap
  imports Prelude
begin

text \<open>
  \<^verbatim>\<open>std::map<std::string, T>\<close> of the C++ standard library, as the sorted list of its
  key-value pairs: iteration visits the pairs in key order, which is what
  \<^verbatim>\<open>LogFSDirectoryPartition::Serialize\<close> writes out. The locale states what clients use of
  it; the interpretation discharges that for the list.
\<close>

type_synonym ('k, 'v) smap = "('k \<times> 'v) list"

primrec smap_insert :: "'k::linorder \<Rightarrow> 'v \<Rightarrow> ('k, 'v) smap \<Rightarrow> ('k, 'v) smap" where
  "smap_insert k v [] = [(k, v)]"
| "smap_insert k v (p # m) =
     (if k < fst p then (k, v) # p # m
      else if k = fst p then (k, v) # m
      else p # smap_insert k v m)"

definition smap_find :: "('k, 'v) smap \<Rightarrow> 'k \<Rightarrow> 'v option" where
  "smap_find m k = map_of m k"

definition smap_erase :: "'k \<Rightarrow> ('k, 'v) smap \<Rightarrow> ('k, 'v) smap" where
  "smap_erase k m = filter (\<lambda>p. fst p \<noteq> k) m"

definition smap_ok :: "('k::linorder, 'v) smap \<Rightarrow> bool" where
  "smap_ok m = sorted_wrt (<) (map fst m)"

text \<open>The contract: a finite map with insertion, deletion and lookup.\<close>

locale finite_table =
  fixes empty :: 'm
    and lookup :: "'m \<Rightarrow> 'k \<Rightarrow> 'v option"
    and insert :: "'k \<Rightarrow> 'v \<Rightarrow> 'm \<Rightarrow> 'm"
    and erase :: "'k \<Rightarrow> 'm \<Rightarrow> 'm"
    and valid :: "'m \<Rightarrow> bool"
  assumes valid_empty: "valid empty"
    and lookup_empty: "lookup empty k = None"
    and valid_insert: "valid m \<Longrightarrow> valid (insert k v m)"
    and lookup_insert: "valid m \<Longrightarrow> lookup (insert k v m) k' = (if k' = k then Some v else lookup m k')"
    and valid_erase: "valid m \<Longrightarrow> valid (erase k m)"
    and lookup_erase: "valid m \<Longrightarrow> lookup (erase k m) k' = (if k' = k then None else lookup m k')"
begin

lemma lookup_erase_insert:
  "valid m \<Longrightarrow> lookup m k = None \<Longrightarrow> lookup (erase k (insert k v m)) = lookup m"
  by (rule ext) (simp add: lookup_erase lookup_insert valid_insert)

lemma lookup_insert_absorb: "valid m \<Longrightarrow> lookup m k = Some v \<Longrightarrow> lookup (insert k v m) = lookup m"
  by (rule ext) (simp add: lookup_insert)

lemma lookup_fold_insert:
  "valid m \<Longrightarrow> distinct (map fst ps) \<Longrightarrow>
   valid (fold (\<lambda>(k, v). insert k v) ps m) \<and>
   lookup (fold (\<lambda>(k, v). insert k v) ps m) k =
     (case map_of ps k of None \<Rightarrow> lookup m k | Some v \<Rightarrow> Some v)"
proof (induction ps arbitrary: m)
  case Nil
  then show ?case by simp
next
  case (Cons p ps)
  obtain a b where p: "p = (a, b)" by force
  with Cons.prems have "map_of ps a = None"
    by (auto simp: map_of_eq_None_iff)
  then show ?case
    using Cons.IH [of "insert a b m"] Cons.prems p
    by (auto simp: valid_insert lookup_insert split: option.splits)
qed

end

section \<open>The sorted list is such a table\<close>

lemma smap_insert_set: "set (map fst (smap_insert k v m)) = insert k (set (map fst m))"
  by (induction m) auto

lemma smap_ok_insert: "smap_ok m \<Longrightarrow> smap_ok (smap_insert k v m)"
proof (induction m)
  case Nil
  then show ?case by (simp add: smap_ok_def)
next
  case (Cons p m)
  then have IH: "smap_ok (smap_insert k v m)" by (simp add: smap_ok_def)
  show ?case
    using Cons.prems IH smap_insert_set [of k v m]
    by (force simp: smap_ok_def)
qed

lemma smap_find_insert:
  "smap_ok m \<Longrightarrow> smap_find (smap_insert k v m) k' = (if k' = k then Some v else smap_find m k')"
proof (induction m)
  case Nil
  then show ?case by (simp add: smap_find_def)
next
  case (Cons p m)
  then show ?case by (cases p) (auto simp: smap_find_def smap_ok_def)
qed

lemma smap_ok_erase: "smap_ok m \<Longrightarrow> smap_ok (smap_erase k m)"
  by (induction m) (auto simp: smap_ok_def smap_erase_def)

lemma smap_find_erase: "smap_find (smap_erase k m) k' = (if k' = k then None else smap_find m k')"
  by (induction m) (auto simp: smap_find_def smap_erase_def)

interpretation smap: finite_table "[]" smap_find smap_insert smap_erase smap_ok
  by unfold_locales
    (auto simp: smap_ok_insert smap_find_insert smap_ok_erase smap_find_erase,
     auto simp: smap_ok_def smap_find_def)

lemma smap_ok_distinct: "smap_ok m \<Longrightarrow> distinct (map fst m)"
  by (auto simp: smap_ok_def strict_sorted_iff)

lemma smap_find_mem: "smap_ok m \<Longrightarrow> smap_find m k = Some v \<longleftrightarrow> (k, v) \<in> set m"
  by (simp add: smap_find_def smap_ok_distinct)

lemma smap_find_Nil [simp]: "smap_find [] k = None"
  by (simp add: smap_find_def)

lemma smap_ok_Nil [simp]: "smap_ok []"
  by (simp add: smap_ok_def)

text \<open>Two sorted lists with the same lookups are the same list.\<close>

lemma smap_ext:
  assumes "smap_ok m" "smap_ok n" "smap_find m = smap_find n"
  shows "m = n"
proof -
  have "set m = set n"
    using assms smap_find_mem [OF assms(1)] smap_find_mem [OF assms(2)] by auto
  moreover have "sorted_wrt (\<lambda>p q. fst p < fst q) m" "sorted_wrt (\<lambda>p q. fst p < fst q) n"
    using assms(1,2) by (simp_all add: smap_ok_def sorted_wrt_map)
  moreover have "distinct m" "distinct n"
    using assms(1,2) by (auto dest: smap_ok_distinct simp: distinct_map)
  ultimately show ?thesis
    using map_sorted_distinct_set_unique [of fst m n] assms(1,2)
    by (auto simp: smap_ok_def strict_sorted_iff distinct_map)
qed

lemma smap_insert_fresh_mem:
  "smap_ok m \<Longrightarrow> set (smap_insert k v m) = insert (k, v) {p \<in> set m. fst p \<noteq> k}"
proof (induction m)
  case Nil
  then show ?case by simp
next
  case (Cons p m)
  then show ?case by (cases p) (force simp: smap_ok_def)
qed

end
