(* ===== verification/Status.thy ===== *)
theory Status
  imports Prelude
begin

text \<open>
  Status codes (\<^verbatim>\<open>src/src/Status.h\<close>, \<^verbatim>\<open>src/src/Status.cc\<close>): the enumeration every layer
  below FUSE returns, its two string tables and its translation into an \<^verbatim>\<open>errno\<close>. An
  enumerator keeps its name; \<open>status_code\<close> is its value. The two table functions take the
  value, since the code indexes the tables with \<^verbatim>\<open>unsigned int index = status\<close>.
\<close>

datatype Status =
    STATUS_OK
  | STATUS_UNKNOWN_TABLET
  | STATUS_TABLE_DOESNT_EXIST
  | STATUS_OBJECT_DOESNT_EXIST
  | STATUS_OBJECT_EXISTS
  | STATUS_WRONG_VERSION
  | STATUS_NO_TABLE_SPACE
  | STATUS_MESSAGE_TOO_SHORT
  | STATUS_UNIMPLEMENTED_REQUEST
  | STATUS_REQUEST_FORMAT_ERROR
  | STATUS_RESPONSE_FORMAT_ERROR
  | STATUS_COULDNT_CONNECT
  | STATUS_BACKUP_BAD_SEGMENT_ID
  | STATUS_BACKUP_OPEN_REJECTED
  | STATUS_BACKUP_SEGMENT_OVERFLOW
  | STATUS_BACKUP_MALFORMED_SEGMENT
  | STATUS_SEGMENT_RECOVERY_FAILED
  | STATUS_RETRY
  | STATUS_SERVICE_NOT_AVAILABLE
  | STATUS_TIMEOUT
  | STATUS_SERVER_NOT_UP
  | STATUS_INTERNAL_ERROR
  | STATUS_INVALID_OBJECT
  | STATUS_TABLET_DOESNT_EXIST
  | STATUS_PARTITION_BEFORE_READ
  | STATUS_WRONG_SERVER
  | STATUS_CALLER_NOT_IN_CLUSTER
  | STATUS_REQUEST_TOO_LARGE
  | STATUS_UNKNOWN_INDEXLET
  | STATUS_UNKNOWN_INDEX
  | STATUS_INVALID_PARAMETER

primrec status_code :: "Status \<Rightarrow> nat" where
  "status_code STATUS_OK = 0"
| "status_code STATUS_UNKNOWN_TABLET = 1"
| "status_code STATUS_TABLE_DOESNT_EXIST = 2"
| "status_code STATUS_OBJECT_DOESNT_EXIST = 3"
| "status_code STATUS_OBJECT_EXISTS = 4"
| "status_code STATUS_WRONG_VERSION = 5"
| "status_code STATUS_NO_TABLE_SPACE = 6"
| "status_code STATUS_MESSAGE_TOO_SHORT = 7"
| "status_code STATUS_UNIMPLEMENTED_REQUEST = 8"
| "status_code STATUS_REQUEST_FORMAT_ERROR = 9"
| "status_code STATUS_RESPONSE_FORMAT_ERROR = 10"
| "status_code STATUS_COULDNT_CONNECT = 11"
| "status_code STATUS_BACKUP_BAD_SEGMENT_ID = 12"
| "status_code STATUS_BACKUP_OPEN_REJECTED = 13"
| "status_code STATUS_BACKUP_SEGMENT_OVERFLOW = 14"
| "status_code STATUS_BACKUP_MALFORMED_SEGMENT = 15"
| "status_code STATUS_SEGMENT_RECOVERY_FAILED = 16"
| "status_code STATUS_RETRY = 17"
| "status_code STATUS_SERVICE_NOT_AVAILABLE = 18"
| "status_code STATUS_TIMEOUT = 19"
| "status_code STATUS_SERVER_NOT_UP = 20"
| "status_code STATUS_INTERNAL_ERROR = 21"
| "status_code STATUS_INVALID_OBJECT = 22"
| "status_code STATUS_TABLET_DOESNT_EXIST = 23"
| "status_code STATUS_PARTITION_BEFORE_READ = 24"
| "status_code STATUS_WRONG_SERVER = 25"
| "status_code STATUS_CALLER_NOT_IN_CLUSTER = 26"
| "status_code STATUS_REQUEST_TOO_LARGE = 27"
| "status_code STATUS_UNKNOWN_INDEXLET = 28"
| "status_code STATUS_UNKNOWN_INDEX = 29"
| "status_code STATUS_INVALID_PARAMETER = 30"

definition STATUS_MAX_VALUE :: nat where
  "STATUS_MAX_VALUE = 30"

definition messages :: "string list" where
  "messages = [
    ''operation succeeded'',
    ''unknown table (may exist elsewhere)'',
    ''table doesn'' @ CHR 0x27 # ''t exist'',
    ''object doesn'' @ CHR 0x27 # ''t exist'',
    ''object already exists'',
    ''object has wrong version'',
    ''insufficient space to create new table'',
    ''RPC request message too short'',
    ''invalid RPC request type'',
    ''RPC request improperly formatted'',
    ''RPC response improperly formatted'',
    ''couldn'' @ CHR 0x27 # ''t connect to RAMCloud cluster'',
    ''bad segment id'',
    ''backup rejected replica open request'',
    ''segment overflow'',
    ''malformed segment'',
    ''segment recovery failed'',
    ''retry'',
    ''service not available'',
    ''operation took too long'',
    ''server doesn'' @ CHR 0x27 # ''t exist'',
    ''internal RAMCloud error'',
    ''object is invalid for the chosen operation'',
    ''tablet doesn'' @ CHR 0x27 # ''t exist'',
    ''reading data should preceed partitioning'',
    ''rpc sent to wrong server id'',
    ''invoking server does not appear to be in the cluster'',
    ''request is too large'',
    ''unknown indexlet (may exist elsewhere)'',
    ''unknown index'',
    ''invalid parameter'']"

definition symbols :: "string list" where
  "symbols = [
    ''STATUS_OK'',
    ''STATUS_UNKNOWN_TABLET'',
    ''STATUS_TABLE_DOESNT_EXIST'',
    ''STATUS_OBJECT_DOESNT_EXIST'',
    ''STATUS_OBJECT_EXISTS'',
    ''STATUS_WRONG_VERSION'',
    ''STATUS_NO_TABLE_SPACE'',
    ''STATUS_MESSAGE_TOO_SHORT'',
    ''STATUS_UNIMPLEMENTED_REQUEST'',
    ''STATUS_REQUEST_FORMAT_ERROR'',
    ''STATUS_RESPONSE_FORMAT_ERROR'',
    ''STATUS_COULDNT_CONNECT'',
    ''STATUS_BACKUP_BAD_SEGMENT_ID'',
    ''STATUS_BACKUP_OPEN_REJECTED'',
    ''STATUS_BACKUP_SEGMENT_OVERFLOW'',
    ''STATUS_BACKUP_MALFORMED_SEGMENT'',
    ''STATUS_SEGMENT_RECOVERY_FAILED'',
    ''STATUS_RETRY'',
    ''STATUS_SERVICE_NOT_AVAILABLE'',
    ''STATUS_TIMEOUT'',
    ''STATUS_SERVER_NOT_UP'',
    ''STATUS_INTERNAL_ERROR'',
    ''STATUS_INVALID_OBJECT'',
    ''STATUS_TABLET_DOESNT_EXIST'',
    ''STATUS_PARTITION_BEFORE_READ'',
    ''STATUS_WRONG_SERVER'',
    ''STATUS_CALLER_NOT_IN_CLUSTER'',
    ''STATUS_REQUEST_TOO_LARGE'',
    ''STATUS_UNKNOWN_INDEXLET'',
    ''STATUS_UNKNOWN_INDEX'',
    ''STATUS_INVALID_PARAMETER'']"

definition statusToString :: "nat \<Rightarrow> string" where
  "statusToString index =
     (if index \<ge> length messages then ''unrecognized RAMCloud error'' else messages ! index)"

definition statusToSymbol :: "nat \<Rightarrow> string" where
  "statusToSymbol index =
     (if index \<ge> length symbols then ''STATUS_UNKNOWN'' else symbols ! index)"

section \<open>Error numbers\<close>

text \<open>The values of \<^verbatim>\<open>errno.h\<close> on Linux that the code uses.\<close>

definition ENOENT :: int where "ENOENT = 2"
definition EIO :: int where "EIO = 5"
definition ENOMEM :: int where "ENOMEM = 12"
definition EACCES :: int where "EACCES = 13"
definition EEXIST :: int where "EEXIST = 17"
definition ENOTDIR :: int where "ENOTDIR = 20"
definition EINVAL :: int where "EINVAL = 22"
definition ENOTSUP :: int where "ENOTSUP = 95"

lemmas errno_defs =
  ENOENT_def EIO_def ENOMEM_def EACCES_def EEXIST_def ENOTDIR_def EINVAL_def ENOTSUP_def

definition StatusToErrno :: "Status \<Rightarrow> int" where
  "StatusToErrno status =
     (case status of
        STATUS_OK \<Rightarrow> 0
      | STATUS_OBJECT_DOESNT_EXIST \<Rightarrow> ENOENT
      | STATUS_OBJECT_EXISTS \<Rightarrow> EEXIST
      | STATUS_INTERNAL_ERROR \<Rightarrow> EIO
      | STATUS_INVALID_PARAMETER \<Rightarrow> EINVAL
      | _ \<Rightarrow> EIO)"

section \<open>Properties\<close>

lemma StatusToErrno_0 [simp]: "StatusToErrno s = 0 \<longleftrightarrow> s = STATUS_OK"
  by (cases s) (simp_all add: StatusToErrno_def errno_defs)

lemma StatusToErrno_OK [simp]: "StatusToErrno STATUS_OK = 0"
  by simp

lemma table_lengths: "length messages = Suc STATUS_MAX_VALUE" "length symbols = Suc STATUS_MAX_VALUE"
  by (simp_all add: messages_def symbols_def STATUS_MAX_VALUE_def)

lemma status_code_le: "status_code s \<le> STATUS_MAX_VALUE"
  by (cases s) (simp_all add: STATUS_MAX_VALUE_def)

lemma status_code_inject: "status_code s = status_code t \<longleftrightarrow> s = t"
  by (cases s; cases t) simp_all

end
