(* ===== verification/KVStore.thy ===== *)
theory KVStore
  imports Prelude
begin

text \<open>
  The key-value store interface (\<^verbatim>\<open>src/src/KVStore.h\<close>), which every other component of the
  file system is written against, and the keys the file system builds.

  A store holds a map from keys to values. A call may report failure; which calls do is
  left open: \<open>kv_fault\<close> answers, for an operation and a key, whether the call fails. The
  environment may change that answer between two operations of the file system. A failing
  \<^verbatim>\<open>put\<close> or \<^verbatim>\<open>remove\<close> leaves the map as it was. A \<^verbatim>\<open>get\<close> that fails cannot be told from
  one that finds nothing: both return \<^verbatim>\<open>false\<close>.
\<close>

datatype kv_op = KvPut | KvGet | KvRemove

record kvs =
  kv_data :: "string \<Rightarrow> string option"
  kv_fault :: "kv_op \<Rightarrow> string \<Rightarrow> bool"

definition kv_put :: "string \<Rightarrow> string \<Rightarrow> kvs \<Rightarrow> bool \<times> kvs" where
  "kv_put key value s =
     (if kv_fault s KvPut key then (False, s)
      else (True, s\<lparr>kv_data := (kv_data s)(key := Some value)\<rparr>))"

definition kv_get :: "string \<Rightarrow> kvs \<Rightarrow> string option" where
  "kv_get key s = (if kv_fault s KvGet key then None else kv_data s key)"

definition kv_remove :: "string \<Rightarrow> kvs \<Rightarrow> bool \<times> kvs" where
  "kv_remove key s =
     (if kv_fault s KvRemove key then (False, s)
      else (True, s\<lparr>kv_data := (kv_data s)(key := None)\<rparr>))"

text \<open>A store none of whose calls fails, and the store of a new database.\<close>

definition reliable :: "kvs \<Rightarrow> bool" where
  "reliable s \<longleftrightarrow> (\<forall>oper key. \<not> kv_fault s oper key)"

definition empty_kvs :: kvs where
  "empty_kvs = \<lparr>kv_data = (\<lambda>_. None), kv_fault = (\<lambda>_ _. False)\<rparr>"

section \<open>The contract\<close>

locale kv_store =
  fixes put :: "string \<Rightarrow> string \<Rightarrow> 's \<Rightarrow> bool \<times> 's"
    and get :: "string \<Rightarrow> 's \<Rightarrow> string option"
    and remove :: "string \<Rightarrow> 's \<Rightarrow> bool \<times> 's"
    and ok :: "'s \<Rightarrow> bool"
  assumes put_ok: "ok s \<Longrightarrow> \<exists>s'. put k v s = (True, s') \<and> ok s'"
    and get_put: "ok s \<Longrightarrow> get k' (snd (put k v s)) = (if k' = k then Some v else get k' s)"
    and remove_ok: "ok s \<Longrightarrow> \<exists>s'. remove k s = (True, s') \<and> ok s'"
    and get_remove: "ok s \<Longrightarrow> get k' (snd (remove k s)) = (if k' = k then None else get k' s)"
begin

lemma ok_put: "ok s \<Longrightarrow> ok (snd (put k v s))"
  using put_ok [of s k v] by auto

lemma ok_remove: "ok s \<Longrightarrow> ok (snd (remove k s))"
  using remove_ok [of s k] by auto

lemma put_twice: "ok s \<Longrightarrow> get k' (snd (put k w (snd (put k v s)))) = get k' (snd (put k w s))"
  by (simp add: get_put ok_put)

lemma put_commute:
  "ok s \<Longrightarrow> j \<noteq> k \<Longrightarrow>
   get k' (snd (put j v (snd (put k w s)))) = get k' (snd (put k w (snd (put j v s))))"
  by (simp add: get_put ok_put)

lemma remove_put: "ok s \<Longrightarrow> get k' (snd (remove k (snd (put k v s)))) = get k' (snd (remove k s))"
  by (simp add: get_put get_remove ok_put)

end

interpretation kv: kv_store kv_put kv_get kv_remove reliable
  by unfold_locales
    (auto simp: kv_put_def kv_get_def kv_remove_def reliable_def)

lemma reliable_empty [simp]: "reliable empty_kvs"
  by (simp add: reliable_def empty_kvs_def)

lemma kv_put_reliable [kv_simps]:
  "reliable s \<Longrightarrow> kv_put k v s = (True, s\<lparr>kv_data := (kv_data s)(k := Some v)\<rparr>)"
  by (simp add: kv_put_def reliable_def)

lemma kv_get_reliable [kv_simps]: "reliable s \<Longrightarrow> kv_get k s = kv_data s k"
  by (simp add: kv_get_def reliable_def)

lemma kv_remove_reliable [kv_simps]:
  "reliable s \<Longrightarrow> kv_remove k s = (True, s\<lparr>kv_data := (kv_data s)(k := None)\<rparr>)"
  by (simp add: kv_remove_def reliable_def)

lemma reliable_update [simp]: "reliable (s\<lparr>kv_data := d\<rparr>) = reliable s"
  by (simp add: reliable_def)

lemma kv_put_fault [simp]: "kv_fault (snd (kv_put k v s)) = kv_fault s"
  by (simp add: kv_put_def)

lemma kv_remove_fault [simp]: "kv_fault (snd (kv_remove k s)) = kv_fault s"
  by (simp add: kv_remove_def)

section \<open>Keys\<close>

text \<open>
  The file system formats its keys with \<^verbatim>\<open>snprintf\<close>: the inode of handle \<open>h\<close> is stored
  under \<^verbatim>\<open>"%lu"\<close>, a data chunk of a file under \<^verbatim>\<open>"%lu.%lu"\<close> and a partition of a directory
  under \<^verbatim>\<open>"%lu.%d"\<close>, where the partition number is a 16-bit unsigned integer.
\<close>

definition inode_key :: "u64 \<Rightarrow> string" where
  "inode_key h = snprintf128 (show_lu h)"

definition chunk_key :: "u64 \<Rightarrow> int \<Rightarrow> string" where
  "chunk_key h chunk = snprintf128 (show_lu h @ ''.'' @ show_lu (word_of_int chunk))"

definition partition_key :: "u64 \<Rightarrow> u16 \<Rightarrow> string" where
  "partition_key ino p = snprintf128 (show_lu ino @ ''.'' @ show_nat (unat p))"

definition super_key :: "u64 \<Rightarrow> string" where
  "super_key fs_id = ''SUPER.'' @ show_lu fs_id"

text \<open>No key is long enough to be truncated.\<close>

lemma inode_key_eq: "inode_key h = show_lu h"
  using length_show_lu [of h] by (simp add: inode_key_def snprintf128_def)

lemma chunk_key_eq: "chunk_key h c = show_lu h @ CHR ''.'' # show_lu (word_of_int c)"
  using length_show_lu [of h] length_show_lu [of "word_of_int c"]
  by (simp add: chunk_key_def snprintf128_def)

lemma partition_key_eq: "partition_key h p = show_lu h @ CHR ''.'' # show_nat (unat p)"
proof -
  have "unat p < 2 ^ 16" using unat_bound [of p] by simp
  then have "length (show_nat (unat p)) \<le> 5"
    by (intro length_show_nat) auto
  then show ?thesis
    using length_show_lu [of h] by (simp add: partition_key_def snprintf128_def)
qed

lemmas key_eqs = inode_key_eq chunk_key_eq partition_key_eq super_key_def

lemma inode_key_inject [key_simps]: "inode_key g = inode_key h \<longleftrightarrow> g = h"
  by (simp add: inode_key_eq)

lemma uint_word_of_int_64: "0 \<le> a \<Longrightarrow> a < 2 ^ 64 \<Longrightarrow> uint (word_of_int a :: u64) = a"
  by (simp add: unsigned_of_int take_bit_int_eq_self)

lemma word_of_int_inject_64:
  assumes "0 \<le> a" "a < 2 ^ 64" "0 \<le> b" "b < 2 ^ 64"
  shows "(word_of_int a :: u64) = word_of_int b \<longleftrightarrow> a = b"
proof
  assume "(word_of_int a :: u64) = word_of_int b"
  then have "uint (word_of_int a :: u64) = uint (word_of_int b :: u64)" by simp
  then show "a = b" by (simp only: uint_word_of_int_64 assms)
qed simp

lemma sep_key_inject:
  "show_lu g @ CHR ''.'' # a = show_lu h @ CHR ''.'' # b \<longleftrightarrow> g = h \<and> a = b"
  by (simp add: append_sep_eq_iff show_lu_def word_unat_eq_iff)

lemma chunk_key_handle [key_simps]: "g \<noteq> h \<Longrightarrow> chunk_key g a \<noteq> chunk_key h b"
  by (simp add: chunk_key_eq sep_key_inject)

lemma partition_key_inject [key_simps]:
  "partition_key g p = partition_key h q \<longleftrightarrow> g = h \<and> p = q"
  by (simp add: partition_key_eq sep_key_inject word_unat_eq_iff)

lemma chunk_partition_key [key_simps]: "g \<noteq> h \<Longrightarrow> chunk_key g a \<noteq> partition_key h q"
  by (simp add: chunk_key_eq partition_key_eq sep_key_inject)

lemma dot_not_in_inode_key: "CHR ''.'' \<notin> set (inode_key h)"
  by (simp add: inode_key_eq show_lu_def)

lemma inode_chunk_key [key_simps]: "inode_key g \<noteq> chunk_key h c" "chunk_key h c \<noteq> inode_key g"
  using dot_not_in_inode_key [of g] by (metis chunk_key_eq in_set_conv_decomp)+

lemma inode_partition_key [key_simps]:
  "inode_key g \<noteq> partition_key h p" "partition_key h p \<noteq> inode_key g"
  using dot_not_in_inode_key [of g] by (metis partition_key_eq in_set_conv_decomp)+

lemma S_not_in_key:
  "CHR ''S'' \<notin> set (inode_key h)" "CHR ''S'' \<notin> set (chunk_key h c)"
  "CHR ''S'' \<notin> set (partition_key h p)"
  by (simp_all add: key_eqs show_lu_def)

lemma super_key_distinct [key_simps]:
  "super_key f \<noteq> inode_key h" "super_key f \<noteq> chunk_key h c" "super_key f \<noteq> partition_key h p"
  "inode_key h \<noteq> super_key f" "chunk_key h c \<noteq> super_key f" "partition_key h p \<noteq> super_key f"
proof -
  have "CHR ''S'' \<in> set (super_key f)" by (simp add: super_key_def)
  then show
    "super_key f \<noteq> inode_key h" "super_key f \<noteq> chunk_key h c" "super_key f \<noteq> partition_key h p"
    "inode_key h \<noteq> super_key f" "chunk_key h c \<noteq> super_key f" "partition_key h p \<noteq> super_key f"
    using S_not_in_key by metis+
qed

lemma chunk_key_inject [key_simps]:
  assumes "0 \<le> a" "a < 2 ^ 64" "0 \<le> b" "b < 2 ^ 64"
  shows "chunk_key g a = chunk_key h b \<longleftrightarrow> g = h \<and> a = b"
  by (simp add: chunk_key_eq sep_key_inject word_of_int_inject_64 [OF assms])

end
