(* ===== verification/Stores.thy ===== *)
theory Stores
  imports KVStore
begin

text \<open>
  The two implementations of the store interface: \<^verbatim>\<open>LevelDBStore\<close> and \<^verbatim>\<open>RocksDBStore\<close>
  (\<^verbatim>\<open>src/src/LevelDBStore.{h,cc}\<close>, \<^verbatim>\<open>src/src/RocksDBStore.{h,cc}\<close>) and their factories.

  Both wrap a database object of a library. The library is a parameter: a record of the
  calls the wrappers make, over a type \<open>'d\<close> of database states. What the library documents
  (\<^verbatim>\<open>db.h\<close>) are the predicates \<open>..._documented\<close> below, hypotheses only where a statement
  needs them. The wrappers hold a pointer to the database; the database itself is shared by a
  store and its snapshots, so it is the heap cell \<open>'d option\<close> that the calls pass along:
  \<open>None\<close> after it was deleted. Dereferencing a null or dangling pointer is \<open>Undef\<close>.
\<close>

section \<open>The library\<close>

type_synonym snapshot_id = nat

record 'd db_api =
  DB_Open :: "string \<Rightarrow> 'd option"
  DB_Destroy :: "string \<Rightarrow> bool"
  DB_Put :: "string \<Rightarrow> string \<Rightarrow> 'd \<Rightarrow> bool \<times> 'd"
  DB_Get :: "snapshot_id option \<Rightarrow> string \<Rightarrow> 'd \<Rightarrow> string option"
  DB_Delete :: "string \<Rightarrow> 'd \<Rightarrow> bool \<times> 'd"
  DB_GetSnapshot :: "'d \<Rightarrow> snapshot_id \<times> 'd"
  DB_ReleaseSnapshot :: "snapshot_id \<Rightarrow> 'd \<Rightarrow> 'd"
  DB_CompactRange :: "string \<Rightarrow> string \<Rightarrow> 'd \<Rightarrow> 'd"

text \<open>
  The documented behaviour: a write that reports success changes the contents at its key
  and nothing else, and writes to a healthy database succeed; nothing is said of a write that
  reports failure. A read of a healthy database returns the contents, or the contents at the time
  of the snapshot that its read options name, and taking a snapshot or compacting changes nothing
  a reader sees.
\<close>

definition writes_documented ::
  "'d db_api \<Rightarrow> ('d \<Rightarrow> string \<Rightarrow> string option) \<Rightarrow> ('d \<Rightarrow> bool) \<Rightarrow> bool" where
  "writes_documented api contents healthy \<longleftrightarrow>
     (\<forall>k v d ok d'. DB_Put api k v d = (ok, d') \<longrightarrow>
        (ok \<longrightarrow> contents d' = (contents d)(k := Some v)) \<and>
        (healthy d \<longrightarrow> ok \<and> healthy d')) \<and>
     (\<forall>k d ok d'. DB_Delete api k d = (ok, d') \<longrightarrow>
        (ok \<longrightarrow> contents d' = (contents d)(k := None)) \<and>
        (healthy d \<longrightarrow> ok \<and> healthy d'))"

definition reads_documented ::
  "'d db_api \<Rightarrow> ('d \<Rightarrow> string \<Rightarrow> string option) \<Rightarrow>
   ('d \<Rightarrow> snapshot_id \<Rightarrow> (string \<Rightarrow> string option) option) \<Rightarrow> ('d \<Rightarrow> bool) \<Rightarrow> bool" where
  "reads_documented api contents snapshot healthy \<longleftrightarrow>
     (\<forall>k d. healthy d \<longrightarrow> DB_Get api None k d = contents d k) \<and>
     (\<forall>k d n c. healthy d \<longrightarrow> snapshot d n = Some c \<longrightarrow> DB_Get api (Some n) k d = c k)"

definition snapshots_documented ::
  "'d db_api \<Rightarrow> ('d \<Rightarrow> string \<Rightarrow> string option) \<Rightarrow>
   ('d \<Rightarrow> snapshot_id \<Rightarrow> (string \<Rightarrow> string option) option) \<Rightarrow> ('d \<Rightarrow> bool) \<Rightarrow> bool" where
  "snapshots_documented api contents snapshot healthy \<longleftrightarrow>
     (\<forall>d n d'. DB_GetSnapshot api d = (n, d') \<longrightarrow>
        contents d' = contents d \<and> healthy d' = healthy d \<and> snapshot d' n = Some (contents d)) \<and>
     (\<forall>a b d. contents (DB_CompactRange api a b d) = contents d \<and>
        healthy (DB_CompactRange api a b d) = healthy d)"

section \<open>LevelDBStore\<close>

text \<open>
  \<open>ldb_db\<close>: the database pointer is not null. \<open>ldb_read_options\<close>: \<^verbatim>\<open>read_options\<close>, null or an
  options object with its snapshot pointer.
\<close>

record LevelDBStore =
  ldb_db :: bool
  ldb_db_name :: string
  ldb_is_snapshot :: bool
  ldb_read_options :: "snapshot_id option option"

definition LevelDBStore_new :: LevelDBStore where
  "LevelDBStore_new =
     \<lparr>ldb_db = False, ldb_db_name = [], ldb_is_snapshot = False, ldb_read_options = None\<rparr>"

definition LevelDBStore_init :: "string \<Rightarrow> bool \<Rightarrow> bool" where
  "LevelDBStore_init coordinatorLoc hasDispatchedThread = True"

definition LevelDBStore_open ::
  "'d db_api \<Rightarrow> string \<Rightarrow> LevelDBStore \<Rightarrow> bool \<times> LevelDBStore \<times> 'd option" where
  "LevelDBStore_open api dbName this =
     (case DB_Open api dbName of
        None \<Rightarrow> (False, this\<lparr>ldb_db := False\<rparr>, None)
      | Some d \<Rightarrow> (True, this\<lparr>ldb_db := True, ldb_db_name := dbName\<rparr>, Some d))"

definition LevelDBStore_close ::
  "LevelDBStore \<Rightarrow> 'd option \<Rightarrow> bool \<times> LevelDBStore \<times> 'd option" where
  "LevelDBStore_close this heap =
     (if ldb_db this then (True, this\<lparr>ldb_db := False\<rparr>, None) else (True, this, heap))"

definition LevelDBStore_destroy :: "'d db_api \<Rightarrow> string \<Rightarrow> bool" where
  "LevelDBStore_destroy api dbName = DB_Destroy api dbName"

definition ldb_deref :: "LevelDBStore \<Rightarrow> 'd option \<Rightarrow> 'd outcome" where
  "ldb_deref this heap = (if ldb_db this then of_option heap else Undef)"

definition LevelDBStore_put ::
  "'d db_api \<Rightarrow> string \<Rightarrow> string \<Rightarrow> LevelDBStore \<Rightarrow> 'd option \<Rightarrow> (bool \<times> 'd option) outcome" where
  "LevelDBStore_put api key value this heap =
     obind (ldb_deref this heap) (\<lambda>d.
       let (ok, d') = DB_Put api key value d;
           ret = (if \<not> ok then False else True)
       in Val (ret, Some d'))"

text \<open>\<^verbatim>\<open>get\<close> passes a fresh \<^verbatim>\<open>leveldb::ReadOptions()\<close>, whose snapshot pointer is null.\<close>

definition LevelDBStore_get ::
  "'d db_api \<Rightarrow> string \<Rightarrow> LevelDBStore \<Rightarrow> 'd option \<Rightarrow> (string option) outcome" where
  "LevelDBStore_get api key this heap =
     obind (ldb_deref this heap) (\<lambda>d. Val (DB_Get api None key d))"

definition LevelDBStore_remove ::
  "'d db_api \<Rightarrow> string \<Rightarrow> LevelDBStore \<Rightarrow> 'd option \<Rightarrow> (bool \<times> 'd option) outcome" where
  "LevelDBStore_remove api key this heap =
     obind (ldb_deref this heap) (\<lambda>d.
       let (ok, d') = DB_Delete api key d in Val (ok, Some d'))"

definition LevelDBStore_Compact ::
  "'d db_api \<Rightarrow> LevelDBStore \<Rightarrow> 'd option \<Rightarrow> ('d option) outcome" where
  "LevelDBStore_Compact api this heap =
     obind (ldb_deref this heap) (\<lambda>d.
       Val (Some (DB_CompactRange api [] [CHR 0xFF, CHR 0xFF, CHR 0xFF, CHR 0xFF] d)))"

definition LevelDBStore_Snapshot ::
  "'d db_api \<Rightarrow> LevelDBStore \<Rightarrow> 'd option \<Rightarrow> (LevelDBStore \<times> 'd option) outcome" where
  "LevelDBStore_Snapshot api this heap =
     (if ldb_is_snapshot this then Abort
      else obind (ldb_deref this heap) (\<lambda>d.
        let (snap, d') = DB_GetSnapshot api d
        in Val (LevelDBStore_new\<lparr>ldb_is_snapshot := True, ldb_read_options := Some (Some snap),
                  ldb_db := ldb_db this, ldb_db_name := ldb_db_name this @ ''.SNAP''\<rparr>, Some d')))"

definition LevelDBStore_IsSnapshot :: "LevelDBStore \<Rightarrow> bool" where
  "LevelDBStore_IsSnapshot this = ldb_is_snapshot this"

definition LevelDBStore_delete ::
  "'d db_api \<Rightarrow> LevelDBStore \<Rightarrow> 'd option \<Rightarrow> ('d option) outcome" where
  "LevelDBStore_delete api this heap =
     (case ldb_read_options this of
        Some (Some snap) \<Rightarrow>
          (if ldb_is_snapshot this
           then obind (ldb_deref this heap) (\<lambda>d. Val (Some (DB_ReleaseSnapshot api snap d)))
           else Val heap)
      | _ \<Rightarrow> Val heap)"

section \<open>RocksDBStore\<close>

record RocksDBStore =
  rdb_db :: bool
  rdb_db_name :: string
  rdb_is_snapshot :: bool
  rdb_read_options :: "snapshot_id option option"

definition RocksDBStore_new :: RocksDBStore where
  "RocksDBStore_new =
     \<lparr>rdb_db = False, rdb_db_name = [], rdb_is_snapshot = False, rdb_read_options = None\<rparr>"

definition RocksDBStore_init :: "string \<Rightarrow> bool \<Rightarrow> bool" where
  "RocksDBStore_init coordinatorLoc hasDispatchedThread = True"

definition RocksDBStore_open ::
  "'d db_api \<Rightarrow> string \<Rightarrow> RocksDBStore \<Rightarrow> bool \<times> RocksDBStore \<times> 'd option" where
  "RocksDBStore_open api dbName this =
     (case DB_Open api dbName of
        None \<Rightarrow> (False, this\<lparr>rdb_db := False\<rparr>, None)
      | Some d \<Rightarrow> (True, this\<lparr>rdb_db := True, rdb_db_name := dbName\<rparr>, Some d))"

definition RocksDBStore_close ::
  "RocksDBStore \<Rightarrow> 'd option \<Rightarrow> bool \<times> RocksDBStore \<times> 'd option" where
  "RocksDBStore_close this heap =
     (if rdb_db this then (True, this\<lparr>rdb_db := False\<rparr>, None) else (True, this, heap))"

definition RocksDBStore_destroy :: "'d db_api \<Rightarrow> string \<Rightarrow> bool" where
  "RocksDBStore_destroy api dbName = DB_Destroy api dbName"

definition rdb_deref :: "RocksDBStore \<Rightarrow> 'd option \<Rightarrow> 'd outcome" where
  "rdb_deref this heap = (if rdb_db this then of_option heap else Undef)"

definition RocksDBStore_put ::
  "'d db_api \<Rightarrow> string \<Rightarrow> string \<Rightarrow> RocksDBStore \<Rightarrow> 'd option \<Rightarrow> (bool \<times> 'd option) outcome" where
  "RocksDBStore_put api key value this heap =
     obind (rdb_deref this heap) (\<lambda>d.
       let (ok, d') = DB_Put api key value d
       in if ok then Val (True, Some d') else Val (False, Some d'))"

definition RocksDBStore_get ::
  "'d db_api \<Rightarrow> string \<Rightarrow> RocksDBStore \<Rightarrow> 'd option \<Rightarrow> (string option) outcome" where
  "RocksDBStore_get api key this heap =
     obind (rdb_deref this heap) (\<lambda>d. Val (DB_Get api None key d))"

definition RocksDBStore_remove ::
  "'d db_api \<Rightarrow> string \<Rightarrow> RocksDBStore \<Rightarrow> 'd option \<Rightarrow> (bool \<times> 'd option) outcome" where
  "RocksDBStore_remove api key this heap =
     obind (rdb_deref this heap) (\<lambda>d.
       let (ok, d') = DB_Delete api key d in Val (ok, Some d'))"

definition RocksDBStore_Compact ::
  "'d db_api \<Rightarrow> RocksDBStore \<Rightarrow> 'd option \<Rightarrow> ('d option) outcome" where
  "RocksDBStore_Compact api this heap =
     obind (rdb_deref this heap) (\<lambda>d.
       Val (Some (DB_CompactRange api [] [CHR 0xFF, CHR 0xFF, CHR 0xFF, CHR 0xFF] d)))"

text \<open>Unlike \<^verbatim>\<open>LevelDBStore\<close>, a snapshot of a snapshot is logged and answered with null.\<close>

definition RocksDBStore_Snapshot ::
  "'d db_api \<Rightarrow> RocksDBStore \<Rightarrow> 'd option \<Rightarrow> (RocksDBStore option \<times> 'd option) outcome" where
  "RocksDBStore_Snapshot api this heap =
     (if rdb_is_snapshot this then Val (None, heap)
      else obind (rdb_deref this heap) (\<lambda>d.
        let (snap, d') = DB_GetSnapshot api d
        in Val (Some (RocksDBStore_new\<lparr>rdb_is_snapshot := True, rdb_read_options := Some (Some snap),
                  rdb_db := rdb_db this, rdb_db_name := rdb_db_name this @ ''.SNAP''\<rparr>), Some d')))"

definition RocksDBStore_IsSnapshot :: "RocksDBStore \<Rightarrow> bool" where
  "RocksDBStore_IsSnapshot this = rdb_is_snapshot this"

definition RocksDBStore_delete ::
  "'d db_api \<Rightarrow> RocksDBStore \<Rightarrow> 'd option \<Rightarrow> ('d option) outcome" where
  "RocksDBStore_delete api this heap =
     (case rdb_read_options this of
        Some (Some snap) \<Rightarrow>
          (if rdb_is_snapshot this
           then obind (rdb_deref this heap) (\<lambda>d. Val (Some (DB_ReleaseSnapshot api snap d)))
           else Val heap)
      | _ \<Rightarrow> Val heap)"

section \<open>Factories\<close>

text \<open>Both factories build a store for a local disk and refuse the other two placements.\<close>

definition LevelDBFactory_createLocalHDInstance :: "LevelDBStore option" where
  "LevelDBFactory_createLocalHDInstance = Some LevelDBStore_new"

definition LevelDBFactory_createLocalSSDInstance :: "LevelDBStore option" where
  "LevelDBFactory_createLocalSSDInstance = None"

definition LevelDBFactory_createRemoteInstance :: "LevelDBStore option" where
  "LevelDBFactory_createRemoteInstance = None"

definition RocksDBFactory_createLocalHDInstance :: "RocksDBStore option" where
  "RocksDBFactory_createLocalHDInstance = Some RocksDBStore_new"

definition RocksDBFactory_createLocalSSDInstance :: "RocksDBStore option" where
  "RocksDBFactory_createLocalSSDInstance = None"

definition RocksDBFactory_createRemoteInstance :: "RocksDBStore option" where
  "RocksDBFactory_createRemoteInstance = None"

section \<open>A database in memory\<close>

text \<open>
  An instance of the library's contract, for the witnesses: the map, the snapshots taken
  so far (most recent first) and whether the device still accepts writes.
\<close>

record memdb =
  mdb_data :: "string \<Rightarrow> string option"
  mdb_snaps :: "(string \<Rightarrow> string option) list"
  mdb_ok :: bool

definition memdb_api :: "memdb db_api" where
  "memdb_api = \<lparr>
     DB_Open = (\<lambda>name. Some \<lparr>mdb_data = (\<lambda>_. None), mdb_snaps = [], mdb_ok = True\<rparr>),
     DB_Destroy = (\<lambda>name. True),
     DB_Put = (\<lambda>k v d. if mdb_ok d then (True, d\<lparr>mdb_data := (mdb_data d)(k := Some v)\<rparr>) else (False, d)),
     DB_Get = (\<lambda>snap k d. case snap of None \<Rightarrow> mdb_data d k
        | Some n \<Rightarrow> if n < length (mdb_snaps d) then (rev (mdb_snaps d) ! n) k else None),
     DB_Delete = (\<lambda>k d. if mdb_ok d then (True, d\<lparr>mdb_data := (mdb_data d)(k := None)\<rparr>) else (False, d)),
     DB_GetSnapshot = (\<lambda>d. (length (mdb_snaps d), d\<lparr>mdb_snaps := mdb_data d # mdb_snaps d\<rparr>)),
     DB_ReleaseSnapshot = (\<lambda>n d. d),
     DB_CompactRange = (\<lambda>a b d. d)\<rparr>"

definition memdb_snapshot :: "memdb \<Rightarrow> snapshot_id \<Rightarrow> (string \<Rightarrow> string option) option" where
  "memdb_snapshot d n = (if n < length (mdb_snaps d) then Some (rev (mdb_snaps d) ! n) else None)"

lemma memdb_documented:
  "writes_documented memdb_api mdb_data mdb_ok"
  "reads_documented memdb_api mdb_data memdb_snapshot mdb_ok"
  "snapshots_documented memdb_api mdb_data memdb_snapshot mdb_ok"
  by (auto simp: writes_documented_def reads_documented_def snapshots_documented_def
      memdb_api_def memdb_snapshot_def nth_append fun_eq_iff split: if_splits)

section \<open>The stores implement the interface\<close>

lemma ldb_deref_Val [simp]: "ldb_db this \<Longrightarrow> ldb_deref this (Some d) = Val d"
  by (simp add: ldb_deref_def)

lemma rdb_deref_Val [simp]: "rdb_db this \<Longrightarrow> rdb_deref this (Some d) = Val d"
  by (simp add: rdb_deref_def)

text \<open>
  A store as a value: the wrapper and the database cell, with the calls of the interface.
  A call through a null or dangling pointer has no answer.
\<close>

definition ldb_put ::
  "'d db_api \<Rightarrow> string \<Rightarrow> string \<Rightarrow> LevelDBStore \<times> 'd option \<Rightarrow> bool \<times> (LevelDBStore \<times> 'd option)" where
  "ldb_put api k v s =
     (case LevelDBStore_put api k v (fst s) (snd s) of
        Val (ok, heap) \<Rightarrow> (ok, (fst s, heap)) | _ \<Rightarrow> (False, s))"

definition ldb_get :: "'d db_api \<Rightarrow> string \<Rightarrow> LevelDBStore \<times> 'd option \<Rightarrow> string option" where
  "ldb_get api k s = (case LevelDBStore_get api k (fst s) (snd s) of Val r \<Rightarrow> r | _ \<Rightarrow> None)"

definition ldb_remove ::
  "'d db_api \<Rightarrow> string \<Rightarrow> LevelDBStore \<times> 'd option \<Rightarrow> bool \<times> (LevelDBStore \<times> 'd option)" where
  "ldb_remove api k s =
     (case LevelDBStore_remove api k (fst s) (snd s) of
        Val (ok, heap) \<Rightarrow> (ok, (fst s, heap)) | _ \<Rightarrow> (False, s))"

definition ldb_live :: "('d \<Rightarrow> bool) \<Rightarrow> LevelDBStore \<times> 'd option \<Rightarrow> bool" where
  "ldb_live healthy s \<longleftrightarrow> ldb_db (fst s) \<and> (\<exists>d. snd s = Some d \<and> healthy d)"

definition rdb_put ::
  "'d db_api \<Rightarrow> string \<Rightarrow> string \<Rightarrow> RocksDBStore \<times> 'd option \<Rightarrow> bool \<times> (RocksDBStore \<times> 'd option)" where
  "rdb_put api k v s =
     (case RocksDBStore_put api k v (fst s) (snd s) of
        Val (ok, heap) \<Rightarrow> (ok, (fst s, heap)) | _ \<Rightarrow> (False, s))"

definition rdb_get :: "'d db_api \<Rightarrow> string \<Rightarrow> RocksDBStore \<times> 'd option \<Rightarrow> string option" where
  "rdb_get api k s = (case RocksDBStore_get api k (fst s) (snd s) of Val r \<Rightarrow> r | _ \<Rightarrow> None)"

definition rdb_remove ::
  "'d db_api \<Rightarrow> string \<Rightarrow> RocksDBStore \<times> 'd option \<Rightarrow> bool \<times> (RocksDBStore \<times> 'd option)" where
  "rdb_remove api k s =
     (case RocksDBStore_remove api k (fst s) (snd s) of
        Val (ok, heap) \<Rightarrow> (ok, (fst s, heap)) | _ \<Rightarrow> (False, s))"

definition rdb_live :: "('d \<Rightarrow> bool) \<Rightarrow> RocksDBStore \<times> 'd option \<Rightarrow> bool" where
  "rdb_live healthy s \<longleftrightarrow> rdb_db (fst s) \<and> (\<exists>d. snd s = Some d \<and> healthy d)"

lemmas ldb_defs = ldb_put_def ldb_get_def ldb_remove_def ldb_live_def LevelDBStore_put_def
  LevelDBStore_get_def LevelDBStore_remove_def

lemmas rdb_defs = rdb_put_def rdb_get_def rdb_remove_def rdb_live_def RocksDBStore_put_def
  RocksDBStore_get_def RocksDBStore_remove_def

lemma deref_cases:
  "ldb_deref this heap = (case heap of Some d \<Rightarrow> if ldb_db this then Val d else Undef | None \<Rightarrow> Undef)"
  "rdb_deref this2 heap = (case heap of Some d \<Rightarrow> if rdb_db this2 then Val d else Undef | None \<Rightarrow> Undef)"
  by (auto simp: ldb_deref_def rdb_deref_def split: option.splits)

lemma DB_Put_doc:
  assumes "writes_documented api contents healthy" "DB_Put api k v d = (ok, d')"
  shows "healthy d \<Longrightarrow> ok \<and> healthy d' \<and> contents d' = (contents d)(k := Some v)"
  using assms unfolding writes_documented_def by metis

lemma DB_Delete_doc:
  assumes "writes_documented api contents healthy" "DB_Delete api k d = (ok, d')"
  shows "healthy d \<Longrightarrow> ok \<and> healthy d' \<and> contents d' = (contents d)(k := None)"
  using assms unfolding writes_documented_def by metis

lemma DB_Get_doc:
  "reads_documented api contents snapshot healthy \<Longrightarrow> healthy d \<Longrightarrow>
   DB_Get api None k d = contents d k"
  by (simp add: reads_documented_def)

text \<open>
  Over a healthy database of a library that behaves as documented, an open \<^verbatim>\<open>LevelDBStore\<close> and an
  open \<^verbatim>\<open>RocksDBStore\<close> pass the library's behaviour on: they keep the contract of the store interface.
\<close>

lemma stores_implement_KVStore:
  assumes "writes_documented api contents healthy"
    and "reads_documented api contents snapshot healthy"
  shows "kv_store (ldb_put api) (ldb_get api) (ldb_remove api) (ldb_live healthy) \<and>
    kv_store (rdb_put api) (rdb_get api) (rdb_remove api) (rdb_live healthy)"
proof
  note doc = DB_Put_doc [OF assms(1)] DB_Delete_doc [OF assms(1)] DB_Get_doc [OF assms(2)]
  show "kv_store (ldb_put api) (ldb_get api) (ldb_remove api) (ldb_live healthy)"
    by unfold_locales
      (auto simp: ldb_defs deref_cases doc(3) split: prod.splits option.splits if_splits dest: doc)
  show "kv_store (rdb_put api) (rdb_get api) (rdb_remove api) (rdb_live healthy)"
    by unfold_locales
      (auto simp: rdb_defs deref_cases doc(3) split: prod.splits option.splits if_splits dest: doc)
qed

lemma memdb_stores_implement_KVStore:
  "kv_store (ldb_put memdb_api) (ldb_get memdb_api) (ldb_remove memdb_api) (ldb_live mdb_ok) \<and>
   kv_store (rdb_put memdb_api) (rdb_get memdb_api) (rdb_remove memdb_api) (rdb_live mdb_ok)"
  using stores_implement_KVStore [OF memdb_documented(1,2)] .

text \<open>
  C37. A snapshot store does not show the database as it was when the snapshot was taken: the
  \<^verbatim>\<open>get\<close> of the store that \<^verbatim>\<open>Snapshot\<close> returns builds fresh read options, without the
  snapshot, so it returns a value written to the base store afterwards. (The \<^verbatim>\<open>Snapshot\<close>
  call itself, through a store that is not a snapshot, succeeds.)
\<close>

theorem snapshot_store_reads_live_data:
  assumes "writes_documented api contents healthy"
    and "reads_documented api contents snapshot healthy"
    and "snapshots_documented api contents snapshot healthy"
    and "ldb_live healthy (base, Some d)" "\<not> ldb_is_snapshot base"
  shows "\<exists>snap heap heap'. LevelDBStore_Snapshot api base (Some d) = Val (snap, heap) \<and>
    LevelDBStore_IsSnapshot snap \<and>
    LevelDBStore_put api k v base heap = Val (True, heap') \<and>
    LevelDBStore_get api k snap heap' = Val (Some v)"
proof -
  obtain n d1 where snap: "DB_GetSnapshot api d = (n, d1)" by force
  obtain ok d2 where put: "DB_Put api k v d1 = (ok, d2)" by force
  have "healthy d1" using snap assms(3,4) by (simp add: snapshots_documented_def ldb_live_def)
  with put have "ok" "healthy d2" "contents d2 = (contents d1)(k := Some v)"
    using DB_Put_doc [OF assms(1) put] by auto
  then show ?thesis
    using assms snap put DB_Get_doc [OF assms(2), of d2 k]
    by (simp add: LevelDBStore_Snapshot_def LevelDBStore_put_def LevelDBStore_get_def
        LevelDBStore_IsSnapshot_def ldb_live_def)
qed

theorem snapshot_store_reads_live_data_witness:
  "\<exists>snap heap heap'.
     LevelDBStore_Snapshot memdb_api (LevelDBStore_new\<lparr>ldb_db := True\<rparr>)
       (DB_Open memdb_api ''fs'') = Val (snap, heap) \<and> LevelDBStore_IsSnapshot snap \<and>
     LevelDBStore_put memdb_api ''2'' ''new'' (LevelDBStore_new\<lparr>ldb_db := True\<rparr>) heap = Val (True, heap') \<and>
     LevelDBStore_get memdb_api ''2'' snap heap' = Val (Some ''new'')"
  using snapshot_store_reads_live_data
    [OF memdb_documented, of "LevelDBStore_new\<lparr>ldb_db := True\<rparr>" "the (DB_Open memdb_api ''fs'')" "''2''" "''new''"]
  by (simp add: ldb_live_def LevelDBStore_new_def memdb_api_def)

end
