(* ===== verification/MetaData.thy ===== *)
theory MetaData
  imports Prelude
begin

unbundle bit_operations_syntax

text \<open>
  File metadata: \<^verbatim>\<open>src/src/KVFSMetaData.h\<close> and the conversions between a \<^verbatim>\<open>mode_t\<close> and the
  stored type and protection (\<^verbatim>\<open>src/src/KVFSFile.cc\<close>).

  An inode is stored as the object representation of the structure \<^verbatim>\<open>LogFSMetaData\<close>
  (\<^verbatim>\<open>reinterpret_cast\<close> in \<^verbatim>\<open>LogFSFile::writeToLog\<close>, and a cast of the value read back), so
  the layout of the structure is part of the program: \<open>meta_encode\<close> and \<open>meta_decode\<close> are
  that layout for the x86-64 ABI (376 bytes, little endian, one trailing byte of padding,
  taken to be NUL). Structure members carry the prefix \<open>m_\<close>.
\<close>

section \<open>Data\<close>

datatype meta_type_t =
    LOGFS_INVAL | LOGFS_IFREG | LOGFS_IFDIR | LOGFS_IFLNK | LOGFS_IFBLK | LOGFS_IFCHR
  | LOGFS_IFIFO | LOGFS_IFSOCK

datatype EvictionState = ES_RESIDENT | ES_DATA_EVICTED | ES_EVICTED

record meta_perm =
  p_read :: bool
  p_write :: bool
  p_exec :: bool

record meta_prot_t =
  suid :: bool
  sgid :: bool
  sticky :: bool
  owner :: meta_perm
  group :: meta_perm
  other :: meta_perm

datatype LogEntryType =
    LOG_ENTRY_TYPE_INVALID | LOG_ENTRY_TYPE_SEGHEADER | LOG_ENTRY_TYPE_OBJ
  | LOG_ENTRY_TYPE_OBJTOMB | LOG_ENTRY_TYPE_LOGDIGEST | LOG_ENTRY_TYPE_SAFEVERSION
  | LOG_ENTRY_TYPE_TABLESTATS | LOG_ENTRY_TYPE_DIR | LOG_ENTRY_TYPE_DIR_METADATA
  | LOG_ENTRY_TYPE_DIR_DIGEST | LOG_ENTRY_TYPE_FILE | LOG_ENTRY_TYPE_FILE_CHUNK
  | LOG_ENTRY_TYPE_FILE_ATTR | LOG_ENTRY_TYPE_FILE_DIGEST | LOG_ENTRY_TYPE_FILE_SNAPSHOT
  | LOG_ENTRY_TYPE_DIR_SNAPSHOT | LOG_ENTRY_TYPE_FILE_CLONE | LOG_ENTRY_TYPE_DIR_CLONE
  | LOG_ENTRY_TYPE_OBJ_HANDLE | LOG_ENTRY_TYPE_DIR_PARTITION | TOTAL_LOG_ENTRY_TYPES

record LogFSMetaData =
  m_metaVersion :: u32
  m_checkSum :: u32
  m_fsId :: u64
  m_handle :: u64
  m_xid :: u64
  m_type :: meta_type_t
  m_protection :: meta_prot_t
  m_userId :: u32
  m_groupId :: u32
  m_devId :: u64
  m_rDev :: u64
  m_fileTotalSize :: u64
  m_evictionState :: EvictionState
  m_fileInitialSize :: u32
  m_fileChunkSize :: u32
  m_nLink :: u32
  m_atime :: u32
  m_atimeNsec :: u32
  m_mtime :: u32
  m_mtimeNsec :: u32
  m_ctime :: u32
  m_ctimeNsec :: u32
  m_parentHandle :: u64
  m_name :: string

definition NAME_MAX :: nat where
  "NAME_MAX = 255"

definition DEFAULT_FILE_INITIAL_SIZE :: u32 where
  "DEFAULT_FILE_INITIAL_SIZE = 0"

definition DEFAULT_FILE_CHUNK_SIZE :: u32 where
  "DEFAULT_FILE_CHUNK_SIZE = 8 * 1024"

text \<open>The member \<open>name\<close> is an array of exactly \<open>NAME_MAX\<close> bytes.\<close>

definition meta_wf :: "LogFSMetaData \<Rightarrow> bool" where
  "meta_wf m \<longleftrightarrow> length (m_name m) = NAME_MAX"

definition no_perm :: meta_perm where
  "no_perm = \<lparr>p_read = False, p_write = False, p_exec = False\<rparr>"

definition no_prot :: meta_prot_t where
  "no_prot = \<lparr>suid = False, sgid = False, sticky = False,
     owner = no_perm, group = no_perm, other = no_perm\<rparr>"

definition new_LogFSMetaData :: "u32 \<Rightarrow> u32 \<Rightarrow> LogFSMetaData" where
  "new_LogFSMetaData initialSize chunkSize =
     \<lparr>m_metaVersion = 0, m_checkSum = 0, m_fsId = 0, m_handle = 0, m_xid = 0,
      m_type = LOGFS_INVAL, m_protection = no_prot, m_userId = 0, m_groupId = 0,
      m_devId = 0, m_rDev = 0, m_fileTotalSize = 0, m_evictionState = ES_RESIDENT,
      m_fileInitialSize = initialSize, m_fileChunkSize = chunkSize, m_nLink = 0,
      m_atime = 0, m_atimeNsec = 0, m_mtime = 0, m_mtimeNsec = 0, m_ctime = 0, m_ctimeNsec = 0,
      m_parentHandle = 0, m_name = replicate NAME_MAX NUL\<rparr>"

section \<open>Path information\<close>

text \<open>
  \<^verbatim>\<open>strncpy(name, s, n)\<close> copies up to the first NUL and fills the rest of the \<open>n\<close> bytes with
  NUL; the last byte of the array is not written.
\<close>

definition c_str :: "string \<Rightarrow> string" where
  "c_str s = takeWhile (\<lambda>c. c \<noteq> NUL) s"

definition strncpy_into :: "nat \<Rightarrow> string \<Rightarrow> string \<Rightarrow> string" where
  "strncpy_into n src dst = str_resize n (c_str src) @ drop n dst"

definition addPathInfo :: "u64 \<Rightarrow> string \<Rightarrow> LogFSMetaData \<Rightarrow> LogFSMetaData outcome" where
  "addPathInfo parent_handle aname m =
     (if length aname \<ge> NAME_MAX then Abort
      else Val (m\<lparr>m_parentHandle := parent_handle,
                 m_name := strncpy_into (NAME_MAX - 1) aname (m_name m)\<rparr>))"

text \<open>\<^verbatim>\<open>assign(name)\<close> stops at the first NUL; without one it reads past the array.\<close>

definition getPathInfo :: "LogFSMetaData \<Rightarrow> (u64 \<times> string) outcome" where
  "getPathInfo m =
     (if NUL \<in> set (m_name m) then Val (m_parentHandle m, c_str (m_name m)) else Undef)"

definition set_xid :: "u64 \<Rightarrow> LogFSMetaData \<Rightarrow> LogFSMetaData" where
  "set_xid new_xid m = m\<lparr>m_xid := new_xid\<rparr>"

definition get_xid :: "LogFSMetaData \<Rightarrow> u64" where
  "get_xid m = m_xid m"

section \<open>Modes\<close>

definition S_IFMT :: u32 where "S_IFMT = 0xF000"
definition S_IFSOCK :: u32 where "S_IFSOCK = 0xC000"
definition S_IFLNK :: u32 where "S_IFLNK = 0xA000"
definition S_IFREG :: u32 where "S_IFREG = 0x8000"
definition S_IFBLK :: u32 where "S_IFBLK = 0x6000"
definition S_IFDIR :: u32 where "S_IFDIR = 0x4000"
definition S_IFCHR :: u32 where "S_IFCHR = 0x2000"
definition S_IFIFO :: u32 where "S_IFIFO = 0x1000"
definition S_ISUID :: u32 where "S_ISUID = 0x800"
definition S_ISGID :: u32 where "S_ISGID = 0x400"
definition S_ISVTX :: u32 where "S_ISVTX = 0x200"
definition S_IRUSR :: u32 where "S_IRUSR = 0x100"
definition S_IWUSR :: u32 where "S_IWUSR = 0x80"
definition S_IXUSR :: u32 where "S_IXUSR = 0x40"
definition S_IRGRP :: u32 where "S_IRGRP = 0x20"
definition S_IWGRP :: u32 where "S_IWGRP = 0x10"
definition S_IXGRP :: u32 where "S_IXGRP = 0x8"
definition S_IROTH :: u32 where "S_IROTH = 0x4"
definition S_IWOTH :: u32 where "S_IWOTH = 0x2"
definition S_IXOTH :: u32 where "S_IXOTH = 0x1"

lemmas ifmt_defs =
  S_IFMT_def S_IFSOCK_def S_IFLNK_def S_IFREG_def S_IFBLK_def S_IFDIR_def S_IFCHR_def S_IFIFO_def

lemmas perm_defs =
  S_ISUID_def S_ISGID_def S_ISVTX_def S_IRUSR_def S_IWUSR_def S_IXUSR_def
  S_IRGRP_def S_IWGRP_def S_IXGRP_def S_IROTH_def S_IWOTH_def S_IXOTH_def

definition S_ISREG :: "u32 \<Rightarrow> bool" where
  "S_ISREG mode \<longleftrightarrow> mode AND S_IFMT = S_IFREG"

definition S_ISDIR :: "u32 \<Rightarrow> bool" where
  "S_ISDIR mode \<longleftrightarrow> mode AND S_IFMT = S_IFDIR"

text \<open>The seven tests in the order of the code: each one that holds assigns the member.\<close>

definition typeFromMode :: "u32 \<Rightarrow> meta_type_t \<Rightarrow> meta_type_t" where
  "typeFromMode mode t =
     (let fmt = mode AND S_IFMT;
          t = (if S_ISREG mode then LOGFS_IFREG else t);
          t = (if S_ISDIR mode then LOGFS_IFDIR else t);
          t = (if fmt = S_IFLNK then LOGFS_IFLNK else t);
          t = (if fmt = S_IFBLK then LOGFS_IFBLK else t);
          t = (if fmt = S_IFCHR then LOGFS_IFCHR else t);
          t = (if fmt = S_IFIFO then LOGFS_IFIFO else t);
          t = (if fmt = S_IFSOCK then LOGFS_IFSOCK else t)
      in t)"

definition SetProtectionFromMode :: "u32 \<Rightarrow> meta_prot_t" where
  "SetProtectionFromMode mode =
     \<lparr>suid = (mode AND S_ISUID \<noteq> 0), sgid = (mode AND S_ISGID \<noteq> 0),
      sticky = (mode AND S_ISVTX \<noteq> 0),
      owner = \<lparr>p_read = (mode AND S_IRUSR \<noteq> 0), p_write = (mode AND S_IWUSR \<noteq> 0),
               p_exec = (mode AND S_IXUSR \<noteq> 0)\<rparr>,
      group = \<lparr>p_read = (mode AND S_IRGRP \<noteq> 0), p_write = (mode AND S_IWGRP \<noteq> 0),
               p_exec = (mode AND S_IXGRP \<noteq> 0)\<rparr>,
      other = \<lparr>p_read = (mode AND S_IROTH \<noteq> 0), p_write = (mode AND S_IWOTH \<noteq> 0),
               p_exec = (mode AND S_IXOTH \<noteq> 0)\<rparr>\<rparr>"

primrec type_bits :: "meta_type_t \<Rightarrow> u32" where
  "type_bits LOGFS_IFREG = S_IFREG"
| "type_bits LOGFS_IFDIR = S_IFDIR"
| "type_bits LOGFS_IFLNK = S_IFLNK"
| "type_bits LOGFS_IFBLK = S_IFBLK"
| "type_bits LOGFS_IFCHR = S_IFCHR"
| "type_bits LOGFS_IFIFO = S_IFIFO"
| "type_bits LOGFS_IFSOCK = S_IFSOCK"
| "type_bits LOGFS_INVAL = 0"

definition flag :: "bool \<Rightarrow> u32 \<Rightarrow> u32" where
  "flag b bits = (if b then bits else 0)"

definition prot_bits :: "meta_prot_t \<Rightarrow> u32" where
  "prot_bits p =
     flag (suid p) S_ISUID OR flag (sgid p) S_ISGID OR flag (sticky p) S_ISVTX
     OR flag (p_read (owner p)) S_IRUSR OR flag (p_write (owner p)) S_IWUSR
     OR flag (p_exec (owner p)) S_IXUSR
     OR flag (p_read (group p)) S_IRGRP OR flag (p_write (group p)) S_IWGRP
     OR flag (p_exec (group p)) S_IXGRP
     OR flag (p_read (other p)) S_IROTH OR flag (p_write (other p)) S_IWOTH
     OR flag (p_exec (other p)) S_IXOTH"

definition ModeFromMeta :: "meta_type_t \<Rightarrow> meta_prot_t \<Rightarrow> u32" where
  "ModeFromMeta type protection = type_bits type OR prot_bits protection"

section \<open>The object representation\<close>

text \<open>
  The code stores the structure by a cast of its address to bytes, and reads it by the cast of a value
  to a structure; no function encodes members. \<open>meta_encode\<close> and \<open>meta_decode\<close> are these two casts: the
  bytes of the members in their order, with the sizes and the padding of the x86-64 ABI.
\<close>

primrec type_code :: "meta_type_t \<Rightarrow> nat" where
  "type_code LOGFS_INVAL = 0"
| "type_code LOGFS_IFREG = 1"
| "type_code LOGFS_IFDIR = 2"
| "type_code LOGFS_IFLNK = 3"
| "type_code LOGFS_IFBLK = 4"
| "type_code LOGFS_IFCHR = 5"
| "type_code LOGFS_IFIFO = 6"
| "type_code LOGFS_IFSOCK = 7"

definition type_values :: "meta_type_t list" where
  "type_values = [LOGFS_INVAL, LOGFS_IFREG, LOGFS_IFDIR, LOGFS_IFLNK, LOGFS_IFBLK, LOGFS_IFCHR,
     LOGFS_IFIFO, LOGFS_IFSOCK]"

primrec evict_code :: "EvictionState \<Rightarrow> nat" where
  "evict_code ES_RESIDENT = 0"
| "evict_code ES_DATA_EVICTED = 1"
| "evict_code ES_EVICTED = 2"

definition evict_values :: "EvictionState list" where
  "evict_values = [ES_RESIDENT, ES_DATA_EVICTED, ES_EVICTED]"

text \<open>Three one-bit fields share a byte, the first in bit 0.\<close>

definition bits3 :: "bool \<Rightarrow> bool \<Rightarrow> bool \<Rightarrow> char" where
  "bits3 a b c = char_of (of_bool a + 2 * of_bool b + 4 * of_bool c :: nat)"

definition perm_encode :: "meta_perm \<Rightarrow> char" where
  "perm_encode p = bits3 (p_read p) (p_write p) (p_exec p)"

definition nth_bit :: "char \<Rightarrow> nat \<Rightarrow> bool" where
  "nth_bit c n = odd ((of_char c :: nat) div 2 ^ n)"

definition perm_decode :: "char \<Rightarrow> meta_perm" where
  "perm_decode c = \<lparr>p_read = nth_bit c 0, p_write = nth_bit c 1, p_exec = nth_bit c 2\<rparr>"

definition e32 :: "u32 \<Rightarrow> string" where
  "e32 w = le_enc 4 (unat w)"

definition e64 :: "u64 \<Rightarrow> string" where
  "e64 w = le_enc 8 (unat w)"

definition d32 :: "nat \<Rightarrow> string \<Rightarrow> u32" where
  "d32 off s = word_of_nat (le_dec (take 4 (drop off s)))"

definition d64 :: "nat \<Rightarrow> string \<Rightarrow> u64" where
  "d64 off s = word_of_nat (le_dec (take 8 (drop off s)))"

definition sizeof_LogFSMetaData :: nat where
  "sizeof_LogFSMetaData = 376"

definition meta_encode :: "LogFSMetaData \<Rightarrow> string" where
  "meta_encode m =
     e32 (m_metaVersion m) @ e32 (m_checkSum m) @ e64 (m_fsId m) @ e64 (m_handle m) @
     e64 (m_xid m) @ e32 (word_of_nat (type_code (m_type m))) @
     [bits3 (suid (m_protection m)) (sgid (m_protection m)) (sticky (m_protection m)),
      perm_encode (owner (m_protection m)), perm_encode (group (m_protection m)),
      perm_encode (other (m_protection m))] @
     e32 (m_userId m) @ e32 (m_groupId m) @ e64 (m_devId m) @ e64 (m_rDev m) @
     e64 (m_fileTotalSize m) @ e32 (word_of_nat (evict_code (m_evictionState m))) @
     e32 (m_fileInitialSize m) @ e32 (m_fileChunkSize m) @ e32 (m_nLink m) @
     e32 (m_atime m) @ e32 (m_atimeNsec m) @ e32 (m_mtime m) @ e32 (m_mtimeNsec m) @
     e32 (m_ctime m) @ e32 (m_ctimeNsec m) @ e64 (m_parentHandle m) @ m_name m @ [NUL]"

text \<open>
  Reading a buffer as a \<^verbatim>\<open>LogFSMetaData\<close>: \<open>None\<close> when the buffer is shorter than the
  structure or an enumeration member holds no enumerator, where C++ gives no value.
\<close>

definition meta_decode :: "string \<Rightarrow> LogFSMetaData option" where
  "meta_decode s =
     (if length s < sizeof_LogFSMetaData \<or> unat (d32 32 s) \<ge> length type_values
         \<or> unat (d32 72 s) \<ge> length evict_values
      then None
      else Some
        \<lparr>m_metaVersion = d32 0 s, m_checkSum = d32 4 s, m_fsId = d64 8 s, m_handle = d64 16 s,
         m_xid = d64 24 s, m_type = type_values ! unat (d32 32 s),
         m_protection =
           \<lparr>suid = nth_bit (s ! 36) 0, sgid = nth_bit (s ! 36) 1, sticky = nth_bit (s ! 36) 2,
            owner = perm_decode (s ! 37), group = perm_decode (s ! 38),
            other = perm_decode (s ! 39)\<rparr>,
         m_userId = d32 40 s, m_groupId = d32 44 s, m_devId = d64 48 s, m_rDev = d64 56 s,
         m_fileTotalSize = d64 64 s, m_evictionState = evict_values ! unat (d32 72 s),
         m_fileInitialSize = d32 76 s, m_fileChunkSize = d32 80 s, m_nLink = d32 84 s,
         m_atime = d32 88 s, m_atimeNsec = d32 92 s, m_mtime = d32 96 s, m_mtimeNsec = d32 100 s,
         m_ctime = d32 104 s, m_ctimeNsec = d32 108 s, m_parentHandle = d64 112 s,
         m_name = take NAME_MAX (drop 120 s)\<rparr>)"

section \<open>Lemmas\<close>

lemma meta_wf_new [simp]: "meta_wf (new_LogFSMetaData i c)"
  by (simp add: meta_wf_def new_LogFSMetaData_def)

lemma length_e [simp]: "length (e32 v) = 4" "length (e64 w) = 8"
  by (simp_all add: e32_def e64_def)

lemma d_head [codec_simps]: "d32 0 (e32 v @ s) = v" "d64 0 (e64 w @ s) = w"
  by (simp_all add: d32_def d64_def e32_def e64_def le_dec_enc_32 le_dec_enc_64)

lemma d32_skip [codec_simps]:
  "4 \<le> off \<Longrightarrow> d32 off (e32 v @ s) = d32 (off - 4) s"
  "8 \<le> off \<Longrightarrow> d32 off (e64 w @ s) = d32 (off - 8) s"
  "1 \<le> off \<Longrightarrow> d32 off (c # s) = d32 (off - 1) s"
  by (simp_all add: d32_def drop_Cons')

lemma d64_skip [codec_simps]:
  "4 \<le> off \<Longrightarrow> d64 off (e32 v @ s) = d64 (off - 4) s"
  "8 \<le> off \<Longrightarrow> d64 off (e64 w @ s) = d64 (off - 8) s"
  "1 \<le> off \<Longrightarrow> d64 off (c # s) = d64 (off - 1) s"
  by (simp_all add: d64_def drop_Cons')

lemma nth_bit_bits3 [codec_simps]:
  "nth_bit (bits3 a b c) 0 = a" "nth_bit (bits3 a b c) (Suc 0) = b" "nth_bit (bits3 a b c) 2 = c"
  by (cases a; cases b; cases c; simp add: nth_bit_def bits3_def)+

lemma perm_decode_encode [codec_simps]: "perm_decode (perm_encode p) = p"
  by (cases p) (simp add: perm_decode_def perm_encode_def nth_bit_bits3)

lemma type_values_code [codec_simps]:
  "unat (word_of_nat (type_code t) :: u32) = type_code t" "type_values ! type_code t = t"
  "type_code t < length type_values"
  by (cases t; simp add: type_values_def)+

lemma evict_values_code [codec_simps]:
  "unat (word_of_nat (evict_code e) :: u32) = evict_code e" "evict_values ! evict_code e = e"
  "evict_code e < length evict_values"
  by (cases e; simp add: evict_values_def)+

lemma length_meta_encode: "meta_wf m \<Longrightarrow> length (meta_encode m) = sizeof_LogFSMetaData"
  by (simp add: meta_encode_def meta_wf_def NAME_MAX_def sizeof_LogFSMetaData_def)

lemma meta_encode_prot:
  "meta_encode m ! 36 = bits3 (suid (m_protection m)) (sgid (m_protection m)) (sticky (m_protection m))"
  "meta_encode m ! 37 = perm_encode (owner (m_protection m))"
  "meta_encode m ! 38 = perm_encode (group (m_protection m))"
  "meta_encode m ! 39 = perm_encode (other (m_protection m))"
  by (simp_all add: meta_encode_def nth_append)

lemma meta_encode_name: "meta_wf m \<Longrightarrow> take NAME_MAX (drop 120 (meta_encode m)) = m_name m"
  by (simp add: meta_encode_def meta_wf_def)

lemma meta_encode_d64:
  "d64 8 (meta_encode m) = m_fsId m" "d64 16 (meta_encode m) = m_handle m"
  "d64 24 (meta_encode m) = m_xid m" "d64 48 (meta_encode m) = m_devId m"
  "d64 56 (meta_encode m) = m_rDev m" "d64 64 (meta_encode m) = m_fileTotalSize m"
  "d64 112 (meta_encode m) = m_parentHandle m"
  by (simp_all add: meta_encode_def codec_simps)

lemma meta_encode_d32:
  "d32 0 (meta_encode m) = m_metaVersion m" "d32 4 (meta_encode m) = m_checkSum m"
  "d32 32 (meta_encode m) = word_of_nat (type_code (m_type m))"
  "d32 40 (meta_encode m) = m_userId m" "d32 44 (meta_encode m) = m_groupId m"
  "d32 72 (meta_encode m) = word_of_nat (evict_code (m_evictionState m))"
  "d32 76 (meta_encode m) = m_fileInitialSize m" "d32 80 (meta_encode m) = m_fileChunkSize m"
  "d32 84 (meta_encode m) = m_nLink m"
  "d32 88 (meta_encode m) = m_atime m" "d32 92 (meta_encode m) = m_atimeNsec m"
  "d32 96 (meta_encode m) = m_mtime m" "d32 100 (meta_encode m) = m_mtimeNsec m"
  "d32 104 (meta_encode m) = m_ctime m" "d32 108 (meta_encode m) = m_ctimeNsec m"
  by (simp_all add: meta_encode_def codec_simps)

lemma meta_decode_encode [codec_simps]:
  assumes "meta_wf m"
  shows "meta_decode (meta_encode m) = Some m"
  using assms type_values_code [of "m_type m"] evict_values_code [of "m_evictionState m"]
  by (simp add: meta_decode_def length_meta_encode meta_encode_d64 meta_encode_d32
      meta_encode_prot meta_encode_name nth_bit_bits3 perm_decode_encode)

lemma meta_decode_wf: "meta_decode s = Some m \<Longrightarrow> meta_wf m"
  by (auto simp: meta_decode_def meta_wf_def NAME_MAX_def sizeof_LogFSMetaData_def split: if_splits)

lemma and_flag_bit: "mode AND 2 ^ k \<noteq> 0 \<longleftrightarrow> bit mode k" for mode :: u32
  by (metis and_exp_eq_0_iff_not_bit)

lemma bit_flag_exp: "k < 32 \<Longrightarrow> bit (flag b (2 ^ k)) n \<longleftrightarrow> b \<and> n = k"
  by (auto simp: flag_def bit_exp_iff)

lemma perm_pow:
  "S_ISUID = 2 ^ 11" "S_ISGID = 2 ^ 10" "S_ISVTX = 2 ^ 9" "S_IRUSR = 2 ^ 8" "S_IWUSR = 2 ^ 7"
  "S_IXUSR = 2 ^ 6" "S_IRGRP = 2 ^ 5" "S_IWGRP = 2 ^ 4" "S_IXGRP = 2 ^ 3" "S_IROTH = 2 ^ 2"
  "S_IWOTH = 2 ^ 1" "S_IXOTH = 2 ^ 0"
  by (simp_all add: perm_defs)

lemma flag_tests:
  "mode AND S_ISUID \<noteq> 0 \<longleftrightarrow> bit mode 11" "mode AND S_ISGID \<noteq> 0 \<longleftrightarrow> bit mode 10"
  "mode AND S_ISVTX \<noteq> 0 \<longleftrightarrow> bit mode 9" "mode AND S_IRUSR \<noteq> 0 \<longleftrightarrow> bit mode 8"
  "mode AND S_IWUSR \<noteq> 0 \<longleftrightarrow> bit mode 7" "mode AND S_IXUSR \<noteq> 0 \<longleftrightarrow> bit mode 6"
  "mode AND S_IRGRP \<noteq> 0 \<longleftrightarrow> bit mode 5" "mode AND S_IWGRP \<noteq> 0 \<longleftrightarrow> bit mode 4"
  "mode AND S_IXGRP \<noteq> 0 \<longleftrightarrow> bit mode 3" "mode AND S_IROTH \<noteq> 0 \<longleftrightarrow> bit mode 2"
  "mode AND S_IWOTH \<noteq> 0 \<longleftrightarrow> bit mode 1" "mode AND S_IXOTH \<noteq> 0 \<longleftrightarrow> bit mode 0"
  unfolding perm_pow by (rule and_flag_bit)+

text \<open>Each protection flag is one bit of the mode, so a bit of the mode is one flag.\<close>

lemma bit_flag:
  "bit (flag b S_ISUID) n \<longleftrightarrow> b \<and> n = 11" "bit (flag b S_ISGID) n \<longleftrightarrow> b \<and> n = 10"
  "bit (flag b S_ISVTX) n \<longleftrightarrow> b \<and> n = 9" "bit (flag b S_IRUSR) n \<longleftrightarrow> b \<and> n = 8"
  "bit (flag b S_IWUSR) n \<longleftrightarrow> b \<and> n = 7" "bit (flag b S_IXUSR) n \<longleftrightarrow> b \<and> n = 6"
  "bit (flag b S_IRGRP) n \<longleftrightarrow> b \<and> n = 5" "bit (flag b S_IWGRP) n \<longleftrightarrow> b \<and> n = 4"
  "bit (flag b S_IXGRP) n \<longleftrightarrow> b \<and> n = 3" "bit (flag b S_IROTH) n \<longleftrightarrow> b \<and> n = 2"
  "bit (flag b S_IWOTH) n \<longleftrightarrow> b \<and> n = 1" "bit (flag b S_IXOTH) n \<longleftrightarrow> b \<and> n = 0"
  unfolding perm_pow by (rule bit_flag_exp; simp)+

lemma type_bits_low: "n < 12 \<Longrightarrow> \<not> bit (type_bits t) n"
proof -
  assume "n < 12"
  then have "bit (0xFFF :: u32) n"
    using bit_mask_iff [where 'a = u32, of 12 n] by (simp add: mask_eq_exp_minus_1)
  moreover have "type_bits t AND 0xFFF = 0" by (cases t) (simp_all add: ifmt_defs)
  ultimately show ?thesis by (metis bit_and_iff bit_0_eq bot_apply bot_bool_def)
qed

lemma SetProtection_ModeFromMeta [codec_simps]:
  "SetProtectionFromMode (ModeFromMeta t p) = p"
  by (simp add: SetProtectionFromMode_def ModeFromMeta_def prot_bits_def flag_tests
      bit_or_iff bit_flag type_bits_low)

lemma below_12: "n < 12 \<longleftrightarrow> n \<in> {0,1,2,3,4,5,6,7,8,9,10,11}" for n :: nat
  by (simp add: numeral_eq_Suc less_Suc_eq)

lemma bit_prot_bits:
  "bit (prot_bits (SetProtectionFromMode mode)) n \<longleftrightarrow> n < 12 \<and> bit mode n"
proof (cases "n < 12")
  case True
  then show ?thesis
    unfolding below_12
    by (elim insertE emptyE)
      (simp_all add: prot_bits_def SetProtectionFromMode_def flag_tests bit_or_iff bit_flag)
next
  case False
  then have "n \<noteq> 0" "n \<noteq> 1" "n \<noteq> 2" "n \<noteq> 3" "n \<noteq> 4" "n \<noteq> 5" "n \<noteq> 6" "n \<noteq> 7" "n \<noteq> 8" "n \<noteq> 9"
    "n \<noteq> 10" "n \<noteq> 11" by auto
  with False show ?thesis by (simp add: prot_bits_def bit_or_iff bit_flag)
qed

lemma prot_bits_SetProtection: "prot_bits (SetProtectionFromMode mode) = mode AND 0xFFF"
proof (rule bit_eqI)
  fix n
  have "bit (0xFFF :: u32) n \<longleftrightarrow> n < 12"
    using bit_mask_iff [where 'a = u32, of 12 n] by (auto simp: mask_eq_exp_minus_1)
  then show "bit (prot_bits (SetProtectionFromMode mode)) n = bit (mode AND 0xFFF) n"
    by (auto simp: bit_prot_bits bit_and_iff)
qed

text \<open>The seven file types of a mode.\<close>

definition file_types :: "u32 list" where
  "file_types = [S_IFREG, S_IFDIR, S_IFLNK, S_IFBLK, S_IFCHR, S_IFIFO, S_IFSOCK]"

lemma type_bits_typeFromMode:
  "mode AND S_IFMT \<in> set file_types \<Longrightarrow> type_bits (typeFromMode mode t) = mode AND S_IFMT"
  by (auto simp: file_types_def typeFromMode_def S_ISREG_def S_ISDIR_def ifmt_defs Let_def)

text \<open>
  A mode of one of the seven file types, taken apart into the stored type and protection
  when a file is created and put together again by \<^verbatim>\<open>stat\<close>, is the low sixteen bits of the
  mode it was created with: no permission or type bit is lost or invented.
\<close>

theorem mode_roundtrip:
  assumes "mode AND S_IFMT \<in> set file_types"
  shows "ModeFromMeta (typeFromMode mode t) (SetProtectionFromMode mode) = mode AND 0xFFFF"
proof -
  have "mode AND S_IFMT OR mode AND 0xFFF = mode AND (S_IFMT OR 0xFFF)"
    by (simp only: bit.conj_disj_distrib)
  also have "S_IFMT OR 0xFFF = 0xFFFF" by (simp add: S_IFMT_def)
  finally show ?thesis
    using assms by (simp add: ModeFromMeta_def type_bits_typeFromMode prot_bits_SetProtection)
qed

theorem mode_roundtrip_witness:
  "(0x41ED :: u32) AND S_IFMT \<in> set file_types \<and>
   ModeFromMeta (typeFromMode 0x41ED LOGFS_INVAL) (SetProtectionFromMode 0x41ED) = 0x41ED"
proof
  show h: "(0x41ED :: u32) AND S_IFMT \<in> set file_types" by (simp add: file_types_def ifmt_defs)
  show "ModeFromMeta (typeFromMode 0x41ED LOGFS_INVAL) (SetProtectionFromMode 0x41ED) = 0x41ED"
    using mode_roundtrip [OF h, of LOGFS_INVAL] by simp
qed

lemma c_str_no_NUL [simp]: "NUL \<notin> set (c_str s)"
  by (auto simp: c_str_def dest: set_takeWhileD)

lemma c_str_id: "NUL \<notin> set s \<Longrightarrow> c_str s = s"
  by (auto simp: c_str_def takeWhile_eq_all_conv)

lemma length_c_str: "length (c_str s) \<le> length s"
  by (simp add: c_str_def length_takeWhile_le)

lemma c_str_append_NUL: "NUL \<notin> set s \<Longrightarrow> c_str (s @ NUL # t) = s"
  by (auto simp: c_str_def takeWhile_append)

lemma c_str_resize:
  assumes "NUL \<notin> set s" "length s < n"
  shows "c_str (str_resize n s @ t) = s"
proof -
  have "n - length s = Suc (n - length s - 1)" using assms by simp
  then have "str_resize n s @ t = s @ NUL # (replicate (n - length s - 1) NUL @ t)"
    using assms by (simp add: str_resize_def)
  with assms show ?thesis by (metis c_str_append_NUL)
qed

lemma addPathInfo_wf: "addPathInfo h n m = Val m' \<Longrightarrow> meta_wf m \<Longrightarrow> meta_wf m'"
  by (auto simp: addPathInfo_def meta_wf_def strncpy_into_def NAME_MAX_def split: if_splits)

text \<open>
  The name and parent recorded in an inode are the ones read back from it: for a name
  shorter than 254 bytes \<^verbatim>\<open>getPathInfo\<close> after \<^verbatim>\<open>addPathInfo\<close> returns the parent handle and
  the name up to its first NUL, and a name of \<open>NAME_MAX\<close> bytes or more ends the process.
\<close>

theorem pathinfo_roundtrip:
  "(length aname < NAME_MAX - 1 \<longrightarrow>
     obind (addPathInfo h aname m) getPathInfo = Val (h, c_str aname)) \<and>
   (NAME_MAX \<le> length aname \<longrightarrow> addPathInfo h aname m = Abort)"
proof -
  have "c_str (strncpy_into (NAME_MAX - 1) aname (m_name m)) = c_str aname"
    and "NUL \<in> set (strncpy_into (NAME_MAX - 1) aname (m_name m))"
    if "length aname < NAME_MAX - 1"
    using that length_c_str [of aname] c_str_resize [of "c_str aname" "NAME_MAX - 1"]
    by (simp_all add: strncpy_into_def) (simp add: str_resize_def)
  then show ?thesis by (auto simp: addPathInfo_def getPathInfo_def)
qed

theorem pathinfo_roundtrip_witness:
  "obind (addPathInfo 7 ''notes.txt'' (new_LogFSMetaData 0 8192)) getPathInfo
     = Val (7, ''notes.txt'')"
  using pathinfo_roundtrip [of "''notes.txt''" 7 "new_LogFSMetaData 0 8192"]
  by (simp add: NAME_MAX_def c_str_def)

end
