(* ===== verification/DirPartition.thy ===== *)
theory DirPartition
  imports StdMap Status KVStore MetaData "HOL-Library.Multiset"
begin

text \<open>
  A directory partition (\<^verbatim>\<open>src/src/KVFSDirectoryPartition.{h,cc}\<close>): the part of a directory's
  names that hash to one partition number. It is read from the store on first use, kept in
  memory as a vector in insertion order and a map ordered by name, and written back, in the
  order of the map, after every change.

  Every call passes the partition and the store along. A stored partition is below 4 GiB, so
  that the \<^verbatim>\<open>uint32_t\<close> counters of \<^verbatim>\<open>Deserialize\<close> do not wrap.
\<close>

section \<open>Data\<close>

datatype dp_state_t = INVALID | CLEAN | DIRTY

record LogFSDirectoryPartition =
  dp_partitionNumber :: u16
  dp_fsId :: u64
  dp_dir_ino :: u64
  dp_entries :: "(string \<times> u64) list"
  dp_by_name :: "(string, u64) smap"
  dp_state :: dp_state_t

definition new_LogFSDirectoryPartition :: "u16 \<Rightarrow> u64 \<Rightarrow> u64 \<Rightarrow> LogFSDirectoryPartition" where
  "new_LogFSDirectoryPartition partitionNumber fsId dir_ino =
     \<lparr>dp_partitionNumber = partitionNumber, dp_fsId = fsId, dp_dir_ino = dir_ino,
      dp_entries = [], dp_by_name = [], dp_state = INVALID\<rparr>"

section \<open>The stored form\<close>

definition null_termination :: char where
  "null_termination = CHR ''|''"

definition entry_encode :: "string \<times> u64 \<Rightarrow> string" where
  "entry_encode e = e64 (snd e) @ fst e @ [null_termination]"

definition Serialize :: "LogFSDirectoryPartition \<Rightarrow> string" where
  "Serialize this =
     e64 (dp_fsId this) @ e64 (dp_dir_ino this) @ le_enc 2 (unat (dp_partitionNumber this)) @
     concat (map entry_encode (dp_by_name this))"

text \<open>
  \<^verbatim>\<open>strchr(name, '|')\<close> in a buffer that a NUL terminates: the search also stops at a NUL
  inside the buffer, and then the code subtracts from a null pointer.
\<close>

definition strchr_end :: "string \<Rightarrow> nat option" where
  "strchr_end s =
     (let n = length (takeWhile (\<lambda>c. c \<noteq> null_termination \<and> c \<noteq> NUL) s)
      in if n < length s \<and> s ! n = null_termination then Some n else None)"

lemma strchr_end_bound: "strchr_end s = Some n \<Longrightarrow> n < length s"
  by (auto simp: strchr_end_def Let_def split: if_splits)

function parse_entries :: "string \<Rightarrow> ((string \<times> u64) list) outcome" where
  "parse_entries buff =
     (if buff = [] then Val []
      else if length buff < 8 then Undef
      else case strchr_end (drop 8 buff) of
             None \<Rightarrow> Undef
           | Some nameLen \<Rightarrow>
               obind (parse_entries (drop (8 + nameLen + 1) buff))
                 (\<lambda>es. Val ((take nameLen (drop 8 buff), d64 0 buff) # es)))"
  by pat_completeness auto
termination
  by (relation "measure length") (auto dest: strchr_end_bound)

declare parse_entries.simps [simp del]

text \<open>
  The members \<open>fsId\<close> and \<open>partitionNumber\<close> are overwritten with the stored values before they
  are compared, so the comparison cannot fail; a stored directory number that differs from
  this directory ends the process.
\<close>

definition Deserialize ::
  "string \<Rightarrow> LogFSDirectoryPartition \<Rightarrow> (bool \<times> LogFSDirectoryPartition) outcome" where
  "Deserialize outBuffer this =
     (if length outBuffer < 18 then Val (False, this)
      else let ino = d64 8 outBuffer;
               this = this\<lparr>dp_fsId := d64 0 outBuffer\<rparr>
           in expect (dp_dir_ino this = ino)
                (let this = this\<lparr>dp_partitionNumber :=
                              word_of_nat (le_dec (take 2 (drop 16 outBuffer)))\<rparr>
                 in obind (parse_entries (drop 18 outBuffer))
                      (\<lambda>es. Val (True, this\<lparr>dp_entries := dp_entries this @ es,
                         dp_by_name := fold (\<lambda>(n, i). smap_insert n i) es [],
                         dp_state := CLEAN\<rparr>))))"

definition dp_key :: "LogFSDirectoryPartition \<Rightarrow> string" where
  "dp_key this = partition_key (dp_dir_ino this) (dp_partitionNumber this)"

definition dp_readFromLog :: "LogFSDirectoryPartition \<Rightarrow> kvs \<Rightarrow> Status \<times> string" where
  "dp_readFromLog this kv =
     (case kv_get (dp_key this) kv of
        Some outBuffer \<Rightarrow> (STATUS_OK, outBuffer)
      | None \<Rightarrow> (STATUS_OBJECT_DOESNT_EXIST, []))"

definition dp_writeToLog ::
  "LogFSDirectoryPartition \<Rightarrow> kvs \<Rightarrow> Status \<times> LogFSDirectoryPartition \<times> kvs" where
  "dp_writeToLog this kv =
     (if dp_state this \<noteq> DIRTY then (STATUS_INTERNAL_ERROR, this, kv)
      else case kv_put (dp_key this) (Serialize this) kv of
             (True, kv') \<Rightarrow> (STATUS_OK, this\<lparr>dp_state := CLEAN\<rparr>, kv')
           | (False, kv') \<Rightarrow> (STATUS_INTERNAL_ERROR, this, kv'))"

definition dp_Refresh ::
  "LogFSDirectoryPartition \<Rightarrow> kvs \<Rightarrow> (int \<times> LogFSDirectoryPartition) outcome" where
  "dp_Refresh this kv =
     (if dp_state this = INVALID
      then case dp_readFromLog this kv of
             (STATUS_OK, buf) \<Rightarrow>
               obind (Deserialize buf this) (\<lambda>(ok, this).
                 if \<not> ok then Val (EIO, this) else Val (0, this\<lparr>dp_state := CLEAN\<rparr>))
           | _ \<Rightarrow> Val (0, this\<lparr>dp_by_name := [], dp_state := CLEAN\<rparr>)
      else Val (0, this))"

section \<open>Operations\<close>

definition dp_insertEntry ::
  "u64 \<Rightarrow> string \<Rightarrow> LogFSDirectoryPartition \<times> kvs \<Rightarrow>
   (int \<times> LogFSDirectoryPartition \<times> kvs) outcome" where
  "dp_insertEntry ino name = (\<lambda>(this, kv).
     obind (dp_Refresh this kv) (\<lambda>(err, this).
       expect (err = 0)
         (expect (dp_state this = DIRTY \<or> dp_state this = CLEAN)
           (if smap_find (dp_by_name this) name \<noteq> None then Val (EEXIST, this, kv)
            else let this = this\<lparr>dp_entries := dp_entries this @ [(name, ino)],
                              dp_by_name := smap_insert name ino (dp_by_name this),
                              dp_state := DIRTY\<rparr>;
                     (_, this, kv) = dp_writeToLog this kv
                 in Val (0, this, kv)))))"

definition dp_removeEntry ::
  "u64 \<Rightarrow> string \<Rightarrow> LogFSDirectoryPartition \<times> kvs \<Rightarrow>
   (int \<times> LogFSDirectoryPartition \<times> kvs) outcome" where
  "dp_removeEntry handle name = (\<lambda>(this, kv).
     obind (dp_Refresh this kv) (\<lambda>(err, this).
       if err \<noteq> 0 then Val (err, this, kv)
       else if smap_find (dp_by_name this) name = None then Val (ENOENT, this, kv)
       else let this = this\<lparr>dp_by_name := smap_erase name (dp_by_name this), dp_state := DIRTY\<rparr>;
                (_, this, kv) = dp_writeToLog this kv
            in Val (0, this, kv)))"

definition dp_findEntry ::
  "string \<Rightarrow> LogFSDirectoryPartition \<times> kvs \<Rightarrow>
   (u64 \<times> LogFSDirectoryPartition \<times> kvs) outcome" where
  "dp_findEntry name = (\<lambda>(this, kv).
     obind (dp_Refresh this kv) (\<lambda>(err, this).
       expect (err = 0)
         (case smap_find (dp_by_name this) name of
            None \<Rightarrow> Val (0, this, kv)
          | Some ino \<Rightarrow> Val (ino, this, kv))))"

definition isPartitionEmpty ::
  "LogFSDirectoryPartition \<times> kvs \<Rightarrow> (bool \<times> LogFSDirectoryPartition \<times> kvs) outcome" where
  "isPartitionEmpty = (\<lambda>(this, kv).
     obind (dp_Refresh this kv) (\<lambda>(err, this).
       expect (err = 0)
         (if length (dp_by_name this) > 2 then Val (False, this, kv)
          else if \<exists>e\<in>set (dp_by_name this). fst e \<noteq> ''.'' \<and> fst e \<noteq> ''..'' then Val (False, this, kv)
          else Val (True, this, kv))))"

text \<open>
  \<^verbatim>\<open>listEntries\<close> hands the entries from an index on to a \<^verbatim>\<open>DirEntryAdder\<close>, skipping those that
  were removed. The adder is an argument: it works on a state of its own and answers
  whether there was room.
\<close>

type_synonym 'a adder = "string \<Rightarrow> u64 \<Rightarrow> int \<Rightarrow> 'a \<Rightarrow> (bool \<times> 'a) outcome"

definition entry_live :: "(string, u64) smap \<Rightarrow> string \<times> u64 \<Rightarrow> bool" where
  "entry_live by_name e \<longleftrightarrow> smap_find by_name (fst e) = Some (snd e)"

primrec list_loop ::
  "'a adder \<Rightarrow> (string, u64) smap \<Rightarrow> (string \<times> u64) list \<Rightarrow> int \<Rightarrow> 'a \<Rightarrow> 'a outcome" where
  "list_loop add by_name [] next_offset st = Val st"
| "list_loop add by_name (e # es) next_offset st =
     (if \<not> entry_live by_name e then list_loop add by_name es (next_offset + 1) st
      else obind (add (c_str (fst e)) (snd e) next_offset st) (\<lambda>(added, st).
             if \<not> added then Val st else list_loop add by_name es (next_offset + 1) st))"

definition listEntries ::
  "'a adder \<Rightarrow> int \<Rightarrow> int \<Rightarrow> LogFSDirectoryPartition \<Rightarrow> kvs \<Rightarrow> 'a \<Rightarrow>
   (int \<times> LogFSDirectoryPartition \<times> 'a) outcome" where
  "listEntries add cur_offset part_base_offset this kv st =
     obind (dp_Refresh this kv) (\<lambda>(err, this).
       if err \<noteq> 0 then Val (err, this, st)
       else expect (cur_offset \<ge> part_base_offset)
         (let i = nat (cur_offset - part_base_offset)
          in obind (list_loop add (dp_by_name this) (drop i (dp_entries this))
                     (part_base_offset + int i + 1) st)
               (\<lambda>st. Val (0, this, st))))"

section \<open>The stored form read back\<close>

text \<open>A name that the stored form can hold: without the separator and without a NUL.\<close>

definition name_ok :: "string \<Rightarrow> bool" where
  "name_ok n \<longleftrightarrow> NUL \<notin> set n \<and> null_termination \<notin> set n"

lemma strchr_end_name: "name_ok n \<Longrightarrow> strchr_end (n @ null_termination # rest) = Some (length n)"
proof -
  assume "name_ok n"
  then have "takeWhile (\<lambda>c. c \<noteq> null_termination \<and> c \<noteq> NUL) (n @ null_termination # rest) = n"
    by (subst takeWhile_append2) (auto simp: name_ok_def)
  then show ?thesis by (simp add: strchr_end_def)
qed

lemma parse_entries_encode [codec_simps]:
  "(\<And>e. e \<in> set es \<Longrightarrow> name_ok (fst e)) \<Longrightarrow>
   parse_entries (concat (map entry_encode es)) = Val es"
proof (induction es)
  case Nil
  then show ?case by (simp add: parse_entries.simps)
next
  case (Cons e es)
  obtain n i where e: "e = (n, i)" by force
  let ?rest = "concat (map entry_encode es)"
  have "concat (map entry_encode (e # es)) = e64 i @ n @ null_termination # ?rest"
    by (simp add: entry_encode_def e)
  moreover have "parse_entries ?rest = Val es" using Cons by simp
  moreover have "strchr_end (n @ null_termination # ?rest) = Some (length n)"
    using Cons.prems [of e] e by (simp add: strchr_end_name)
  ultimately show ?case
    by (simp add: parse_entries.simps [of "e64 i @ n @ null_termination # ?rest"] codec_simps e)
qed

lemma fold_smap_insert [simp]:
  assumes "smap_ok es"
  shows "fold (\<lambda>(n, i). smap_insert n i) es [] = es"
proof (rule smap_ext)
  note fold = smap.lookup_fold_insert [OF smap_ok_Nil smap_ok_distinct [OF assms]]
  show "smap_ok (fold (\<lambda>(n, i). smap_insert n i) es [])" using fold by blast
  show "smap_find (fold (\<lambda>(n, i). smap_insert n i) es []) = smap_find es"
    using fold by (auto simp: fun_eq_iff smap_find_def split: option.splits)
qed (rule assms)

lemma Serialize_parts:
  "\<not> length (Serialize p) < 18" "d64 0 (Serialize p) = dp_fsId p"
  "d64 8 (Serialize p) = dp_dir_ino p"
  "word_of_nat (le_dec (take 2 (drop 16 (Serialize p)))) = dp_partitionNumber p"
  "drop 18 (Serialize p) = concat (map entry_encode (dp_by_name p))"
  by (simp_all add: Serialize_def codec_simps)

lemma Deserialize_Serialize [codec_simps]:
  assumes "smap_ok (dp_by_name p)" "\<And>e. e \<in> set (dp_by_name p) \<Longrightarrow> name_ok (fst e)"
    and "dp_dir_ino q = dp_dir_ino p"
  shows "Deserialize (Serialize p) q =
    Val (True, p\<lparr>dp_entries := dp_entries q @ dp_by_name p, dp_state := CLEAN\<rparr>)"
  using assms by (simp add: Deserialize_def Serialize_parts parse_entries_encode)

section \<open>A partition as a table of names\<close>

text \<open>What identifies a partition: its file system, its directory and its number.\<close>

definition dp_id :: "LogFSDirectoryPartition \<Rightarrow> u64 \<times> u64 \<times> u16" where
  "dp_id p = (dp_fsId p, dp_dir_ino p, dp_partitionNumber p)"

lemma dp_id_key: "dp_id p = dp_id q \<Longrightarrow> dp_key p = dp_key q"
  by (simp add: dp_id_def dp_key_def)

lemma dp_id_upd [simp]:
  "dp_id (p\<lparr>dp_by_name := a\<rparr>) = dp_id p" "dp_id (p\<lparr>dp_entries := b\<rparr>) = dp_id p" "dp_id (p\<lparr>dp_state := c\<rparr>) = dp_id p"
  by (simp_all add: dp_id_def)

text \<open>
  \<open>dp_inv t\<close>: the partition stands for the table \<open>t\<close>. The store holds the table (nothing for an
  empty partition never written), every name can be stored, and once the partition was read
  the map is the table and the vector contains its pairs.
\<close>

definition dp_inv :: "(string, u64) smap \<Rightarrow> LogFSDirectoryPartition \<times> kvs \<Rightarrow> bool" where
  "dp_inv t = (\<lambda>(p, kv).
     reliable kv \<and> smap_ok t \<and> (\<forall>e\<in>set t. name_ok (fst e)) \<and>
     (case kv_data kv (dp_key p) of
        None \<Rightarrow> t = []
      | Some v \<Rightarrow> v = Serialize (p\<lparr>dp_by_name := t\<rparr>)) \<and>
     (if dp_state p = INVALID then dp_entries p = [] \<and> dp_by_name p = []
      else dp_state p = CLEAN \<and> dp_by_name p = t \<and> set t \<subseteq> set (dp_entries p)))"

definition dp_lookup :: "LogFSDirectoryPartition \<times> kvs \<Rightarrow> string \<Rightarrow> u64 option" where
  "dp_lookup s =
     (case dp_Refresh (fst s) (snd s) of
        Val (_, p) \<Rightarrow> smap_find (dp_by_name p)
      | _ \<Rightarrow> (\<lambda>_. None))"

lemma Refresh_inv:
  assumes "dp_inv t (p, kv)"
  obtains p' where "dp_Refresh p kv = Val (0, p')" "dp_inv t (p', kv)" "dp_state p' = CLEAN"
    "dp_by_name p' = t" "dp_id p' = dp_id p"
proof (cases "dp_state p = INVALID")
  case False
  with assms show thesis by (intro that [of p]) (auto simp: dp_Refresh_def dp_inv_def)
next
  case True
  show thesis
  proof (cases "kv_data kv (dp_key p)")
    case None
    with True assms show thesis
      by (intro that [of "p\<lparr>dp_by_name := [], dp_state := CLEAN\<rparr>"])
        (auto simp: dp_Refresh_def dp_inv_def dp_readFromLog_def kv_simps dp_key_def)
  next
    case (Some v)
    let ?p = "p\<lparr>dp_by_name := t, dp_entries := t, dp_state := CLEAN\<rparr>"
    have "Deserialize v p = Val (True, ?p)"
      using assms Some True Deserialize_Serialize [of "p\<lparr>dp_by_name := t\<rparr>" p]
      by (simp add: dp_inv_def)
    with Some True assms show thesis
      by (intro that [of ?p])
        (auto simp: dp_Refresh_def dp_inv_def dp_readFromLog_def kv_simps dp_key_def Serialize_def)
  qed
qed

lemma dp_lookup_inv:
  assumes "dp_inv t s"
  shows "dp_lookup s = smap_find t"
proof -
  obtain p kv where s: "s = (p, kv)" by force
  with assms obtain p' where "dp_Refresh p kv = Val (0, p')" "dp_by_name p' = t"
    using Refresh_inv by blast
  with s show ?thesis by (simp add: dp_lookup_def)
qed

lemma writeToLog_inv:
  assumes "reliable kv" "smap_ok t" "\<forall>e\<in>set t. name_ok (fst e)" "set t \<subseteq> set (dp_entries p)"
    and "dp_by_name p = t" "dp_state p = DIRTY"
  shows "\<exists>p' kv'. dp_writeToLog p kv = (STATUS_OK, p', kv') \<and> dp_inv t (p', kv') \<and>
    dp_id p' = dp_id p \<and> dp_by_name p' = t \<and>
    kv' = kv\<lparr>kv_data := (kv_data kv)(dp_key p := Some (Serialize p))\<rparr>"
  using assms by (auto simp: dp_writeToLog_def dp_inv_def kv_simps dp_key_def Serialize_def)

text \<open>
  The contract that partitions and directories share: a table of names, whose calls return
  an error number, and a handle 0 for a name that is absent.
\<close>

datatype name_op = Insert_name u64 string | Remove_name u64 string

text \<open>What an operation does to a table: a name that is there is not entered again.\<close>

primrec name_spec :: "name_op \<Rightarrow> (string \<Rightarrow> u64 option) \<Rightarrow> string \<Rightarrow> u64 option" where
  "name_spec (Insert_name h n) m = (if m n = None then m(n := Some h) else m)"
| "name_spec (Remove_name h n) m = m(n := None)"

text \<open>Operations one after another; whether each succeeded does not matter.\<close>

fun run_names ::
  "(u64 \<Rightarrow> string \<Rightarrow> 's \<Rightarrow> ('e \<times> 's) outcome) \<Rightarrow> (u64 \<Rightarrow> string \<Rightarrow> 's \<Rightarrow> ('e \<times> 's) outcome) \<Rightarrow> name_op list \<Rightarrow> 's \<Rightarrow> 's outcome" where
  "run_names ins rem [] s = Val s"
| "run_names ins rem (Insert_name h n # ops) s = obind (ins h n s) (\<lambda>(_, s). run_names ins rem ops s)"
| "run_names ins rem (Remove_name h n # ops) s = obind (rem h n s) (\<lambda>(_, s). run_names ins rem ops s)"

locale name_table =
  fixes lookup :: "'s \<Rightarrow> string \<Rightarrow> u64 option"
    and find :: "string \<Rightarrow> 's \<Rightarrow> (u64 \<times> 's) outcome"
    and insert :: "u64 \<Rightarrow> string \<Rightarrow> 's \<Rightarrow> ('e \<times> 's) outcome"
    and remove :: "u64 \<Rightarrow> string \<Rightarrow> 's \<Rightarrow> ('e \<times> 's) outcome"
    and ok :: "'e \<Rightarrow> bool"
    and inv :: "'s \<Rightarrow> bool"
  assumes find_spec: "inv s \<Longrightarrow> \<exists>s'. find n s = Val (case lookup s n of None \<Rightarrow> 0 | Some h \<Rightarrow> h, s') \<and>
        inv s' \<and> lookup s' = lookup s"
    and insert_spec: "inv s \<Longrightarrow> name_ok n \<Longrightarrow> \<exists>e s'. insert h n s = Val (e, s') \<and> inv s' \<and>
        (case lookup s n of
           None \<Rightarrow> ok e \<and> lookup s' = (lookup s)(n := Some h)
         | Some _ \<Rightarrow> \<not> ok e \<and> lookup s' = lookup s)"
    and remove_spec: "inv s \<Longrightarrow> \<exists>e s'. remove h n s = Val (e, s') \<and> inv s' \<and>
        (case lookup s n of
           None \<Rightarrow> \<not> ok e \<and> lookup s' = lookup s
         | Some _ \<Rightarrow> ok e \<and> lookup s' = (lookup s)(n := None))"
begin

lemma find_after_insert:
  assumes "inv s" "name_ok n" "lookup s n = None"
  obtains e s' s'' where "insert h n s = Val (e, s')" "ok e" "find n s' = Val (h, s'')" "inv s''"
    "lookup s'' = (lookup s)(n := Some h)"
proof -
  obtain e s' where ins: "insert h n s = Val (e, s')" "inv s'" "ok e" "lookup s' = (lookup s)(n := Some h)"
    using insert_spec [OF assms(1,2), of h] assms(3) by auto
  with find_spec [of s' n] show thesis by (auto intro: that)
qed

lemma insert_twice:
  assumes "inv s" "name_ok n" "insert h n s = Val (e, s')"
  obtains e' s'' where "insert g n s' = Val (e', s'')" "\<not> ok e'" "lookup s'' = lookup s'"
proof -
  have s': "inv s'" "lookup s' n \<noteq> None"
    using insert_spec [OF assms(1,2), of h] assms(3) by (auto split: option.splits)
  then show thesis
    using insert_spec [OF s'(1) assms(2), of g] by (auto intro: that split: option.splits)
qed

lemma remove_after_insert:
  assumes "inv s" "name_ok n" "lookup s n = None" "insert h n s = Val (e, s')"
  obtains e' s'' where "remove g n s' = Val (e', s'')" "ok e'" "lookup s'' = lookup s" "inv s''"
proof -
  have s': "inv s'" "lookup s' = (lookup s)(n := Some h)"
    using insert_spec [OF assms(1,2), of h] assms(3,4) by auto
  have "(lookup s)(n := None) = lookup s" using assms(3) by (simp add: fun_upd_idem)
  with s' remove_spec [OF s'(1), of g n] show thesis by (auto intro: that)
qed

lemma run_names_spec:
  "inv s \<Longrightarrow> \<forall>h n. Insert_name h n \<in> set ops \<longrightarrow> name_ok n \<Longrightarrow>
   \<exists>s'. run_names insert remove ops s = Val s' \<and> inv s' \<and> lookup s' = fold name_spec ops (lookup s)"
proof (induction ops arbitrary: s)
  case (Cons op ops)
  show ?case
  proof (cases op)
    case (Insert_name h n)
    then obtain e s' where "insert h n s = Val (e, s')" "inv s'" "lookup s' = name_spec op (lookup s)"
      using insert_spec [OF Cons.prems(1), of n h] Cons.prems(2) by (auto split: option.splits)
    with Cons.IH [of s'] Cons.prems(2) Insert_name show ?thesis by simp
  next
    case (Remove_name h n)
    then obtain e s' where "remove h n s = Val (e, s')" "inv s'" "lookup s' = name_spec op (lookup s)"
      using remove_spec [OF Cons.prems(1), of h n] by (auto simp: fun_upd_idem split: option.splits)
    with Cons.IH [of s'] Cons.prems(2) Remove_name show ?thesis by (simp add: fun_upd_def)
  qed
qed simp

end

lemma insertEntry_inv:
  assumes "dp_inv t (p, kv)" "name_ok n"
  shows "case smap_find t n of
     None \<Rightarrow> \<exists>p' kv'. dp_insertEntry h n (p, kv) = Val (0, p', kv') \<and> dp_inv (smap_insert n h t) (p', kv') \<and>
       dp_id p' = dp_id p \<and> (\<forall>k. k \<noteq> dp_key p \<longrightarrow> kv_data kv' k = kv_data kv k)
   | Some _ \<Rightarrow> \<exists>p'. dp_insertEntry h n (p, kv) = Val (EEXIST, p', kv) \<and> dp_inv t (p', kv) \<and> dp_id p' = dp_id p"
proof -
  obtain p1 where p1: "dp_Refresh p kv = Val (0, p1)" "dp_inv t (p1, kv)" "dp_state p1 = CLEAN"
    "dp_by_name p1 = t" "dp_id p1 = dp_id p"
    using Refresh_inv [OF assms(1)] .
  let ?p = "p1\<lparr>dp_entries := dp_entries p1 @ [(n, h)], dp_by_name := smap_insert n h t, dp_state := DIRTY\<rparr>"
  have ok: "smap_ok t" using assms(1) by (simp add: dp_inv_def)
  have "\<exists>p' kv'. dp_writeToLog ?p kv = (STATUS_OK, p', kv') \<and> dp_inv (smap_insert n h t) (p', kv') \<and>
    dp_id p' = dp_id ?p \<and> dp_by_name p' = smap_insert n h t \<and>
    kv' = kv\<lparr>kv_data := (kv_data kv)(dp_key ?p := Some (Serialize ?p))\<rparr>"
    using assms(2) p1 ok
    by (intro writeToLog_inv) (auto simp: dp_inv_def smap_ok_insert smap_insert_fresh_mem)
  moreover have "dp_id ?p = dp_id p" "dp_key ?p = dp_key p" using p1(5) dp_id_key [of p1 p] by (simp_all add: dp_key_def)
  ultimately show ?thesis
    using p1 by (auto simp: dp_insertEntry_def split: option.splits)
qed

lemma set_smap_erase: "set (smap_erase n t) = {e \<in> set t. fst e \<noteq> n}"
  by (auto simp: smap_erase_def)

lemma removeEntry_inv:
  assumes "dp_inv t (p, kv)"
  shows "case smap_find t n of
     None \<Rightarrow> \<exists>p'. dp_removeEntry h n (p, kv) = Val (ENOENT, p', kv) \<and> dp_inv t (p', kv) \<and> dp_id p' = dp_id p
   | Some _ \<Rightarrow> \<exists>p' kv'. dp_removeEntry h n (p, kv) = Val (0, p', kv') \<and> dp_inv (smap_erase n t) (p', kv') \<and>
       dp_id p' = dp_id p \<and> (\<forall>k. k \<noteq> dp_key p \<longrightarrow> kv_data kv' k = kv_data kv k)"
proof -
  obtain p1 where p1: "dp_Refresh p kv = Val (0, p1)" "dp_inv t (p1, kv)" "dp_state p1 = CLEAN"
    "dp_by_name p1 = t" "dp_id p1 = dp_id p"
    using Refresh_inv [OF assms(1)] .
  let ?p = "p1\<lparr>dp_by_name := smap_erase n t, dp_state := DIRTY\<rparr>"
  have ok: "smap_ok t" using assms(1) by (simp add: dp_inv_def)
  have "\<exists>p' kv'. dp_writeToLog ?p kv = (STATUS_OK, p', kv') \<and> dp_inv (smap_erase n t) (p', kv') \<and>
    dp_id p' = dp_id ?p \<and> dp_by_name p' = smap_erase n t \<and>
    kv' = kv\<lparr>kv_data := (kv_data kv)(dp_key ?p := Some (Serialize ?p))\<rparr>"
    using p1 ok
    by (intro writeToLog_inv) (auto simp: dp_inv_def smap_ok_erase set_smap_erase)
  moreover have "dp_id ?p = dp_id p" "dp_key ?p = dp_key p" using p1(5) dp_id_key [of p1 p] by (simp_all add: dp_key_def)
  ultimately show ?thesis
    using p1 by (auto simp: dp_removeEntry_def split: option.splits)
qed

lemma findEntry_inv:
  assumes "dp_inv t (p, kv)"
  shows "\<exists>p'. dp_findEntry n (p, kv) = Val (case smap_find t n of None \<Rightarrow> 0 | Some h \<Rightarrow> h, p', kv) \<and>
     dp_inv t (p', kv) \<and> dp_id p' = dp_id p"
proof -
  obtain p1 where "dp_Refresh p kv = Val (0, p1)" "dp_inv t (p1, kv)" "dp_by_name p1 = t"
    "dp_id p1 = dp_id p"
    using Refresh_inv [OF assms(1)] .
  then show ?thesis by (auto simp: dp_findEntry_def split: option.splits)
qed

lemma smap_find_upd:
  "smap_ok t \<Longrightarrow> smap_find (smap_insert n h t) = (smap_find t)(n := Some h)"
  "smap_find (smap_erase n t) = (smap_find t)(n := None)"
  by (simp_all add: fun_eq_iff smap_find_insert smap_find_erase)

lemma dp_inv_ok: "dp_inv t s \<Longrightarrow> smap_ok t"
  by (cases s) (simp add: dp_inv_def)

interpretation dp: name_table dp_lookup dp_findEntry dp_insertEntry dp_removeEntry
    "\<lambda>e. e = 0" "\<lambda>s. \<exists>t. dp_inv t s"
proof
  fix s :: "LogFSDirectoryPartition \<times> kvs" and n h
  obtain p kv where s: "s = (p, kv)" by force
  assume "\<exists>t. dp_inv t s"
  then obtain t where t: "dp_inv t (p, kv)" using s by blast
  note look = dp_lookup_inv [OF t] dp_lookup_inv dp_inv_ok [OF t]
  show "\<exists>s'. dp_findEntry n s = Val (case dp_lookup s n of None \<Rightarrow> 0 | Some h \<Rightarrow> h, s') \<and>
        (\<exists>t. dp_inv t s') \<and> dp_lookup s' = dp_lookup s"
    using findEntry_inv [OF t, of n] look s by auto
  show "\<exists>e s'. dp_removeEntry h n s = Val (e, s') \<and> (\<exists>t. dp_inv t s') \<and>
        (case dp_lookup s n of
           None \<Rightarrow> e \<noteq> 0 \<and> dp_lookup s' = dp_lookup s
         | Some _ \<Rightarrow> e = 0 \<and> dp_lookup s' = (dp_lookup s)(n := None))"
    using removeEntry_inv [OF t, where n = n and h = h] look s
    by (auto simp: ENOENT_def smap_find_upd split: option.splits; fastforce)
  show "\<exists>e s'. dp_insertEntry h n s = Val (e, s') \<and> (\<exists>t. dp_inv t s') \<and>
        (case dp_lookup s n of
           None \<Rightarrow> e = 0 \<and> dp_lookup s' = (dp_lookup s)(n := Some h)
         | Some _ \<Rightarrow> e \<noteq> 0 \<and> dp_lookup s' = dp_lookup s)" if "name_ok n"
    using insertEntry_inv [OF t that, where h = h] look s
    by (auto simp: EEXIST_def smap_find_upd split: option.splits; fastforce)
qed

section \<open>Properties\<close>

text \<open>
  C17. A partition whose names contain neither the separator nor a NUL is read back from the
  bytes it writes: any partition object of the same directory that deserialises the value
  gets the same map, and its vector gets exactly the pairs of the map, in name order.
\<close>

theorem partition_roundtrip:
  assumes "smap_ok (dp_by_name p)" "\<forall>e\<in>set (dp_by_name p). name_ok (fst e)"
  shows "Deserialize (Serialize p) (new_LogFSDirectoryPartition k f (dp_dir_ino p)) =
    Val (True, p\<lparr>dp_entries := dp_by_name p, dp_state := CLEAN\<rparr>)"
  using Deserialize_Serialize [of p "new_LogFSDirectoryPartition k f (dp_dir_ino p)"] assms
  by (simp add: new_LogFSDirectoryPartition_def)

definition sample_partition :: LogFSDirectoryPartition where
  "sample_partition = (new_LogFSDirectoryPartition 1 7 2)
     \<lparr>dp_by_name := [(''.'', 2), (''a'', 5)], dp_entries := [(''a'', 5), (''.'', 2)], dp_state := DIRTY\<rparr>"

lemma sample_partition_ok:
  "smap_ok (dp_by_name sample_partition)" "\<forall>e\<in>set (dp_by_name sample_partition). name_ok (fst e)"
  by (simp_all add: sample_partition_def smap_ok_def name_ok_def null_termination_def less_char_def)

theorem partition_roundtrip_witness:
  "Deserialize (Serialize sample_partition) (new_LogFSDirectoryPartition 0 0 (dp_dir_ino sample_partition)) =
   Val (True, sample_partition\<lparr>dp_entries := dp_by_name sample_partition, dp_state := CLEAN\<rparr>)"
  by (rule partition_roundtrip [OF sample_partition_ok])

lemma dp_inv_new:
  assumes "reliable kv" "kv_data kv (partition_key d k) = None"
  shows "dp_inv [] (new_LogFSDirectoryPartition k f d, kv)"
  using assms by (simp add: dp_inv_def new_LogFSDirectoryPartition_def dp_key_def)

lemma dp_inv_reopen:
  "dp_inv t (p, kv) \<Longrightarrow>
   dp_inv t (new_LogFSDirectoryPartition (dp_partitionNumber p) (dp_fsId p) (dp_dir_ino p), kv)"
  by (auto simp: dp_inv_def new_LogFSDirectoryPartition_def dp_key_def Serialize_def split: option.splits)

text \<open>
  A name inserted into a partition is durable and readable: inserting a storable name
  that is not in the table succeeds, and a partition object created afterwards over the same
  store finds the handle under that name and every other name as before.
\<close>

theorem inserted_entry_is_durable:
  assumes "dp_inv t (p, kv)" "name_ok n" "smap_find t n = None"
  shows "\<exists>p' kv'. dp_insertEntry h n (p, kv) = Val (0, p', kv') \<and>
    dp_lookup (new_LogFSDirectoryPartition (dp_partitionNumber p') (dp_fsId p') (dp_dir_ino p'), kv')
      = (smap_find t)(n := Some h)"
proof -
  obtain p' kv' where ins: "dp_insertEntry h n (p, kv) = Val (0, p', kv')"
    "dp_inv (smap_insert n h t) (p', kv')"
    using insertEntry_inv [OF assms(1,2), where h = h] assms(3) by auto
  then have "dp_lookup (new_LogFSDirectoryPartition (dp_partitionNumber p') (dp_fsId p') (dp_dir_ino p'), kv')
      = (smap_find t)(n := Some h)"
    using dp_lookup_inv [OF dp_inv_reopen] dp_inv_ok [OF assms(1)] by (simp add: smap_find_upd)
  with ins show ?thesis by blast
qed

theorem inserted_entry_is_durable_witness:
  "\<exists>p' kv'. dp_insertEntry 5 ''a'' (new_LogFSDirectoryPartition 1 7 2, empty_kvs) = Val (0, p', kv') \<and>
    dp_lookup (new_LogFSDirectoryPartition (dp_partitionNumber p') (dp_fsId p') (dp_dir_ino p'), kv')
      = (smap_find [])(''a'' := Some 5)"
  by (rule inserted_entry_is_durable [OF dp_inv_new])
    (simp_all add: empty_kvs_def reliable_def name_ok_def null_termination_def)

text \<open>
  A name that contains the separator cannot be read back: when the part behind the
  separator is short, reading the entry the code wrote for it runs off the end of the stored
  value.
\<close>

theorem separator_in_name_is_unreadable:
  assumes "name_ok a" "length b < 7"
  shows "parse_entries (entry_encode (a @ null_termination # b, i)) = Undef"
proof -
  let ?buf = "e64 i @ a @ null_termination # (b @ [null_termination])"
  have "strchr_end (drop 8 ?buf) = Some (length a)"
    using assms(1) by (simp add: strchr_end_name)
  moreover have "drop (8 + length a + 1) ?buf = b @ [null_termination]" by simp
  moreover have "parse_entries (b @ [null_termination]) = Undef"
    using assms(2) by (simp add: parse_entries.simps)
  ultimately show ?thesis
    by (simp add: entry_encode_def parse_entries.simps [of ?buf])
qed

theorem separator_in_name_is_unreadable_witness:
  "parse_entries (entry_encode (''x|y'', 9)) = Undef"
  using separator_in_name_is_unreadable [of "''x''" "''y''" 9]
  by (simp add: name_ok_def null_termination_def)

subsection \<open>Listing\<close>

text \<open>
  The entries a listing offers from an index on, each with the offset that continues
  behind it, and an adder with room for a number of entries.
\<close>

fun live_from :: "(string, u64) smap \<Rightarrow> (string \<times> u64) list \<Rightarrow> int \<Rightarrow> (string \<times> u64 \<times> int) list" where
  "live_from by_name [] off = []"
| "live_from by_name (e # es) off =
     (if entry_live by_name e then (c_str (fst e), snd e, off) # live_from by_name es (off + 1)
      else live_from by_name es (off + 1))"

definition room_adder :: "(nat \<times> (string \<times> u64 \<times> int) list) adder" where
  "room_adder name ino off st =
     (if fst st = 0 then Val (False, st)
      else Val (True, fst st - 1, snd st @ [(name, ino, off)]))"

lemma list_loop_room:
  "list_loop room_adder m es off (k, acc) =
   Val (k - length (live_from m es off), acc @ take k (live_from m es off))"
proof (induction es arbitrary: off k acc)
  case (Cons e es)
  then show ?case by (cases k) (simp_all add: room_adder_def)
qed simp

lemma live_from_set:
  "(\<lambda>(n, i, _). (n, i)) ` set (live_from m es off) = (\<lambda>(n, i). (c_str n, i)) ` {e \<in> set es. entry_live m e}"
  by (induction es arbitrary: off) auto

lemma live_from_resume:
  "k < length (live_from m es off) \<Longrightarrow> live_from m es off ! k = (n, i, o1) \<Longrightarrow>
   off \<le> o1 \<and> live_from m (drop (nat (o1 - off + 1)) es) (o1 + 1) = drop (Suc k) (live_from m es off)"
proof (induction es arbitrary: off k)
  case (Cons e es)
  have shift: "nat (o1 - off + 1) = Suc (nat (o1 - (off + 1) + 1))" if "off + 1 \<le> o1"
    using that by simp
  show ?case
  proof (cases "entry_live m e \<and> k = 0")
    case True
    with Cons.prems show ?thesis by auto
  next
    case False
    then obtain j where "j < length (live_from m es (off + 1))"
      "live_from m es (off + 1) ! j = (n, i, o1)"
      "drop (Suc k) (live_from m (e # es) off) = drop (Suc j) (live_from m es (off + 1))"
      using Cons.prems by (cases k) (auto split: if_splits)
    with Cons.IH [of j "off + 1"] shift show ?thesis by simp
  qed
qed simp

lemma listEntries_room:
  "dp_Refresh p kv = Val (0, p') \<Longrightarrow> base \<le> cur \<Longrightarrow>
   listEntries room_adder cur base p kv (k, []) =
     Val (0, p',
       k - length (live_from (dp_by_name p') (drop (nat (cur - base)) (dp_entries p')) (cur + 1)),
       take k (live_from (dp_by_name p') (drop (nat (cur - base)) (dp_entries p')) (cur + 1)))"
  by (simp add: listEntries_def list_loop_room Let_def)

lemma Refresh_entries:
  assumes "dp_inv t (p, kv)"
  shows "\<exists>p'. dp_Refresh p kv = Val (0, p') \<and> dp_by_name p' = t \<and> dp_id p' = dp_id p \<and> dp_inv t (p', kv) \<and>
    dp_entries p' = (if dp_state p = INVALID then t else dp_entries p)"
proof -
  obtain p' where p': "dp_Refresh p kv = Val (0, p')" "dp_inv t (p', kv)" "dp_by_name p' = t" "dp_id p' = dp_id p"
    using Refresh_inv [OF assms] by metis
  moreover have "dp_entries p' = (if dp_state p = INVALID then t else dp_entries p)"
  proof (cases "dp_state p = INVALID \<and> kv_data kv (dp_key p) \<noteq> None")
    case True
    then have "dp_readFromLog p kv = (STATUS_OK, Serialize (p\<lparr>dp_by_name := t\<rparr>))"
      using assms by (auto simp: dp_inv_def dp_readFromLog_def kv_simps dp_key_def)
    moreover have "Deserialize (Serialize (p\<lparr>dp_by_name := t\<rparr>)) p = Val (True, p\<lparr>dp_by_name := t, dp_entries := t, dp_state := CLEAN\<rparr>)"
      using assms True Deserialize_Serialize [of "p\<lparr>dp_by_name := t\<rparr>" p] by (simp add: dp_inv_def)
    ultimately show ?thesis using p'(1) True by (auto simp: dp_Refresh_def)
  next
    case False
    then show ?thesis using p'(1) assms
      by (auto simp: dp_Refresh_def dp_inv_def dp_readFromLog_def kv_simps dp_key_def)
  qed
  ultimately show ?thesis by blast
qed

lemma live_from_filter:
  "map (\<lambda>(n, h, _). (n, h)) (live_from t es off) = map (\<lambda>(n, h). (c_str n, h)) (filter (entry_live t) es)"
  by (induction es arbitrary: off) auto

text \<open>
  The entries a partition lists: each entry of its table once, when no entry of the table was entered
  again since the object was made, so that its vector has none twice.
\<close>

lemma live_entries:
  assumes "dp_inv t (p, kv)" "dp_by_name p = t" "distinct (dp_entries p)" "set t \<subseteq> set (dp_entries p)"
  shows "mset (map (\<lambda>(n, h, _). (n, h)) (live_from t (dp_entries p) off)) = mset t"
proof -
  let ?live = "filter (entry_live t) (dp_entries p)"
  have t: "smap_ok t" "\<forall>e \<in> set t. c_str (fst e) = fst e" using assms(1) by (auto simp: dp_inv_def name_ok_def c_str_id)
  have set: "set ?live = set t" using assms(4) t(1) by (auto simp: entry_live_def smap_find_mem)
  have "distinct t" using smap_ok_distinct [OF t(1)] by (simp add: distinct_map)
  then have "mset ?live = mset t" using set_eq_iff_mset_eq_distinct [of ?live t] set assms(3) by simp
  moreover have "map (\<lambda>(n, h). (c_str n, h)) ?live = ?live" using t(2) set by (intro map_idI) auto
  ultimately show ?thesis by (simp add: live_from_filter)
qed

text \<open>
  A listing that stopped for lack of room can be continued: listing on, from the offset
  handed out with the last entry that fitted, offers precisely the entries that were left,
  none twice and none skipped.
\<close>

theorem listing_resumes:
  assumes "dp_inv t (p, kv)" "base \<le> cur"
    and "listEntries room_adder cur base p kv (Suc k, []) = Val (0, p', left, out)"
    and "length out = Suc k" "last out = (n, i, off)"
  shows "\<exists>p'' left' out'. listEntries room_adder off base p' kv (m, []) = Val (0, p'', left', out') \<and>
    listEntries room_adder cur base p kv (Suc k + m, []) = Val (0, p', left', out @ out')"
proof -
  let ?all = "\<lambda>c. live_from t (drop (nat (c - base)) (dp_entries p')) (c + 1)"
  obtain q where "dp_Refresh p kv = Val (0, q)" "dp_inv t (q, kv)" "dp_state q = CLEAN" "dp_by_name q = t"
    using Refresh_inv [OF assms(1)] .
  moreover from this have "q = p'" using assms(3) assms(2) by (simp add: listEntries_room)
  ultimately have q: "dp_Refresh p kv = Val (0, p')" "dp_by_name p' = t" "dp_Refresh p' kv = Val (0, p')"
    by (auto simp: dp_Refresh_def)
  have out: "out = take (Suc k) (?all cur)" and len: "k < length (?all cur)"
    using assms(2,3,4) q by (auto simp: listEntries_room)
  have "?all cur ! k = (n, i, off)"
    using assms(5) out len by (simp add: take_Suc_conv_app_nth)
  from live_from_resume [OF len this]
  have off: "cur + 1 \<le> off" "?all off = drop (Suc k) (?all cur)"
    using assms(2) by (auto simp: nat_add_distrib [symmetric] algebra_simps)
  have "take (Suc k + m) (?all cur) = out @ take m (?all off)"
    unfolding out off(2) take_add ..
  then show ?thesis
    using q off len assms(2) by (simp add: listEntries_room)
qed

definition sample_store :: kvs where
  "sample_store = empty_kvs\<lparr>kv_data := [dp_key sample_partition \<mapsto> Serialize sample_partition]\<rparr>"

lemma sample_inv:
  "dp_inv [(''.'', 2), (''a'', 5)] (sample_partition\<lparr>dp_state := CLEAN\<rparr>, sample_store)"
  using sample_partition_ok
  by (auto simp: dp_inv_def sample_store_def sample_partition_def dp_key_def Serialize_def)

theorem listing_resumes_witness:
  "\<exists>p'' left' out'. listEntries room_adder 1 0 (sample_partition\<lparr>dp_state := CLEAN\<rparr>) sample_store (1, [])
      = Val (0, p'', left', out') \<and>
    listEntries room_adder 0 0 (sample_partition\<lparr>dp_state := CLEAN\<rparr>) sample_store (Suc 0 + 1, [])
      = Val (0, sample_partition\<lparr>dp_state := CLEAN\<rparr>, left', [(''a'', 5, 1)] @ out')"
  by (rule listing_resumes [OF sample_inv, where left = 0 and n = "''a''" and i = 5])
    (simp_all add: listEntries_def dp_Refresh_def sample_partition_def entry_live_def smap_find_def
      room_adder_def c_str_def)

end
