(* ===== verification/File.thy ===== *)
theory File
  imports Status KVStore MetaData DirPartition
begin

unbundle bit_operations_syntax

text \<open>
  The file object (\<^verbatim>\<open>src/src/KVFSFile.{h,cc}\<close>, \<^verbatim>\<open>src/src/KVFSObject.{h,cc}\<close>): metadata in the
  store under the inode key, data in chunks under the chunk keys. This theory has the object,
  its metadata operations and its data operations; directories are in theory \<open>Directory\<close>.

  A method takes the pair of the object and the store and returns its status with the new
  pair, or ends the process (\<open>Abort\<close>: \<^verbatim>\<open>EXPECT\<close>, \<^verbatim>\<open>assert\<close>, \<^verbatim>\<open>LOG(DFATAL)\<close>), or reads outside an
  object (\<open>Undef\<close>). \<^verbatim>\<open>off_t\<close> and \<^verbatim>\<open>ptrdiff_t\<close> values are integers, \<^verbatim>\<open>size_t\<close> and the stored
  size are 64-bit words, and the conversions between them are written out; signed overflow,
  which C++ leaves undefined, is outside the model. The clock, the user and the tiering agent
  are arguments.
\<close>

section \<open>The object\<close>

record LogFSFile =
  f_fsId :: u64
  f_handle :: u64
  f_type :: LogEntryType
  f_nameString :: string
  f_meta :: LogFSMetaData
  f_mode :: u32
  f_metaDirty :: bool
  f_data_hold_count :: int
  f_partitions :: "LogFSDirectoryPartition option list option"

type_synonym fstate = "LogFSFile \<times> kvs"

text \<open>\<open>now\<close>: the value of \<^verbatim>\<open>time(nullptr)\<close>; the members it is stored in have 32 bits.\<close>

record env =
  now :: int
  getuid :: u32
  getgid :: u32

definition now32 :: "env \<Rightarrow> u32" where
  "now32 env = word_of_int (now env)"

definition new_LogFSFile :: "u64 \<Rightarrow> string option \<Rightarrow> u64 \<Rightarrow> u32 \<Rightarrow> u32 \<Rightarrow> u32 \<Rightarrow> LogFSFile" where
  "new_LogFSFile fsId file_name handle modeInput initialSize chunkSize =
     \<lparr>f_fsId = fsId, f_handle = handle, f_type = LOG_ENTRY_TYPE_FILE,
      f_nameString = (case file_name of None \<Rightarrow> [] | Some n \<Rightarrow> n),
      f_meta = new_LogFSMetaData initialSize chunkSize, f_mode = modeInput, f_metaDirty = False,
      f_data_hold_count = 0, f_partitions = None\<rparr>"

abbreviation default_LogFSFile :: "u64 \<Rightarrow> u64 \<Rightarrow> LogFSFile" where
  "default_LogFSFile fsId handle \<equiv>
     new_LogFSFile fsId None handle 0 DEFAULT_FILE_INITIAL_SIZE DEFAULT_FILE_CHUNK_SIZE"

definition upd_meta :: "(LogFSMetaData \<Rightarrow> LogFSMetaData) \<Rightarrow> LogFSFile \<Rightarrow> LogFSFile" where
  "upd_meta g this = this\<lparr>f_meta := g (f_meta this)\<rparr>"

definition setHandle :: "u64 \<Rightarrow> LogFSFile \<Rightarrow> LogFSFile" where
  "setHandle handle this = this\<lparr>f_handle := handle\<rparr>"

definition setName :: "string \<Rightarrow> LogFSFile \<Rightarrow> LogFSFile" where
  "setName name this = this\<lparr>f_nameString := name\<rparr>"

section \<open>Metadata\<close>

definition setTypeFromMode :: "LogFSFile \<Rightarrow> LogFSFile" where
  "setTypeFromMode this = upd_meta (\<lambda>m. m\<lparr>m_type := typeFromMode (f_mode this) (m_type m)\<rparr>) this"

definition setProtectionFromMode :: "LogFSFile \<Rightarrow> LogFSFile" where
  "setProtectionFromMode this = upd_meta (\<lambda>m. m\<lparr>m_protection := SetProtectionFromMode (f_mode this)\<rparr>) this"

definition UpdateMTime :: "u32 \<Rightarrow> LogFSFile \<Rightarrow> LogFSFile" where
  "UpdateMTime new_time = upd_meta (\<lambda>m. m\<lparr>m_mtime := new_time, m_mtimeNsec := 0\<rparr>)"

definition UpdateCTime :: "u32 \<Rightarrow> LogFSFile \<Rightarrow> LogFSFile" where
  "UpdateCTime new_time = upd_meta (\<lambda>m. m\<lparr>m_ctime := new_time, m_ctimeNsec := 0\<rparr>)"

definition UpdateATime :: "u32 \<Rightarrow> LogFSFile \<Rightarrow> LogFSFile" where
  "UpdateATime new_time = upd_meta (\<lambda>m. m\<lparr>m_atime := new_time, m_atimeNsec := 0\<rparr>)"

definition initMeta :: "env \<Rightarrow> LogFSFile \<Rightarrow> LogFSFile" where
  "initMeta env this =
     (let this = upd_meta (\<lambda>m. m\<lparr>m_metaVersion := 0, m_checkSum := 0xF5D5,
                   m_fsId := f_fsId this, m_handle := f_handle this\<rparr>) this;
          this = setTypeFromMode this;
          this = setProtectionFromMode this;
          this = upd_meta (\<lambda>m. m\<lparr>m_userId := getuid env, m_groupId := getgid env,
                   m_devId := f_fsId this, m_rDev := 0, m_nLink := 0\<rparr>) this
      in upd_meta (\<lambda>m. m\<lparr>m_ctime := now32 env, m_ctimeNsec := 0, m_atime := now32 env,
                   m_atimeNsec := 0, m_mtime := now32 env, m_mtimeNsec := 0\<rparr>) this)"

definition NLinkAdjust :: "int \<Rightarrow> LogFSFile \<Rightarrow> LogFSFile" where
  "NLinkAdjust n = upd_meta (\<lambda>m. m\<lparr>m_nLink := m_nLink m + word_of_int n\<rparr>)"

definition writeToLog :: "fstate \<Rightarrow> Status \<times> fstate" where
  "writeToLog = (\<lambda>(this, kv).
     case kv_put (inode_key (f_handle this)) (meta_encode (f_meta this)) kv of
       (True, kv') \<Rightarrow> (STATUS_OK, this, kv')
     | (False, kv') \<Rightarrow> (STATUS_INTERNAL_ERROR, this, kv'))"

definition readFromLog :: "fstate \<Rightarrow> Status \<times> string" where
  "readFromLog = (\<lambda>(this, kv).
     case kv_get (inode_key (f_handle this)) kv of
       Some readBuffer \<Rightarrow> (STATUS_OK, readBuffer)
     | None \<Rightarrow> (STATUS_OBJECT_DOESNT_EXIST, []))"

definition file_open :: "fstate \<Rightarrow> (bool \<times> fstate) outcome" where
  "file_open = (\<lambda>(this, kv).
     case readFromLog (this, kv) of
       (STATUS_OK, readBuffer) \<Rightarrow>
         obind (of_option (meta_decode readBuffer)) (\<lambda>fileMeta.
           expect (m_fsId fileMeta = f_fsId this \<and> m_handle fileMeta = f_handle this)
             (Val (True, this\<lparr>f_meta := fileMeta\<rparr>, kv)))
     | _ \<Rightarrow> Val (False, this, kv))"

definition exists_in_log :: "fstate \<Rightarrow> bool outcome" where
  "exists_in_log = (\<lambda>(this, kv).
     case readFromLog (this, kv) of
       (STATUS_OK, outBuffer) \<Rightarrow>
         obind (of_option (meta_decode outBuffer)) (\<lambda>fileMeta.
           Val (m_fsId fileMeta = f_fsId this \<and> m_handle fileMeta = f_handle this))
     | _ \<Rightarrow> Val False)"

record stat_buf =
  st_dev :: u64
  st_ino :: u64
  st_mode :: u32
  st_nlink :: u64
  st_uid :: u32
  st_gid :: u32
  st_rdev :: u64
  st_size :: int
  st_blksize :: int
  st_blocks :: int
  st_atime :: int
  st_mtime :: int
  st_ctime :: int

definition stat_of_meta :: "LogFSMetaData \<Rightarrow> stat_buf" where
  "stat_of_meta m =
     \<lparr>st_dev = m_devId m, st_ino = m_handle m, st_mode = ModeFromMeta (m_type m) (m_protection m),
      st_nlink = ucast (m_nLink m), st_uid = m_userId m, st_gid = m_groupId m,
      st_rdev = m_rDev m, st_size = sint (m_fileTotalSize m), st_blksize = uint (m_fileChunkSize m),
      st_blocks = sint (m_fileTotalSize m div 512), st_atime = uint (m_atime m),
      st_mtime = uint (m_mtime m), st_ctime = uint (m_ctime m)\<rparr>"

text \<open>The buffer is untouched on an error: the old buffer is an argument.\<close>

definition file_stat :: "stat_buf \<Rightarrow> fstate \<Rightarrow> (Status \<times> stat_buf \<times> fstate) outcome" where
  "file_stat statBuff = (\<lambda>(this, kv).
     case readFromLog (this, kv) of
       (STATUS_OK, readBuffer) \<Rightarrow>
         obind (of_option (meta_decode readBuffer)) (\<lambda>fileMeta.
           if m_fsId fileMeta \<noteq> f_fsId this \<or> m_handle fileMeta \<noteq> f_handle this
           then Val (STATUS_OBJECT_DOESNT_EXIST, statBuff, this, kv)
           else Val (STATUS_OK, stat_of_meta fileMeta, this\<lparr>f_meta := fileMeta\<rparr>, kv))
     | _ \<Rightarrow> Val (STATUS_OBJECT_DOESNT_EXIST, statBuff, this, kv))"

definition SetAttr :: "stat_buf \<Rightarrow> fstate \<Rightarrow> (Status \<times> fstate) outcome" where
  "SetAttr new_attr = (\<lambda>(this, kv).
     case readFromLog (this, kv) of
       (STATUS_OK, readBuffer) \<Rightarrow>
         obind (of_option (meta_decode readBuffer)) (\<lambda>fileMeta.
           if m_fsId fileMeta \<noteq> f_fsId this \<or> m_handle fileMeta \<noteq> f_handle this
              \<or> st_ino new_attr \<noteq> f_handle this
           then Val (STATUS_OBJECT_DOESNT_EXIST, this, kv)
           else let this = this\<lparr>f_meta := fileMeta\<lparr>m_nLink := ucast (st_nlink new_attr),
                         m_userId := st_uid new_attr, m_groupId := st_gid new_attr,
                         m_atime := word_of_int (st_atime new_attr),
                         m_mtime := word_of_int (st_mtime new_attr)\<rparr>\<rparr>;
                    this = (if f_mode this \<noteq> st_mode new_attr
                            then setProtectionFromMode (this\<lparr>f_mode := st_mode new_attr\<rparr>)
                            else this)
                in Val (STATUS_OK, this, kv))
     | (status, _) \<Rightarrow> Val (status, this, kv))"

definition file_flush :: "fstate \<Rightarrow> Status \<times> fstate" where
  "file_flush = (\<lambda>(this, kv).
     if f_handle this \<noteq> m_handle (f_meta this) then (STATUS_INTERNAL_ERROR, this, kv)
     else case kv_put (inode_key (f_handle this)) (meta_encode (f_meta this)) kv of
            (True, kv') \<Rightarrow> (STATUS_OK, this\<lparr>f_metaDirty := False\<rparr>, kv')
          | (False, kv') \<Rightarrow> (STATUS_INTERNAL_ERROR, this, kv'))"

definition X_OK :: u32 where "X_OK = 1"
definition W_OK :: u32 where "W_OK = 2"
definition R_OK :: u32 where "R_OK = 4"

definition perm_allows :: "u32 \<Rightarrow> meta_perm \<Rightarrow> bool" where
  "perm_allows mode p =
     (let ok = True;
          ok = (if mode AND X_OK \<noteq> 0 \<and> \<not> p_exec p then False else ok);
          ok = (if mode AND W_OK \<noteq> 0 \<and> \<not> p_write p then False else ok);
          ok = (if mode AND R_OK \<noteq> 0 \<and> \<not> p_read p then False else ok)
      in ok)"

text \<open>The second result is what \<^verbatim>\<open>*pEerror\<close> is set to, if it is set.\<close>

definition file_access :: "u32 \<Rightarrow> u32 \<Rightarrow> u32 \<Rightarrow> LogFSFile \<Rightarrow> Status \<times> int option" where
  "file_access mode userId groupId this =
     (let prot = m_protection (f_meta this);
          ok = (if userId = m_userId (f_meta this) then perm_allows mode (owner prot)
                else if groupId = m_groupId (f_meta this) then perm_allows mode (group prot)
                else perm_allows mode (other prot))
      in if \<not> ok then (STATUS_INVALID_PARAMETER, Some EACCES) else (STATUS_OK, None))"

definition file_chmod :: "u32 \<Rightarrow> fstate \<Rightarrow> Status \<times> fstate" where
  "file_chmod mode = (\<lambda>(this, kv).
     file_flush (setProtectionFromMode (this\<lparr>f_mode := mode\<rparr>), kv))"

definition file_chown :: "u32 \<Rightarrow> u32 \<Rightarrow> fstate \<Rightarrow> Status \<times> fstate" where
  "file_chown userId groupId = (\<lambda>(this, kv).
     file_flush (upd_meta (\<lambda>m. m\<lparr>m_userId := userId, m_groupId := groupId\<rparr>) this, kv))"

definition RemoveInodeFromKvs :: "fstate \<Rightarrow> fstate" where
  "RemoveInodeFromKvs = (\<lambda>(this, kv). (this, snd (kv_remove (inode_key (f_handle this)) kv)))"

section \<open>Data\<close>

text \<open>
  \<^verbatim>\<open>ResizeData\<close>: one affected chunk, shortened or removed (the flag is false when a \<^verbatim>\<open>put\<close>
  failed), and the loop over them, from \<open>chunk\<close> up to \<open>last_chunk\<close>. A file with a chunk size of
  0 divides by zero.
\<close>

definition resize_step :: "u64 \<Rightarrow> int \<Rightarrow> int \<Rightarrow> int \<Rightarrow> int \<Rightarrow> int \<Rightarrow> kvs \<Rightarrow> bool \<times> kvs" where
  "resize_step handle new_size csz init first_chunk chunk kv =
     (let chunk_base_off = init + chunk * csz;
          chunk_off = new_size - chunk_base_off;
          key = chunk_key handle chunk
      in if chunk = first_chunk \<and> chunk_off > 0 \<and> chunk_off < csz
         then case kv_get key kv of
                Some v \<Rightarrow>
                  (if length v > nat chunk_off then kv_put key (str_resize (nat chunk_off) v) kv
                   else (True, kv))
              | None \<Rightarrow> (True, kv)
         else (True, snd (kv_remove key kv)))"

function resize_loop ::
  "u64 \<Rightarrow> int \<Rightarrow> int \<Rightarrow> int \<Rightarrow> int \<Rightarrow> int \<Rightarrow> int \<Rightarrow> Status \<Rightarrow> kvs \<Rightarrow> Status \<times> kvs" where
  "resize_loop handle new_size csz init first_chunk last_chunk chunk status kv =
     (if chunk > last_chunk then (status, kv)
      else let (ok, kv) = resize_step handle new_size csz init first_chunk chunk kv
           in resize_loop handle new_size csz init first_chunk last_chunk (chunk + 1)
                (if ok then status else STATUS_INTERNAL_ERROR) kv)"
  by pat_completeness auto
termination
  by (relation "measure (\<lambda>(_, _, _, _, _, last_chunk, chunk, _, _). nat (last_chunk + 1 - chunk))") auto

declare resize_loop.simps [simp del]

definition ResizeData :: "int \<Rightarrow> int \<Rightarrow> int \<Rightarrow> int \<Rightarrow> fstate \<Rightarrow> (Status \<times> fstate) outcome" where
  "ResizeData new_size old_size file_chunk_size file_initial_size = (\<lambda>(this, kv).
     if new_size < old_size
     then if file_chunk_size = 0 then Undef
       else let first_chunk = cquot (new_size - file_initial_size) file_chunk_size;
                last_byte = old_size - 1
            in expect (last_byte \<ge> 0)
                 (let last_chunk = cquot (last_byte - file_initial_size) file_chunk_size;
                      (status, kv) = resize_loop (f_handle this) new_size file_chunk_size
                        file_initial_size first_chunk last_chunk first_chunk STATUS_OK kv
                  in Val (status, this, kv))
     else Val (STATUS_OK, this, kv))"

definition SetSize :: "env \<Rightarrow> int \<Rightarrow> fstate \<Rightarrow> (Status \<times> fstate) outcome" where
  "SetSize env new_size st =
     obind (file_open st) (\<lambda>(opened, this, kv).
       if \<not> opened then Val (STATUS_INTERNAL_ERROR, this, kv)
       else obind (ResizeData new_size (sint (m_fileTotalSize (f_meta this)))
                     (uint (m_fileChunkSize (f_meta this))) (uint (m_fileInitialSize (f_meta this))) (this, kv))
         (\<lambda>(status, this, kv).
           if status = STATUS_OK
           then let this = upd_meta (\<lambda>m. m\<lparr>m_fileTotalSize := word_of_int new_size,
                         m_mtime := now32 env, m_ctime := now32 env, m_mtimeNsec := 0, m_ctimeNsec := 0\<rparr>)
                       (this\<lparr>f_metaDirty := True\<rparr>);
                    (status, this, kv) = file_flush (this, kv);
                    this = (if status = STATUS_OK then this\<lparr>f_metaDirty := False\<rparr> else this)
                in Val (status, this, kv)
           else Val (status, this, kv)))"

text \<open>
  One chunk of \<^verbatim>\<open>write\<close>: whether the \<^verbatim>\<open>put\<close> succeeded, the number of bytes copied and the store.
  The loop keeps what is left to write at the buffer's pointer and returns the status, the
  offset reached and the store.
\<close>

definition write_do_get :: "LogFSFile \<Rightarrow> int \<Rightarrow> int \<Rightarrow> u64 \<Rightarrow> bool" where
  "write_do_get this chunk_off offset len =
     (if chunk_off = 0
      then (if uint len \<ge> uint (m_fileChunkSize (f_meta this)) then False
            else if offset = sint (m_fileTotalSize (f_meta this)) then False
            else True)
      else True)"

definition write_step ::
  "LogFSFile \<Rightarrow> int \<Rightarrow> int \<Rightarrow> u64 \<Rightarrow> string \<Rightarrow> kvs \<Rightarrow> (bool \<times> int \<times> kvs) outcome" where
  "write_step this chunk offset len write_buf kv =
     (let csz = uint (m_fileChunkSize (f_meta this));
          chunk_base_off = uint (m_fileInitialSize (f_meta this)) + chunk * csz
      in expect (offset \<ge> chunk_base_off)
        (let chunk_off = offset - chunk_base_off;
             key = chunk_key (f_handle this) chunk;
             value = (if write_do_get this chunk_off offset len
                      then (case kv_get key kv of Some v \<Rightarrow> v | None \<Rightarrow> []) else []);
             chunk_end_off = min (offset + sint len) (chunk_base_off + csz);
             copy_bytes = chunk_end_off - offset
         in if copy_bytes > 0
            then if int (length write_buf) < copy_bytes then Undef
              else let value = (if chunk_end_off - chunk_base_off > int (length value)
                                then str_resize (nat (chunk_end_off - chunk_base_off)) value
                                else value);
                       value = str_replace (nat chunk_off) (take (nat copy_bytes) write_buf) value;
                       (ok, kv) = kv_put key value kv
                   in Val (ok, copy_bytes, kv)
            else Val (True, 0, kv)))"

function write_loop ::
  "LogFSFile \<Rightarrow> int \<Rightarrow> int \<Rightarrow> int \<Rightarrow> u64 \<Rightarrow> string \<Rightarrow> kvs \<Rightarrow> (Status \<times> int \<times> kvs) outcome" where
  "write_loop this last_chunk chunk offset len write_buf kv =
     (if chunk > last_chunk then Val (STATUS_OK, offset, kv)
      else obind (write_step this chunk offset len write_buf kv) (\<lambda>(ok, copy_bytes, kv).
             if \<not> ok then Val (STATUS_INTERNAL_ERROR, offset, kv)
             else write_loop this last_chunk (chunk + 1) (offset + copy_bytes)
                    (len - word_of_int copy_bytes) (drop (nat copy_bytes) write_buf) kv))"
  by pat_completeness auto
termination
  by (relation "measure (\<lambda>(_, last_chunk, chunk, _, _, _, _). nat (last_chunk + 1 - chunk))") auto

declare write_loop.simps [simp del]

text \<open>The result carries the status and \<^verbatim>\<open>*actualLen\<close>; \<open>None\<close> is a null buffer.\<close>

definition file_write ::
  "env \<Rightarrow> int \<Rightarrow> u64 \<Rightarrow> string option \<Rightarrow> bool \<Rightarrow> fstate \<Rightarrow> (Status \<times> u64 \<times> fstate) outcome" where
  "file_write env offset len buf update_meta = (\<lambda>(this, kv).
     case buf of
       None \<Rightarrow> Val (STATUS_OK, 0, this, kv)
     | Some write_buf \<Rightarrow>
         let csz = uint (m_fileChunkSize (f_meta this));
             init = uint (m_fileInitialSize (f_meta this))
         in if csz = 0 then Undef
            else
              let first_chunk = cquot (offset - init) csz;
                  end_off = sint (word_of_int offset + len);
                  last_chunk = cquot (end_off - 1 - init) csz
              in obind (write_loop this last_chunk first_chunk offset len write_buf kv)
                (\<lambda>(status, offset', kv).
                  let actualLen = word_of_int (offset' - offset)
                  in if status = STATUS_OK
                     then if update_meta
                       then let this = (if offset' > sint (m_fileTotalSize (f_meta this))
                                        then upd_meta (\<lambda>m. m\<lparr>m_fileTotalSize := word_of_int offset'\<rparr>) this
                                        else this);
                                this = UpdateCTime (now32 env) (UpdateMTime (now32 env) this);
                                (status, this, kv) = file_flush (this\<lparr>f_metaDirty := True\<rparr>, kv)
                            in if status \<noteq> STATUS_OK then Val (status, actualLen, this, kv)
                               else Val (status, actualLen, this\<lparr>f_metaDirty := False\<rparr>, kv)
                       else expect (\<not> offset' > sint (m_fileTotalSize (f_meta this)))
                              (Val (status, actualLen, this, kv))
                     else Val (status, actualLen, this, kv)))"

section \<open>Eviction\<close>

text \<open>
  A restored copy of a file (\<^verbatim>\<open>src/src/tiering/tiered_in_file.{h,cc}\<close>): the file behind a file
  descriptor. What \<^verbatim>\<open>fstat\<close> and \<^verbatim>\<open>pread\<close> answer is left open; \<open>None\<close> is their failure, and
  \<^verbatim>\<open>pread\<close> returns at most the bytes asked for.
\<close>

record TieredInFile =
  tf_inode_num :: u64
  tf_fstat_size :: "int option"
  tf_pread :: "int \<Rightarrow> nat \<Rightarrow> string option"

text \<open>\<^verbatim>\<open>pread\<close> reports an error as \<open>-1\<close>, which the \<^verbatim>\<open>size_t\<close> result turns into the largest value.\<close>

definition TieredInFile_Read :: "TieredInFile \<Rightarrow> int \<Rightarrow> nat \<Rightarrow> u64 \<times> string" where
  "TieredInFile_Read tf offset sz =
     (case tf_pread tf offset sz of
        Some bs \<Rightarrow> (word_of_nat (length (take sz bs)), take sz bs)
      | None \<Rightarrow> (- 1, []))"

definition TieredInFile_Stat :: "TieredInFile \<Rightarrow> (u64 \<times> int) option" where
  "TieredInFile_Stat tf =
     (case tf_fstat_size tf of None \<Rightarrow> None | Some sz \<Rightarrow> Some (tf_inode_num tf, sz))"

lemma write_step_copied: "write_step this chunk offset len buf kv = Val (ok, n, kv') \<Longrightarrow> 0 \<le> n"
  by (auto simp: write_step_def Let_def expect_def split: if_splits prod.splits)

lemma write_loop_offset:
  "write_loop this last_chunk chunk offset len buf kv = Val (status, offset', kv') \<Longrightarrow> offset \<le> offset'"
proof (induction this last_chunk chunk offset len buf kv rule: write_loop.induct)
  case (1 this last_chunk chunk offset len buf kv)
  show ?case
  proof (cases "chunk > last_chunk")
    case True
    with "1.prems" show ?thesis by (simp add: write_loop.simps)
  next
    case False
    with "1.prems" obtain ok n kv1 where step: "write_step this chunk offset len buf kv = Val (ok, n, kv1)"
      "if \<not> ok then offset' = offset
       else write_loop this last_chunk (chunk + 1) (offset + n) (len - word_of_int n) (drop (nat n) buf) kv1
         = Val (status, offset', kv')"
      by (subst (asm) write_loop.simps) (auto simp: obind_Val_iff split: if_splits)
    with "1.IH" [OF False step(1) refl refl] write_step_copied [OF step(1)] show ?thesis
      by (auto split: if_splits)
  qed
qed

lemma file_write_no_meta:
  assumes "file_write env offset len (Some buf) False (this, kv) = Val (STATUS_OK, n, this', kv')"
  shows "this' = this" "\<exists>offset'. offset \<le> offset' \<and> offset' \<le> sint (m_fileTotalSize (f_meta this)) \<and>
    n = word_of_int (offset' - offset)"
  using assms
  by (auto simp: file_write_def Let_def outcome_simps not_less split: if_splits dest: write_loop_offset)

lemma uint_word_of_int_le: "0 \<le> x \<Longrightarrow> uint (word_of_int x :: u64) \<le> x"
  by (simp add: unsigned_of_int take_bit_int_less_eq_self_iff)

function unevict_loop ::
  "env \<Rightarrow> TieredInFile \<Rightarrow> int \<Rightarrow> LogFSFile \<Rightarrow> kvs \<Rightarrow> (Status \<times> int \<times> fstate) outcome" where
  "unevict_loop env tf offset this kv =
     (let (bytes_read, buf) = TieredInFile_Read tf offset 8192
      in if bytes_read = 0 then Val (STATUS_OK, offset, this, kv)
         else obind (file_write env offset bytes_read (Some buf) False (this, kv))
           (\<lambda>(write_status, bytes_written, this, kv).
             if write_status \<noteq> STATUS_OK then Val (write_status, offset, this, kv)
             else expect (bytes_written = bytes_read)
                    (unevict_loop env tf (offset + uint bytes_read) this kv)))"
  by pat_completeness auto
termination
proof (relation "measure (\<lambda>(env, tf, offset, this, kv). nat (sint (m_fileTotalSize (f_meta this)) - offset))",
    goal_cases)
  case (2 env tf offset this kv x n buf y status z written w this' kv')
  then have w: "file_write env offset n (Some buf) False (this, kv) = Val (STATUS_OK, n, this', kv')" "n \<noteq> 0"
    by auto
  obtain offset' where off: "offset \<le> offset'" "offset' \<le> sint (m_fileTotalSize (f_meta this))"
    "n = word_of_int (offset' - offset)" and "this' = this"
    using file_write_no_meta [OF w(1)] by blast
  moreover have "uint n \<le> offset' - offset" unfolding off(3) using off(1) by (intro uint_word_of_int_le) simp
  moreover have "0 < uint n" using w(2) by (simp add: word_neq_0_conv word_less_def)
  ultimately show ?case by simp
qed simp

declare unevict_loop.simps [simp del]

definition UnEvict ::
  "env \<Rightarrow> (u64 \<Rightarrow> TieredInFile option) \<Rightarrow> fstate \<Rightarrow> (Status \<times> fstate) outcome" where
  "UnEvict env tier_open = (\<lambda>(this, kv).
     case tier_open (m_handle (f_meta this)) of
       None \<Rightarrow> Val (STATUS_OBJECT_DOESNT_EXIST, this, kv)
     | Some tf \<Rightarrow>
         obind (of_option (TieredInFile_Stat tf)) (\<lambda>(ino, sz).
           expect (ino = m_handle (f_meta this))
             (expect (sint (m_fileTotalSize (f_meta this)) = sz)
               (obind (unevict_loop env tf 0 this kv) (\<lambda>(status, offset, this, kv).
                  if status = STATUS_OK
                  then expect (offset = sz)
                    (let this = upd_meta (\<lambda>m. m\<lparr>m_evictionState := ES_RESIDENT\<rparr>) this;
                         (_, this, kv) = file_flush (this, kv)
                     in Val (status, this, kv))
                  else Val (status, this, kv))))))"

text \<open>\<^verbatim>\<open>HoldData\<close> does not look at the status that \<^verbatim>\<open>UnEvict\<close> returns.\<close>

definition HoldData :: "env \<Rightarrow> (u64 \<Rightarrow> TieredInFile option) \<Rightarrow> fstate \<Rightarrow> fstate outcome" where
  "HoldData env tier_open = (\<lambda>(this, kv).
     let this = this\<lparr>f_data_hold_count := f_data_hold_count this + 1\<rparr>
     in if m_evictionState (f_meta this) \<noteq> ES_RESIDENT
        then expect (m_evictionState (f_meta this) = ES_DATA_EVICTED)
          (obind (UnEvict env tier_open (this, kv)) (\<lambda>(_, st). Val st))
        else Val (this, kv))"

definition ReleaseData :: "LogFSFile \<Rightarrow> LogFSFile" where
  "ReleaseData this = this\<lparr>f_data_hold_count := f_data_hold_count this - 1\<rparr>"

text \<open>
  One chunk of \<^verbatim>\<open>read\<close> and the loop: \<open>out\<close> is what has been stored at the caller's buffer so far;
  the result of the loop is the length left and the bytes stored.
\<close>

definition read_step ::
  "LogFSFile \<Rightarrow> kvs \<Rightarrow> int \<Rightarrow> int \<Rightarrow> u64 \<Rightarrow> string \<Rightarrow> (int \<times> u64 \<times> string) outcome" where
  "read_step this kv chunk offset len out =
     (let csz = uint (m_fileChunkSize (f_meta this));
          chunk_base_off = uint (m_fileInitialSize (f_meta this)) + chunk * csz;
          value = (case kv_get (chunk_key (f_handle this) chunk) kv of Some v \<Rightarrow> v | None \<Rightarrow> [])
      in expect (offset \<ge> chunk_base_off)
        (let chunk_off = offset - chunk_base_off;
             avail_bytes = int (length value) - chunk_off;
             copy_bytes = min avail_bytes (sint len);
             (offset, len, out) =
               (if copy_bytes > 0
                then (offset + copy_bytes, len - word_of_int copy_bytes,
                      out @ take (nat copy_bytes) (drop (nat chunk_off) value))
                else (offset, len, out))
         in if len > 0
            then let next_chunk_base_off = chunk_base_off + csz;
                     zero_bytes = min len (word_of_int (next_chunk_base_off - offset))
                 in Val (offset + uint zero_bytes, len - zero_bytes,
                         out @ replicate (unat zero_bytes) NUL)
            else Val (offset, len, out)))"

function read_loop ::
  "LogFSFile \<Rightarrow> kvs \<Rightarrow> int \<Rightarrow> int \<Rightarrow> int \<Rightarrow> u64 \<Rightarrow> string \<Rightarrow> (u64 \<times> string) outcome" where
  "read_loop this kv last_chunk chunk offset len out =
     (if chunk > last_chunk then Val (len, out)
      else obind (read_step this kv chunk offset len out) (\<lambda>(offset, len, out).
             read_loop this kv last_chunk (chunk + 1) offset len out))"
  by pat_completeness auto
termination
  by (relation "measure (\<lambda>(_, _, last_chunk, chunk, _, _, _). nat (last_chunk + 1 - chunk))") auto

declare read_loop.simps [simp del]

text \<open>
  The result: status, \<^verbatim>\<open>*actualLen\<close> and the bytes stored at the caller's buffer, from its first
  byte on. \<open>has_buf\<close> is false for a null buffer.
\<close>

definition file_read ::
  "env \<Rightarrow> (u64 \<Rightarrow> TieredInFile option) \<Rightarrow> int \<Rightarrow> u64 \<Rightarrow> bool \<Rightarrow> fstate \<Rightarrow>
   (Status \<times> u64 \<times> string \<times> fstate) outcome" where
  "file_read env tier_open offset len has_buf = (\<lambda>(this, kv).
     if \<not> has_buf then Val (STATUS_OK, 0, [], this, kv)
     else
       let orig_length = (if offset + sint len > sint (m_fileTotalSize (f_meta this))
                          then m_fileTotalSize (f_meta this) - word_of_int offset else len);
           len = orig_length
       in obind (HoldData env tier_open (this, kv)) (\<lambda>(this, kv).
            obind (if uint len > uint (m_fileInitialSize (f_meta this))
                   then if m_fileChunkSize (f_meta this) = 0 then Undef
                     else let csz = uint (m_fileChunkSize (f_meta this));
                              init = m_fileInitialSize (f_meta this);
                              first_chunk = cquot (offset - uint init) csz;
                              last_byte_off = offset + sint (len - 1 - ucast init);
                              last_chunk = cquot last_byte_off csz
                          in read_loop this kv last_chunk first_chunk offset len []
                   else Val (len, []))
              (\<lambda>(len', out). Val (STATUS_OK, orig_length - len', out, ReleaseData this, kv))))"

definition file_close :: "env \<Rightarrow> fstate \<Rightarrow> (Status \<times> fstate) outcome" where
  "file_close env = (\<lambda>(this, kv).
     if m_nLink (f_meta this) \<le> 0
     then obind (SetSize env 0 (this, kv)) (\<lambda>(_, st). Val (STATUS_OK, RemoveInodeFromKvs st))
     else Val (STATUS_OK, this, kv))"

definition Evict :: "stat_buf \<Rightarrow> fstate \<Rightarrow> (Status \<times> fstate) outcome" where
  "Evict uninit st =
     obind (file_stat uninit st) (\<lambda>(status, stat, this, kv).
       if status = STATUS_OK
       then obind (ResizeData 0 (st_size stat) (uint (m_fileChunkSize (f_meta this)))
                     (uint (m_fileInitialSize (f_meta this))) (this, kv))
              (\<lambda>(status, this, kv).
                let this = upd_meta (\<lambda>m. m\<lparr>m_evictionState := ES_DATA_EVICTED\<rparr>) (this\<lparr>f_metaDirty := True\<rparr>);
                    (_, this, kv) = file_flush (this, kv)
                in Val (status, this, kv))
       else Val (status, this, kv))"

end
