(* ===== verification/FileData.thy ===== *)
theory FileData
  imports File
begin

text \<open>
  The data path of a file: what \<^verbatim>\<open>read\<close>, \<^verbatim>\<open>write\<close>, \<^verbatim>\<open>SetSize\<close>, \<^verbatim>\<open>Evict\<close> and \<^verbatim>\<open>UnEvict\<close> do to the
  contents of a file, where the contents are the bytes a reader sees: the chunks in the store
  laid end to end, a missing or short chunk read as NUL bytes, up to the file's size.
\<close>

section \<open>Words of small value\<close>

lemma sint_small: "unat (w :: u64) < 2 ^ 63 \<Longrightarrow> sint w = int (unat w)"
proof -
  assume "unat w < 2 ^ 63"
  then have "uint w < 2 ^ 63"
    using of_nat_less_iff [where 'a = int, of "unat w" "2 ^ 63"] by simp
  moreover have "0 \<le> uint w" by simp
  ultimately have "signed_take_bit 63 (uint w) = uint w"
    by (intro signed_take_bit_int_eq_self) linarith+
  then show ?thesis by (simp add: sint_uint)
qed

lemma unat_of_small: "n < 2 ^ 63 \<Longrightarrow> unat (word_of_nat n :: u64) = n"
  by (simp add: unsigned_of_nat take_bit_nat_eq_self)

lemma sint_of_small: "n < 2 ^ 63 \<Longrightarrow> sint (word_of_nat n :: u64) = int n"
  using sint_small [of "word_of_nat n"] by (simp only: unat_of_small)

lemma uint_of_small: "n < 2 ^ 63 \<Longrightarrow> uint (word_of_nat n :: u64) = int n"
  using unat_of_small [of n] by (metis of_nat_unat)

lemma word_diff_small: "k \<le> n \<Longrightarrow> (word_of_nat n :: u64) - word_of_int (int k) = word_of_nat (n - k)"
  by simp

lemma word_pos_small: "n < 2 ^ 63 \<Longrightarrow> (0 :: u64) < word_of_nat n \<longleftrightarrow> 0 < n"
  by (simp add: word_less_nat_alt unat_of_small)

lemma word_min_small:
  "m < 2 ^ 63 \<Longrightarrow> n < 2 ^ 63 \<Longrightarrow> min (word_of_nat m :: u64) (word_of_nat n) = word_of_nat (min m n)"
  by (simp add: min_def word_le_nat_alt unat_of_small)

section \<open>The contents of a file\<close>

definition chunk_val :: "kvs \<Rightarrow> u64 \<Rightarrow> nat \<Rightarrow> string" where
  "chunk_val kv h c = (case kv_data kv (chunk_key h (int c)) of Some v \<Rightarrow> v | None \<Rightarrow> [])"

definition fbyte :: "kvs \<Rightarrow> u64 \<Rightarrow> nat \<Rightarrow> nat \<Rightarrow> char" where
  "fbyte kv h csz i = byte_at (chunk_val kv h (i div csz)) (i mod csz)"

definition f_size :: "LogFSFile \<Rightarrow> nat" where
  "f_size this = unat (m_fileTotalSize (f_meta this))"

definition f_csz :: "LogFSFile \<Rightarrow> nat" where
  "f_csz this = unat (m_fileChunkSize (f_meta this))"

definition content :: "fstate \<Rightarrow> string" where
  "content = (\<lambda>(this, kv). map (fbyte kv (f_handle this) (f_csz this)) [0..<f_size this])"

text \<open>
  The bytes a file stores do not reach beyond a limit: every chunk fits its slot and ends at
  or before byte \<open>lim\<close> of the file.
\<close>

definition chunks_within :: "kvs \<Rightarrow> u64 \<Rightarrow> nat \<Rightarrow> nat \<Rightarrow> bool" where
  "chunks_within kv h csz lim \<longleftrightarrow>
     (\<forall>c < 2 ^ 63. length (chunk_val kv h c) \<le> csz \<and>
        (chunk_val kv h c \<noteq> [] \<longrightarrow> c * csz + length (chunk_val kv h c) \<le> lim))"

definition data_inv :: "fstate \<Rightarrow> bool" where
  "data_inv = (\<lambda>(this, kv).
     reliable kv \<and> m_fileInitialSize (f_meta this) = 0 \<and> 0 < f_csz this \<and> f_size this < 2 ^ 63 \<and>
     chunks_within kv (f_handle this) (f_csz this) (f_size this))"

text \<open>The inode in the store is the object's metadata.\<close>

definition inode_inv :: "fstate \<Rightarrow> bool" where
  "inode_inv = (\<lambda>(this, kv).
     meta_wf (f_meta this) \<and> m_fsId (f_meta this) = f_fsId this \<and> m_handle (f_meta this) = f_handle this \<and>
     kv_data kv (inode_key (f_handle this)) = Some (meta_encode (f_meta this)))"

lemma uint_f [simp]:
  "uint (m_fileChunkSize (f_meta this)) = int (f_csz this)" "uint (m_fileTotalSize (f_meta this)) = int (f_size this)"
  by (simp_all add: f_csz_def f_size_def)

lemma sint_f_size: "f_size this < 2 ^ 63 \<Longrightarrow> sint (m_fileTotalSize (f_meta this)) = int (f_size this)"
  unfolding f_size_def by (rule sint_small)

lemma div_mod_chunk: "c * k \<le> i \<Longrightarrow> i < c * k + k \<Longrightarrow> i div k = c \<and> i mod k = i - c * k" for i :: nat
proof -
  assume "c * k \<le> i" "i < c * k + k"
  then have "i div k = c" by (intro div_nat_eqI) (simp_all add: mult.commute)
  then show ?thesis by (metis minus_div_mult_eq_mod)
qed

lemma mod_bound: "i div k * k + l \<le> i \<Longrightarrow> l \<le> i mod k" for i :: nat
  by (metis add_le_cancel_left div_mult_mod_eq)

lemma fbyte_in_chunk:
  "c * csz \<le> i \<Longrightarrow> i < c * csz + csz \<Longrightarrow> fbyte kv h csz i = byte_at (chunk_val kv h c) (i - c * csz)"
  by (simp add: fbyte_def div_mod_chunk)

text \<open>Beyond the limit every byte reads as NUL.\<close>

lemma fbyte_beyond:
  assumes "chunks_within kv h csz lim" "lim \<le> i" "i < 2 ^ 63" "0 < csz"
  shows "fbyte kv h csz i = NUL"
proof -
  let ?v = "chunk_val kv h (i div csz)"
  have "i div csz < 2 ^ 63" using assms(3) by (metis div_le_dividend le_less_trans)
  then have "?v \<noteq> [] \<Longrightarrow> i div csz * csz + length ?v \<le> lim"
    using assms(1) by (simp add: chunks_within_def)
  then have "length ?v \<le> i mod csz" using assms(2) by (cases "?v = []") (auto intro: mod_bound)
  then show ?thesis by (simp add: fbyte_def byte_at_def)
qed

section \<open>Reading\<close>

lemma map_upt_append: "map f [a..<a + m] @ map f [a + m..<a + m + n] = map f [a..<a + (m + n)]"
  by (metis add.assoc map_append upt_add_eq_append le_add1)

lemma read_bytes:
  assumes "co + k \<le> csz" "length v \<le> csz"
  shows "take (min (length v - co) k) (drop co v) @ replicate (k - (length v - co)) NUL
    = map (byte_at v) [co..<co + k]"
proof (rule nth_equalityI)
  fix i assume "i < length (take (min (length v - co) k) (drop co v) @ replicate (k - (length v - co)) NUL)"
  then show "(take (min (length v - co) k) (drop co v) @ replicate (k - (length v - co)) NUL) ! i =
    map (byte_at v) [co..<co + k] ! i"
    by (auto simp: nth_append byte_at_def min_def split: if_splits)
qed auto

lemma chunk_val_get:
  "reliable kv \<Longrightarrow> (case kv_get (chunk_key h (int c)) kv of Some v \<Rightarrow> v | None \<Rightarrow> []) = chunk_val kv h c"
  by (simp add: kv_simps chunk_val_def)

lemma f_csz_bound: "f_csz this < 2 ^ 32"
  using unat_bound [of "m_fileChunkSize (f_meta this)"] by (simp add: f_csz_def)

lemma map_fbyte_chunk:
  assumes "c * csz \<le> o1" "o1 + k \<le> c * csz + csz"
  shows "map (fbyte kv h csz) [o1..<o1 + k] = map (byte_at (chunk_val kv h c)) [o1 - c * csz..<o1 - c * csz + k]"
  by (rule nth_equalityI) (use assms in \<open>auto simp: fbyte_in_chunk\<close>)

lemma read_step_spec:
  assumes "reliable kv" "m_fileInitialSize (f_meta this) = 0" "length (chunk_val kv (f_handle this) c) \<le> f_csz this"
    and "c * f_csz this \<le> o1" "o1 < c * f_csz this + f_csz this" "0 < n" "n < 2 ^ 63"
    and k: "k = min n (c * f_csz this + f_csz this - o1)"
  shows "read_step this kv (int c) (int o1) (word_of_nat n) out =
    Val (int (o1 + k), word_of_nat (n - k), out @ map (fbyte kv (f_handle this) (f_csz this)) [o1..<o1 + k])"
proof -
  let ?v = "chunk_val kv (f_handle this) c" and ?csz = "f_csz this"
  define co where "co = o1 - c * ?csz"
  define m where "m = min (length ?v - co) n"
  have co: "int o1 - int c * int ?csz = int co" "co < ?csz" "int c * int ?csz + int ?csz - int o1 = int (?csz - co)"
    using assms(4,5) by (simp_all add: co_def of_nat_diff flip: of_nat_mult of_nat_add)
  have base: "int c * int ?csz \<le> int o1" using assms(4) by (simp flip: of_nat_mult)
  have csz: "?csz < 2 ^ 63" using f_csz_bound [of this] by simp
  have copied: "(if min (int (length ?v) - int co) (int n) > 0
      then (int o1 + min (int (length ?v) - int co) (int n),
            (word_of_nat n :: u64) - word_of_int (min (int (length ?v) - int co) (int n)),
            out @ take (nat (min (int (length ?v) - int co) (int n))) (drop co ?v))
      else (int o1, word_of_nat n, out)) =
    (int (o1 + m), word_of_nat (n - m), out @ take m (drop co ?v))"
    using assms(6) by (auto simp: m_def min_def of_nat_diff not_less)
  have zero: "min (word_of_nat (n - m) :: u64) (word_of_int (int c * int ?csz + int ?csz - int (o1 + m)))
      = word_of_nat (k - m)"
  proof -
    have "int c * int ?csz + int ?csz - int (o1 + m) = int (?csz - co - m)"
      using co assms(3) by (simp add: m_def)
    moreover have "min (n - m) (?csz - co - m) = k - m"
      using assms(4,5) by (simp add: k co_def min_def add.commute)
    ultimately show ?thesis
      using csz assms(7) by (simp add: word_min_small)
  qed
  have k': "k = min n (?csz - co)" using assms(4) by (simp add: k co_def add.commute)
  have "m \<le> k" using assms(3) by (simp add: m_def k' min_le_iff_disj diff_le_mono)
  have "k \<le> n" "co + k \<le> ?csz" using co(2) by (simp_all add: k')
  have "take m (drop co ?v) @ replicate (k - m) NUL = map (byte_at ?v) [co..<co + k]"
    using read_bytes [OF \<open>co + k \<le> ?csz\<close> assms(3)] \<open>m \<le> k\<close> \<open>k \<le> n\<close> by (simp add: m_def min_def split: if_splits)
  also have "\<dots> = map (fbyte kv (f_handle this) ?csz) [o1..<o1 + k]"
    using map_fbyte_chunk [of c ?csz o1 k] assms(4) \<open>co + k \<le> ?csz\<close> by (simp add: co_def)
  finally have bytes: "take m (drop co ?v) @ replicate (k - m) NUL =
    map (fbyte kv (f_handle this) ?csz) [o1..<o1 + k]" .
  have "read_step this kv (int c) (int o1) (word_of_nat n) out =
    (if (0 :: u64) < word_of_nat (n - m)
     then Val (int (o1 + m) + uint (word_of_nat (k - m) :: u64),
       word_of_nat (n - m) - word_of_nat (k - m),
       (out @ take m (drop co ?v)) @ replicate (unat (word_of_nat (k - m) :: u64)) NUL)
     else Val (int (o1 + m), word_of_nat (n - m), out @ take m (drop co ?v)))"
    using base
    by (simp only: read_step_def Let_def chunk_val_get [OF assms(1)] assms(2) unsigned_0 add_0 uint_f(1)
        sint_of_small [OF assms(7)] co(1) nat_int copied prod.case zero expect_simps)
  moreover have "(word_of_nat (n - m) :: u64) - word_of_nat (k - m) = word_of_nat (n - k)"
    using \<open>m \<le> k\<close> \<open>k \<le> n\<close> by simp
  ultimately show ?thesis
    using assms(7) bytes [symmetric] \<open>m \<le> k\<close> \<open>k \<le> n\<close>
    by (auto simp: word_pos_small unat_of_small uint_of_small simp del: of_nat_diff)
qed

text \<open>How a range splits at the end of its first chunk.\<close>

lemma chunk_split:
  fixes o1 n csz :: nat
  assumes "0 < csz" "0 < n"
  defines "c \<equiv> o1 div csz" and "k \<equiv> min n (o1 div csz * csz + csz - o1)"
  shows "c * csz \<le> o1" "o1 < c * csz + csz" "0 < k" "k \<le> n" "o1 + k \<le> c * csz + csz"
    and "k = n \<Longrightarrow> (o1 + n - 1) div csz = c"
    and "k \<noteq> n \<Longrightarrow> (o1 + k) div csz = c + 1 \<and> o1 + k = (c + 1) * csz"
    and "c \<le> (o1 + n - 1) div csz"
proof -
  show c: "c * csz \<le> o1" "o1 < c * csz + csz"
    using dividend_less_div_times [OF assms(1), of o1] by (simp_all add: c_def add.commute)
  then show k: "0 < k" "k \<le> n" "o1 + k \<le> c * csz + csz"
    using assms(2) by (auto simp: k_def c_def)
  show "(o1 + n - 1) div csz = c" if "k = n"
    using that c k assms(2) div_mod_chunk [of c csz "o1 + n - 1"] by linarith
  show "(o1 + k) div csz = c + 1 \<and> o1 + k = (c + 1) * csz" if "k \<noteq> n"
  proof -
    have "o1 + k = (c + 1) * csz" using that c by (simp add: k_def c_def min_def split: if_splits)
    then show ?thesis using assms(1) by simp
  qed
  show "c \<le> (o1 + n - 1) div csz"
    unfolding c_def using assms(2) by (intro div_le_mono) simp
qed

lemma read_loop_spec:
  assumes "reliable kv" "m_fileInitialSize (f_meta this) = 0" "0 < f_csz this"
    and "chunks_within kv (f_handle this) (f_csz this) lim"
  shows "0 < n \<Longrightarrow> o1 + n < 2 ^ 63 \<Longrightarrow>
    read_loop this kv (int ((o1 + n - 1) div f_csz this)) (int (o1 div f_csz this)) (int o1) (word_of_nat n) out
    = Val (0, out @ map (fbyte kv (f_handle this) (f_csz this)) [o1..<o1 + n])"
proof (induction n arbitrary: o1 out rule: less_induct)
  case (less n)
  let ?csz = "f_csz this" and ?c = "o1 div f_csz this"
  define k where "k = min n (?c * ?csz + ?csz - o1)"
  note split = chunk_split [OF assms(3) less.prems(1), of o1, folded k_def]
  have "?c < 2 ^ 63" using less.prems(2) by (metis add_lessD1 div_le_dividend le_less_trans)
  then have "length (chunk_val kv (f_handle this) ?c) \<le> ?csz"
    using assms(4) by (simp add: chunks_within_def)
  then have step: "read_step this kv (int ?c) (int o1) (word_of_nat n) out =
    Val (int (o1 + k), word_of_nat (n - k), out @ map (fbyte kv (f_handle this) ?csz) [o1..<o1 + k])"
    using read_step_spec [OF assms(1,2) _ split(1,2) less.prems(1) _ k_def] less.prems by simp
  have unfold: "read_loop this kv (int ((o1 + n - 1) div ?csz)) (int ?c) (int o1) (word_of_nat n) out =
    read_loop this kv (int ((o1 + n - 1) div ?csz)) (int (?c + 1)) (int (o1 + k)) (word_of_nat (n - k))
      (out @ map (fbyte kv (f_handle this) ?csz) [o1..<o1 + k])"
    using split(8) step by (subst read_loop.simps) (simp add: add.commute del: of_nat_diff)
  show ?case
  proof (cases "k = n")
    case True
    then show ?thesis using unfold split(6) by (simp add: read_loop.simps)
  next
    case False
    have "read_loop this kv (int ((o1 + k + (n - k) - 1) div ?csz)) (int ((o1 + k) div ?csz)) (int (o1 + k))
        (word_of_nat (n - k)) (out @ map (fbyte kv (f_handle this) ?csz) [o1..<o1 + k])
      = Val (0, (out @ map (fbyte kv (f_handle this) ?csz) [o1..<o1 + k]) @
          map (fbyte kv (f_handle this) ?csz) [o1 + k..<o1 + k + (n - k)])"
      using False split(3,4) less.prems by (intro less.IH) auto
    moreover have eq: "o1 + k + (n - k) = o1 + n" using split(4) by simp
    moreover have cat: "map (fbyte kv (f_handle this) ?csz) [o1..<o1 + k] @
        map (fbyte kv (f_handle this) ?csz) [o1 + k..<o1 + n] = map (fbyte kv (f_handle this) ?csz) [o1..<o1 + n]"
      using split(4) by (metis map_append upt_add_eq_append le_add1 le_add_diff_inverse add.assoc)
    moreover have d: "(o1 + k) div ?csz = ?c + 1" by (rule conjunct1 [OF split(7) [OF False]])
    ultimately show ?thesis by (simp only: unfold d eq append_assoc cat)
  qed
qed

lemma HoldData_resident:
  "m_evictionState (f_meta this) = ES_RESIDENT \<Longrightarrow>
   HoldData env tier (this, kv) = Val (this\<lparr>f_data_hold_count := f_data_hold_count this + 1\<rparr>, kv)"
  by (simp add: HoldData_def)

lemma data_inv_hold [simp]:
  "data_inv (this\<lparr>f_data_hold_count := n\<rparr>, kv) = data_inv (this, kv)"
  "f_size (this\<lparr>f_data_hold_count := n\<rparr>) = f_size this" "f_csz (this\<lparr>f_data_hold_count := n\<rparr>) = f_csz this"
  by (simp_all add: data_inv_def f_size_def f_csz_def)

lemma ReleaseData_hold: "ReleaseData (this\<lparr>f_data_hold_count := f_data_hold_count this + 1\<rparr>) = this"
  by (simp add: ReleaseData_def)

lemma length_content [simp]: "length (content (this, kv)) = f_size this"
  by (simp add: content_def)

lemma take_drop_content:
  "off \<le> f_size this \<Longrightarrow> take n (drop off (content (this, kv))) =
   map (fbyte kv (f_handle this) (f_csz this)) [off..<off + min n (f_size this - off)]"
  by (cases "n \<le> f_size this - off") (simp_all add: content_def drop_map take_map min_def)

lemma file_read_held:
  assumes inv: "data_inv (this, kv)"
    and hold: "HoldData env tier (this, kv) = Val (this\<lparr>f_data_hold_count := f_data_hold_count this + 1\<rparr>, kv)"
    and off: "off \<le> f_size this" "off + unat len < 2 ^ 63"
  shows "file_read env tier (int off) len True (this, kv) =
    Val (STATUS_OK, word_of_nat (length (take (unat len) (drop off (content (this, kv))))),
      take (unat len) (drop off (content (this, kv))), this, kv)"
proof -
  let ?held = "this\<lparr>f_data_hold_count := f_data_hold_count this + 1\<rparr>"
  define n where "n = min (unat len) (f_size this - off)"
  have I: "reliable kv" "m_fileInitialSize (f_meta this) = 0" "0 < f_csz this" "f_size this < 2 ^ 63"
    "chunks_within kv (f_handle this) (f_csz this) (f_size this)"
    using inv by (simp_all add: data_inv_def)
  have n: "n < 2 ^ 63" "off + n < 2 ^ 63" "n \<le> f_size this - off" using off by (auto simp: n_def)
  have cond: "int off + sint len > sint (m_fileTotalSize (f_meta this)) \<longleftrightarrow> off + unat len > f_size this"
    using sint_f_size [OF I(4)] sint_small [of len] off(2) by linarith
  have limit: "(if int off + sint len > sint (m_fileTotalSize (f_meta this))
      then m_fileTotalSize (f_meta this) - word_of_int (int off) else len) = word_of_nat n"
    unfolding cond using off(1) by (auto simp: n_def min_def f_size_def)
  have loop: "(if uint (word_of_nat n :: u64) > uint (m_fileInitialSize (f_meta ?held))
       then if m_fileChunkSize (f_meta ?held) = 0 then Undef
         else read_loop ?held kv
           (cquot (int off + sint ((word_of_nat n :: u64) - 1 - ucast (m_fileInitialSize (f_meta ?held)))) (int (f_csz this)))
           (cquot (int off - uint (m_fileInitialSize (f_meta ?held))) (int (f_csz this)))
           (int off) (word_of_nat n) []
       else Val (word_of_nat n, [])) =
     Val (0 :: u64, map (fbyte kv (f_handle this) (f_csz this)) [off..<off + n])"
  proof (cases "n = 0")
    case False
    have "m_fileChunkSize (f_meta this) \<noteq> 0" using I(3) by (auto simp: f_csz_def)
    moreover have "cquot (int off + sint ((word_of_nat n :: u64) - 1)) (int (f_csz this)) =
        int ((off + n - 1) div f_csz this)"
    proof -
      have "int off + sint ((word_of_nat n :: u64) - 1) = int (off + n - 1)"
        using False n(1) sint_of_small [of "n - 1"] by simp
      then show ?thesis using I(3) by (simp only: cquot_nonneg of_nat_0_le_iff of_nat_0_less_iff zdiv_int)
    qed
    moreover have "cquot (int off) (int (f_csz this)) = int (off div f_csz this)"
      using I(3) by (simp add: zdiv_int)
    ultimately show ?thesis
      using False n I read_loop_spec [of kv ?held "f_size this" n off "[]"]
      by (simp add: uint_of_small del: cquot_nonneg)
  qed (use I in simp)
  have "file_read env tier (int off) len True (this, kv) =
    Val (STATUS_OK, word_of_nat n - 0, map (fbyte kv (f_handle this) (f_csz this)) [off..<off + n], this, kv)"
    by (simp only: file_read_def prod.case not_True_eq_False if_False Let_def limit
        hold obind.simps uint_f(1) data_inv_hold(3) loop ReleaseData_hold)
  then show ?thesis
    using off(1) by (simp add: take_drop_content n_def)
qed

lemmas file_read_spec = file_read_held [OF _ HoldData_resident]

section \<open>Writing\<close>

text \<open>Writing bytes over a value, lengthened with NUL bytes where it is too short.\<close>

definition overlay :: "nat \<Rightarrow> string \<Rightarrow> string \<Rightarrow> string" where
  "overlay co bs v = str_replace co bs (if co + length bs > length v then str_resize (co + length bs) v else v)"

lemma length_overlay [simp]: "length (overlay co bs v) = max (length v) (co + length bs)"
  by (simp add: overlay_def max_def)

lemma byte_at_overlay:
  "byte_at (overlay co bs v) i = (if co \<le> i \<and> i < co + length bs then bs ! (i - co) else byte_at v i)"
  by (auto simp: overlay_def byte_at_replace byte_at_resize) (auto simp: byte_at_def)

lemma byte_at_ge: "length v \<le> i \<Longrightarrow> byte_at v i = NUL"
  by (simp add: byte_at_def)

lemma write_step_spec:
  assumes "reliable kv" "m_fileInitialSize (f_meta this) = 0" "length (chunk_val kv (f_handle this) c) \<le> f_csz this"
    and "c * f_csz this \<le> o1" "o1 < c * f_csz this + f_csz this" "0 < n" "n < 2 ^ 63" "n \<le> length buf"
    and "f_size this < 2 ^ 63" "o1 = f_size this \<Longrightarrow> o1 = c * f_csz this \<Longrightarrow> chunk_val kv (f_handle this) c = []"
    and k: "k = min n (c * f_csz this + f_csz this - o1)"
  obtains v' where "write_step this (int c) (int o1) (word_of_nat n) buf kv =
      Val (True, int k, kv\<lparr>kv_data := (kv_data kv)(chunk_key (f_handle this) (int c) := Some v')\<rparr>)"
    "length v' = max (length (chunk_val kv (f_handle this) c)) (o1 - c * f_csz this + k)"
    "\<And>i. byte_at v' i = (if o1 - c * f_csz this \<le> i \<and> i < o1 - c * f_csz this + k then buf ! (i - (o1 - c * f_csz this))
       else byte_at (chunk_val kv (f_handle this) c) i)"
proof -
  let ?v = "chunk_val kv (f_handle this) c" and ?csz = "f_csz this"
  define co where "co = o1 - c * ?csz"
  have co: "int o1 - int c * int ?csz = int co" "co < ?csz" and base: "int c * int ?csz \<le> int o1"
    using assms(4,5) by (simp_all add: co_def of_nat_diff flip: of_nat_mult of_nat_add)
  have k': "k = min n (?csz - co)" using assms(4) by (simp add: k co_def add.commute)
  have kb: "0 < k" "k \<le> length buf" "co + k \<le> ?csz" using assms(6,8) co(2) by (simp_all add: k')
  have ik: "int k = min (int n) (int ?csz - int co)" using co(2) unfolding k' by linarith
  have ends: "min (int o1 + int n) (int c * int ?csz + int ?csz) - int o1 = int k"
    "min (int o1 + int n) (int c * int ?csz + int ?csz) - int c * int ?csz = int (co + k)"
    unfolding of_nat_add using co(1) ik by linarith+
  have nb: "(length buf < k) = False" "min (length buf) k = k" using kb by auto
  define get where "get = write_do_get this (int co) (int o1) (word_of_nat n)"
  define v0 where "v0 = (if get then ?v else [])"
  have skip: "?v = [] \<or> co = 0 \<and> k = ?csz" if "\<not> get"
  proof -
    have "co = 0" "?csz \<le> n \<or> o1 = f_size this"
      using that assms(7) by (auto simp: get_def write_do_get_def uint_of_small sint_f_size [OF assms(9)] split: if_splits)
    then show ?thesis using assms(4,10) by (auto simp: k' co_def)
  qed
  have step: "write_step this (int c) (int o1) (word_of_nat n) buf kv =
    Val (True, int k, kv\<lparr>kv_data := (kv_data kv)(chunk_key (f_handle this) (int c) := Some (overlay co (take k buf) v0))\<rparr>)"
    using base kb
    by (simp only: write_step_def Let_def chunk_val_get [OF assms(1)] assms(2) unsigned_0 add_0 uint_f(1)
          sint_of_small [OF assms(7)] co(1) ends expect_simps get_def [symmetric] v0_def [symmetric] nat_int
          kv_put_reliable [OF assms(1)] prod.case of_nat_0_less_iff of_nat_less_iff nb if_False if_True
          overlay_def length_take)
  show thesis
  proof (rule that [OF step])
    show "length (overlay co (take k buf) v0) = max (length ?v) (o1 - c * ?csz + k)"
      using kb skip assms(3) by (auto simp: v0_def co_def [symmetric] min_def max_def)
    show "byte_at (overlay co (take k buf) v0) i = (if o1 - c * ?csz \<le> i \<and> i < o1 - c * ?csz + k
      then buf ! (i - (o1 - c * ?csz)) else byte_at ?v i)" for i
      using kb skip assms(3) unfolding co_def [symmetric]
      by (auto simp: byte_at_overlay v0_def min_def byte_at_ge)
  qed
qed

lemma chunk_val_upd:
  assumes "c < 2 ^ 63" "c' < 2 ^ 63"
  shows "chunk_val (kv\<lparr>kv_data := (kv_data kv)(chunk_key h (int c) := r)\<rparr>) h c' =
    (if c' = c then (case r of Some v \<Rightarrow> v | None \<Rightarrow> []) else chunk_val kv h c')"
proof -
  have "int c < 2 ^ 64" "int c' < 2 ^ 64" using assms by simp_all
  then have "chunk_key h (int c') = chunk_key h (int c) \<longleftrightarrow> c' = c" by (simp add: chunk_key_inject)
  then show ?thesis by (simp add: chunk_val_def)
qed

lemma div_small: "i < 2 ^ 63 \<Longrightarrow> i div k < 2 ^ 63" for i :: nat
  by (metis div_le_dividend le_less_trans)

lemma fbyte_upd:
  assumes "c < 2 ^ 63" "i < 2 ^ 63"
  shows "fbyte (kv\<lparr>kv_data := (kv_data kv)(chunk_key h (int c) := r)\<rparr>) h csz i =
    (if i div csz = c then byte_at (case r of Some v \<Rightarrow> v | None \<Rightarrow> []) (i mod csz) else fbyte kv h csz i)"
  using assms div_small [of i csz] by (simp add: fbyte_def chunk_val_upd)

lemma div_eq_bounds: "i div k = c \<Longrightarrow> 0 < k \<Longrightarrow> c * k \<le> i \<and> i < c * k + k \<and> i mod k = i - c * k" for i :: nat
  using dividend_less_div_times [of k i] by (auto simp: add.commute minus_div_mult_eq_mod)

text \<open>What a loop over the chunks changed: only chunks of this file, and only bytes of a range.\<close>

definition wrote :: "u64 \<Rightarrow> nat \<Rightarrow> nat \<Rightarrow> string \<Rightarrow> kvs \<Rightarrow> kvs \<Rightarrow> bool" where
  "wrote h csz o1 buf kv kv' \<longleftrightarrow>
     (\<forall>i < 2 ^ 63. fbyte kv' h csz i = (if o1 \<le> i \<and> i < o1 + length buf then buf ! (i - o1) else fbyte kv h csz i)) \<and>
     (\<forall>key. (\<forall>c. key \<noteq> chunk_key h (int c)) \<longrightarrow> kv_data kv' key = kv_data kv key)"

lemma write_chunk_effect:
  assumes "chunks_within kv h csz lim" "c < 2 ^ 63" "0 < csz"
    and "c * csz \<le> o1" "o1 + k \<le> c * csz + csz" "0 < k" "k \<le> length buf"
    and "length v' = max (length (chunk_val kv h c)) (o1 - c * csz + k)"
    and "\<And>i. byte_at v' i = (if o1 - c * csz \<le> i \<and> i < o1 - c * csz + k then buf ! (i - (o1 - c * csz))
         else byte_at (chunk_val kv h c) i)"
  defines "kv' \<equiv> kv\<lparr>kv_data := (kv_data kv)(chunk_key h (int c) := Some v')\<rparr>"
  shows "wrote h csz o1 (take k buf) kv kv'" "chunks_within kv' h csz (max lim (o1 + k))"
proof -
  show "wrote h csz o1 (take k buf) kv kv'"
    unfolding wrote_def
  proof (intro conjI allI impI)
    fix i :: nat assume i: "i < 2 ^ 63"
    show "fbyte kv' h csz i = (if o1 \<le> i \<and> i < o1 + length (take k buf) then take k buf ! (i - o1) else fbyte kv h csz i)"
    proof (cases "i div csz = c")
      case True
      note b = div_eq_bounds [OF True assms(3)]
      have "fbyte kv' h csz i = byte_at v' (i - c * csz)"
        using b True assms(2) i by (simp add: kv'_def fbyte_upd)
      moreover have "fbyte kv h csz i = byte_at (chunk_val kv h c) (i - c * csz)"
        using b by (simp add: fbyte_in_chunk)
      ultimately show ?thesis using b assms(4,7) by (auto simp: assms(9))
    next
      case False
      then have "\<not> (o1 \<le> i \<and> i < o1 + k)"
        using div_mod_chunk [of c csz i] assms(4,5) by auto
      then show ?thesis using False assms(2,7) i by (auto simp: kv'_def fbyte_upd)
    qed
  qed (auto simp: kv'_def)
  have "length v' \<le> csz" "c * csz + length v' \<le> max lim (o1 + k)"
    using assms(1,2,4,5,8) by (auto simp: chunks_within_def max_def)
  then show "chunks_within kv' h csz (max lim (o1 + k))"
    using assms(1,2) by (auto simp: chunks_within_def kv'_def chunk_val_upd le_max_iff_disj)
qed

lemma wrote_trans:
  assumes "wrote h csz o1 a kv kv1" "wrote h csz (o1 + length a) b kv1 kv2"
  shows "wrote h csz o1 (a @ b) kv kv2"
  using assms by (auto simp: wrote_def nth_append)

lemma write_loop_spec:
  assumes "m_fileInitialSize (f_meta this) = 0" "0 < f_csz this" "f_size this < 2 ^ 63"
  shows "reliable kv \<Longrightarrow> chunks_within kv (f_handle this) (f_csz this) lim \<Longrightarrow>
    (\<And>c. c < 2 ^ 63 \<Longrightarrow> o1 \<le> c * f_csz this \<Longrightarrow> chunk_val kv (f_handle this) c \<noteq> [] \<Longrightarrow> c * f_csz this < f_size this) \<Longrightarrow>
    n = length buf \<Longrightarrow> 0 < n \<Longrightarrow> o1 + n < 2 ^ 63 \<Longrightarrow>
    \<exists>kv'. write_loop this (int ((o1 + n - 1) div f_csz this)) (int (o1 div f_csz this)) (int o1) (word_of_nat n) buf kv
      = Val (STATUS_OK, int (o1 + n), kv') \<and> reliable kv' \<and>
      wrote (f_handle this) (f_csz this) o1 buf kv kv' \<and>
      chunks_within kv' (f_handle this) (f_csz this) (max lim (o1 + n))"
proof (induction n arbitrary: o1 buf kv lim rule: less_induct)
  case (less n)
  let ?csz = "f_csz this" and ?h = "f_handle this" and ?c = "o1 div f_csz this"
  let ?last = "int ((o1 + n - 1) div ?csz)"
  define k where "k = min n (?c * ?csz + ?csz - o1)"
  note split = chunk_split [OF assms(2) less.prems(5), of o1, folded k_def]
  have c: "?c < 2 ^ 63" using less.prems(6) by (intro div_small) simp
  have v: "length (chunk_val kv ?h ?c) \<le> ?csz" using less.prems(2) c by (simp add: chunks_within_def)
  have fresh: "chunk_val kv ?h ?c = []" if "o1 = f_size this" "o1 = ?c * ?csz"
    using less.prems(3) [OF c] that by fastforce
  obtain v' where step: "write_step this (int ?c) (int o1) (word_of_nat n) buf kv =
      Val (True, int k, kv\<lparr>kv_data := (kv_data kv)(chunk_key ?h (int ?c) := Some v')\<rparr>)"
    and v': "length v' = max (length (chunk_val kv ?h ?c)) (o1 - ?c * ?csz + k)"
    "\<And>i. byte_at v' i = (if o1 - ?c * ?csz \<le> i \<and> i < o1 - ?c * ?csz + k then buf ! (i - (o1 - ?c * ?csz))
       else byte_at (chunk_val kv ?h ?c) i)"
    by (rule write_step_spec [OF less.prems(1) assms(1) v split(1,2) less.prems(5) _ _ assms(3) fresh k_def])
      (use less.prems in auto)
  define kv1 where "kv1 = kv\<lparr>kv_data := (kv_data kv)(chunk_key ?h (int ?c) := Some v')\<rparr>"
  have wrote1: "wrote ?h ?csz o1 (take k buf) kv kv1" "chunks_within kv1 ?h ?csz (max lim (o1 + k))"
    using write_chunk_effect [OF less.prems(2) c assms(2) split(1,5,3) _ v'] split(4) less.prems(4)
    by (simp_all add: kv1_def)
  have rel1: "reliable kv1" using less.prems(1) by (simp add: kv1_def)
  have unfold: "write_loop this ?last (int ?c) (int o1) (word_of_nat n) buf kv =
      write_loop this ?last (int (?c + 1)) (int (o1 + k)) (word_of_nat (n - k)) (drop k buf) kv1"
    using split(4,8) step by (subst write_loop.simps) (simp add: kv1_def add.commute)
  show ?case
  proof (cases "k = n")
    case True
    then have "write_loop this ?last (int ?c) (int o1) (word_of_nat n) buf kv = Val (STATUS_OK, int (o1 + n), kv1)"
      unfolding unfold using True split(6) by (simp add: write_loop.simps)
    then show ?thesis using wrote1 rel1 True less.prems(4) by auto
  next
    case False
    note next_chunk = split(7) [OF False]
    have "\<exists>kv'. write_loop this (int ((o1 + k + (n - k) - 1) div ?csz)) (int ((o1 + k) div ?csz)) (int (o1 + k))
        (word_of_nat (n - k)) (drop k buf) kv1 = Val (STATUS_OK, int (o1 + k + (n - k)), kv') \<and> reliable kv' \<and>
      wrote ?h ?csz (o1 + k) (drop k buf) kv1 kv' \<and>
      chunks_within kv' ?h ?csz (max (max lim (o1 + k)) (o1 + k + (n - k)))"
    proof (rule less.IH)
      fix c' assume c': "c' < 2 ^ 63" "o1 + k \<le> c' * ?csz" "chunk_val kv1 ?h c' \<noteq> []"
      then have "?c \<noteq> c'" using next_chunk assms(2) by auto
      then have "chunk_val kv ?h c' \<noteq> []" using c' c by (simp add: kv1_def chunk_val_upd)
      with less.prems(3) [of c'] c' show "c' * ?csz < f_size this" by simp
    qed (use False split less.prems rel1 wrote1 in auto)
    moreover have "o1 + k + (n - k) = o1 + n" "max (max lim (o1 + k)) (o1 + n) = max lim (o1 + n)"
      using split(4) by auto
    moreover have "take k buf @ drop k buf = buf" "length (take k buf) = k"
      using split(4) less.prems(4) by auto
    ultimately show ?thesis
      unfolding unfold using wrote_trans [OF wrote1(1), of "drop k buf"]
      by (auto simp: conjunct1 [OF next_chunk] simp del: of_nat_add of_nat_diff take_append append_take_drop_id)
  qed
qed

text \<open>A write in terms of the contents: bytes between the end of the file and the offset are NUL.\<close>

definition write_at :: "nat \<Rightarrow> string \<Rightarrow> string \<Rightarrow> string" where
  "write_at off d c = take off c @ replicate (off - length c) NUL @ d @ drop (off + length d) c"

lemma length_write_at [simp]: "length (write_at off d c) = max (length c) (off + length d)"
  by (auto simp: write_at_def max_def)

lemma nth_write_at:
  "i < max (length c) (off + length d) \<Longrightarrow>
   write_at off d c ! i = (if off \<le> i \<and> i < off + length d then d ! (i - off) else byte_at c i)"
  by (auto simp: write_at_def nth_append byte_at_def min_def max_def split: if_splits)

lemma write_loop_empty:
  assumes "m_fileInitialSize (f_meta this) = 0" "lc \<le> int c" "c * f_csz this \<le> o1"
  shows "write_loop this lc (int c) (int o1) 0 buf kv = Val (STATUS_OK, int o1, kv)"
proof (cases "lc < int c")
  case True
  then show ?thesis by (simp add: write_loop.simps)
next
  case False
  have "int c * int (f_csz this) \<le> int o1" using assms(3) by (simp flip: of_nat_mult)
  then have "write_step this (int c) (int o1) 0 buf kv = Val (True, 0, kv)"
    using assms(1) by (simp add: write_step_def Let_def)
  moreover have "write_loop this lc (int c + 1) (int o1) 0 buf kv = Val (STATUS_OK, int o1, kv)"
    using assms(2) by (simp add: write_loop.simps)
  ultimately show ?thesis using False by (subst write_loop.simps) simp
qed

lemma wrote_Nil: "wrote h csz o1 [] kv kv"
  by (auto simp: wrote_def)

lemma cquot_int: "0 < k \<Longrightarrow> cquot (int a) (int k) = int (a div k)"
  by (simp add: zdiv_int)

text \<open>The data loop of a write from its first to its last chunk, the empty write included.\<close>

lemma write_data_spec:
  assumes inv: "data_inv (this, kv)" and small: "off + length buf < 2 ^ 63"
  obtains kv' where
    "write_loop this (cquot (sint (word_of_int (int off) + (word_of_nat (length buf) :: u64)) - 1) (int (f_csz this)))
       (cquot (int off) (int (f_csz this))) (int off) (word_of_nat (length buf)) buf kv
     = Val (STATUS_OK, int (off + length buf), kv')"
    "reliable kv'" "wrote (f_handle this) (f_csz this) off buf kv kv'"
    "chunks_within kv' (f_handle this) (f_csz this) (max (f_size this) (off + length buf))"
proof -
  have I: "reliable kv" "m_fileInitialSize (f_meta this) = 0" "0 < f_csz this" "f_size this < 2 ^ 63"
    "chunks_within kv (f_handle this) (f_csz this) (f_size this)"
    using inv by (simp_all add: data_inv_def)
  have endo: "sint (word_of_int (int off) + (word_of_nat (length buf) :: u64)) = int (off + length buf)"
    using sint_of_small [OF small] by simp
  show thesis
  proof (cases "buf = []")
    case True
    have "cquot (int off - 1) (int (f_csz this)) \<le> int (off div f_csz this)"
    proof (cases off)
      case 0
      then show ?thesis using I(3) by (simp add: cquot_def pos_imp_zdiv_nonneg_iff)
    next
      case (Suc j)
      then have "cquot (int off - 1) (int (f_csz this)) = int (j div f_csz this)"
        using I(3) by (simp add: cquot_int del: cquot_nonneg)
      also have "\<dots> \<le> int (off div f_csz this)" unfolding Suc by (simp add: div_le_mono)
      finally show ?thesis .
    qed
    moreover have "off div f_csz this * f_csz this \<le> off" by simp
    ultimately have "write_loop this (cquot (int off - 1) (int (f_csz this))) (int (off div f_csz this)) (int off) 0 buf kv
        = Val (STATUS_OK, int off, kv)"
      by (rule write_loop_empty [OF I(2)])
    then show thesis
      using True I endo that [of kv] wrote_Nil [of "f_handle this" "f_csz this" off kv]
      by (simp add: cquot_int chunks_within_def le_max_iff_disj del: cquot_nonneg)
  next
    case False
    have fresh: "c * f_csz this < f_size this"
      if "c < 2 ^ 63" "chunk_val kv (f_handle this) c \<noteq> []" for c
      using I(5) that unfolding chunks_within_def by (metis add_leD1 add_le_same_cancel1 le_antisym le_zero_eq length_0_conv linorder_not_le)
    have "cquot (int (off + length buf) - 1) (int (f_csz this)) = int ((off + length buf - 1) div f_csz this)"
      using cquot_int [OF I(3), of "off + length buf - 1"] False by (cases buf) simp_all
    moreover obtain kv' where "write_loop this (int ((off + length buf - 1) div f_csz this))
        (int (off div f_csz this)) (int off) (word_of_nat (length buf)) buf kv
        = Val (STATUS_OK, int (off + length buf), kv')" "reliable kv'"
      "wrote (f_handle this) (f_csz this) off buf kv kv'"
      "chunks_within kv' (f_handle this) (f_csz this) (max (f_size this) (off + length buf))"
      using write_loop_spec [OF I(2,3,4,1,5) fresh refl _ small] False by auto
    ultimately show thesis
      by (intro that [of kv']) (simp_all only: endo cquot_int [OF I(3)])
  qed
qed

lemma flush_ok:
  "reliable kv \<Longrightarrow> m_handle (f_meta this) = f_handle this \<Longrightarrow>
   file_flush (this, kv) = (STATUS_OK, this\<lparr>f_metaDirty := False\<rparr>,
     kv\<lparr>kv_data := (kv_data kv)(inode_key (f_handle this) := Some (meta_encode (f_meta this)))\<rparr>)"
  by (simp add: file_flush_def kv_simps)

text \<open>Writing the inode does not change the data.\<close>

lemma chunk_val_inode [simp]:
  "chunk_val (kv\<lparr>kv_data := (kv_data kv)(inode_key g := r)\<rparr>) h c = chunk_val kv h c"
  by (simp add: chunk_val_def key_simps)

lemma fbyte_inode [simp]:
  "fbyte (kv\<lparr>kv_data := (kv_data kv)(inode_key g := r)\<rparr>) h csz i = fbyte kv h csz i"
  by (simp add: fbyte_def)

lemma chunks_within_inode [simp]:
  "chunks_within (kv\<lparr>kv_data := (kv_data kv)(inode_key g := r)\<rparr>) h csz lim = chunks_within kv h csz lim"
  by (simp add: chunks_within_def)

text \<open>The keys of a file: its inode and its chunks.\<close>

definition file_key :: "u64 \<Rightarrow> string \<Rightarrow> bool" where
  "file_key h k \<longleftrightarrow> k = inode_key h \<or> (\<exists>c. k = chunk_key h (int c))"

definition same_elsewhere :: "u64 \<Rightarrow> kvs \<Rightarrow> kvs \<Rightarrow> bool" where
  "same_elsewhere h kv kv' \<longleftrightarrow> (\<forall>k. \<not> file_key h k \<longrightarrow> kv_data kv' k = kv_data kv k)"

definition same_object :: "LogFSFile \<Rightarrow> LogFSFile \<Rightarrow> bool" where
  "same_object this this' \<longleftrightarrow> f_fsId this' = f_fsId this \<and> f_handle this' = f_handle this \<and>
     m_evictionState (f_meta this') = m_evictionState (f_meta this)"

lemma wrote_elsewhere:
  "wrote h csz o1 buf kv kv' \<Longrightarrow>
   same_elsewhere h kv (kv'\<lparr>kv_data := (kv_data kv')(inode_key h := r)\<rparr>)"
  by (auto simp: wrote_def same_elsewhere_def file_key_def)

text \<open>The metadata a write leaves behind.\<close>

definition grow_size :: "int \<Rightarrow> LogFSFile \<Rightarrow> LogFSFile" where
  "grow_size offset' this =
     (if offset' > sint (m_fileTotalSize (f_meta this))
      then upd_meta (\<lambda>m. m\<lparr>m_fileTotalSize := word_of_int offset'\<rparr>) this else this)"

definition after_write :: "env \<Rightarrow> int \<Rightarrow> LogFSFile \<Rightarrow> LogFSFile" where
  "after_write env offset' this =
     UpdateCTime (now32 env) (UpdateMTime (now32 env) (grow_size offset' this))\<lparr>f_metaDirty := False\<rparr>"

lemma after_write_simps [simp]:
  "f_handle (after_write env e this) = f_handle this" "f_fsId (after_write env e this) = f_fsId this"
  "f_csz (after_write env e this) = f_csz this"
  "m_fileInitialSize (f_meta (after_write env e this)) = m_fileInitialSize (f_meta this)"
  "m_handle (f_meta (after_write env e this)) = m_handle (f_meta this)"
  "m_fsId (f_meta (after_write env e this)) = m_fsId (f_meta this)"
  "m_evictionState (f_meta (after_write env e this)) = m_evictionState (f_meta this)"
  "meta_wf (f_meta (after_write env e this)) = meta_wf (f_meta this)"
  by (simp_all add: after_write_def grow_size_def UpdateCTime_def UpdateMTime_def upd_meta_def f_csz_def meta_wf_def)

lemma f_size_grow:
  assumes "f_size this < 2 ^ 63" "e < 2 ^ 63"
  shows "f_size (grow_size (int e) this) = max (f_size this) e"
proof (cases "f_size this < e")
  case True
  then have "f_size (grow_size (int e) this) = unat (word_of_nat e :: u64)"
    by (simp add: grow_size_def sint_f_size [OF assms(1)] upd_meta_def) (simp add: f_size_def)
  with True assms(2) show ?thesis by (simp only: unat_of_small max_def less_imp_le if_True)
next
  case False
  then show ?thesis by (simp add: grow_size_def sint_f_size [OF assms(1)])
qed

lemma f_size_after_write:
  "f_size this < 2 ^ 63 \<Longrightarrow> e < 2 ^ 63 \<Longrightarrow> f_size (after_write env (int e) this) = max (f_size this) e"
  using f_size_grow [of this e]
  by (simp add: after_write_def UpdateCTime_def UpdateMTime_def upd_meta_def f_size_def)

lemma file_write_result:
  assumes "data_inv (this, kv)" "m_handle (f_meta this) = f_handle this" "reliable kv'"
    and "write_loop this (cquot (sint (word_of_int (int off) + len) - 1) (int (f_csz this)))
       (cquot (int off) (int (f_csz this))) (int off) len buf kv = Val (STATUS_OK, int (off + n), kv')"
  shows "file_write env (int off) len (Some buf) True (this, kv) =
    Val (STATUS_OK, word_of_nat n, after_write env (int (off + n)) this,
      kv'\<lparr>kv_data := (kv_data kv')(inode_key (f_handle this) :=
        Some (meta_encode (f_meta (after_write env (int (off + n)) this))))\<rparr>)"
proof -
  have init: "m_fileInitialSize (f_meta this) = 0" "int (f_csz this) \<noteq> 0"
    using assms(1) by (simp_all add: data_inv_def)
  let ?w = "UpdateCTime (now32 env) (UpdateMTime (now32 env) (grow_size (int (off + n)) this))\<lparr>f_metaDirty := True\<rparr>"
  have "m_handle (f_meta ?w) = f_handle ?w"
    using assms(2) by (simp add: grow_size_def UpdateCTime_def UpdateMTime_def upd_meta_def)
  from flush_ok [OF assms(3) this]
  have "file_flush (?w, kv') = (STATUS_OK, after_write env (int (off + n)) this,
      kv'\<lparr>kv_data := (kv_data kv')(inode_key (f_handle this) :=
        Some (meta_encode (f_meta (after_write env (int (off + n)) this))))\<rparr>)"
    by (simp add: after_write_def grow_size_def UpdateCTime_def UpdateMTime_def upd_meta_def)
  then show ?thesis
    using init assms(4)
    by (simp add: file_write_def Let_def grow_size_def [symmetric] after_write_def del: cquot_nonneg)
qed

lemma file_write_spec:
  assumes inv: "data_inv (this, kv)" and handle: "m_handle (f_meta this) = f_handle this"
    and small: "off + length buf < 2 ^ 63"
  obtains this' kv' where
    "file_write env (int off) (word_of_nat (length buf)) (Some buf) True (this, kv) =
       Val (STATUS_OK, word_of_nat (length buf), this', kv')"
    "data_inv (this', kv')" "content (this', kv') = write_at off buf (content (this, kv))"
    "same_object this this'" "same_elsewhere (f_handle this) kv kv'"
    "kv_data kv' (inode_key (f_handle this)) = Some (meta_encode (f_meta this'))"
    "m_handle (f_meta this') = f_handle this" "m_fsId (f_meta this') = m_fsId (f_meta this)"
    "meta_wf (f_meta this') = meta_wf (f_meta this)"
proof -
  obtain kv1 where loop:
    "write_loop this (cquot (sint (word_of_int (int off) + (word_of_nat (length buf) :: u64)) - 1) (int (f_csz this)))
       (cquot (int off) (int (f_csz this))) (int off) (word_of_nat (length buf)) buf kv
     = Val (STATUS_OK, int (off + length buf), kv1)"
    and kv1: "reliable kv1" "wrote (f_handle this) (f_csz this) off buf kv kv1"
    "chunks_within kv1 (f_handle this) (f_csz this) (max (f_size this) (off + length buf))"
    using write_data_spec [OF inv small] .
  define e where "e = off + length buf"
  let ?t = "after_write env (int e) this"
  let ?kv = "kv1\<lparr>kv_data := (kv_data kv1)(inode_key (f_handle this) := Some (meta_encode (f_meta ?t)))\<rparr>"
  have I: "0 < f_csz this" "f_size this < 2 ^ 63" "m_fileInitialSize (f_meta this) = 0"
    "chunks_within kv (f_handle this) (f_csz this) (f_size this)"
    using inv by (simp_all add: data_inv_def)
  have size: "f_size ?t = max (f_size this) e"
    using f_size_after_write [OF I(2)] small [folded e_def] by simp
  have "content (?t, ?kv) = write_at off buf (content (this, kv))"
  proof (rule nth_equalityI)
    fix i assume "i < length (content (?t, ?kv))"
    then have i: "i < max (f_size this) (off + length buf)" by (simp add: size e_def [symmetric])
    then have small_i: "i < 2 ^ 63" using small I(2) by auto
    have "byte_at (content (this, kv)) i = fbyte kv (f_handle this) (f_csz this) i"
      using fbyte_beyond [OF I(4) _ small_i I(1)] by (auto simp: byte_at_def content_def)
    with i small_i kv1(2) show "content (?t, ?kv) ! i = write_at off buf (content (this, kv)) ! i"
      by (simp add: nth_write_at wrote_def) (simp add: content_def size e_def [symmetric])
  qed (simp add: size e_def [symmetric])
  moreover have "file_write env (int off) (word_of_nat (length buf)) (Some buf) True (this, kv) =
      Val (STATUS_OK, word_of_nat (length buf), ?t, ?kv)"
    unfolding e_def by (rule file_write_result [OF inv handle kv1(1) loop])
  moreover have "data_inv (?t, ?kv)"
    using kv1(1,3) I small by (simp add: data_inv_def size e_def [symmetric])
  ultimately show thesis
    using handle wrote_elsewhere [OF kv1(2)] by (intro that [of ?t ?kv]) (simp_all add: same_object_def)
qed

section \<open>Resizing\<close>

definition only_chunks :: "u64 \<Rightarrow> kvs \<Rightarrow> kvs \<Rightarrow> bool" where
  "only_chunks h kv kv' \<longleftrightarrow> (\<forall>key. (\<forall>c. key \<noteq> chunk_key h (int c)) \<longrightarrow> kv_data kv' key = kv_data kv key)"

lemma resize_step_spec:
  assumes "reliable kv" "first * csz \<le> new" "new < first * csz + csz" "first \<le> c" "c < 2 ^ 63"
  obtains kv1 where "resize_step h (int new) (int csz) 0 (int first) (int c) kv = (True, kv1)" "reliable kv1"
    "only_chunks h kv kv1"
    "\<And>c'. c' < 2 ^ 63 \<Longrightarrow> chunk_val kv1 h c' =
       (if c' = c then take (new - c * csz) (chunk_val kv h c) else chunk_val kv h c')"
proof -
  let ?key = "chunk_key h (int c)" and ?v = "chunk_val kv h c"
  let ?upd = "\<lambda>r. kv\<lparr>kv_data := (kv_data kv)(?key := r)\<rparr>"
  have upd: "reliable (?upd r)" "only_chunks h kv (?upd r)" for r
    using assms(1) by (auto simp: only_chunks_def)
  show thesis
  proof (cases "c = first \<and> first * csz < new")
    case True
    define d where "d = new - c * csz"
    have off: "int new - int c * int csz = int d" "0 < d" "d < csz"
      using True assms(3) by (auto simp: d_def of_nat_diff less_diff_conv2 simp flip: of_nat_mult)
    have step: "resize_step h (int new) (int csz) 0 (int first) (int c) kv =
        (if kv_data kv ?key \<noteq> None \<and> d < length ?v then (True, ?upd (Some (take d ?v))) else (True, kv))"
      using True off assms(1)
      by (auto simp: resize_step_def Let_def kv_simps chunk_val_def str_resize_def split: option.splits)
    show thesis
    proof (cases "kv_data kv ?key \<noteq> None \<and> d < length ?v")
      case True
      then show thesis using step upd assms(5)
        by (intro that [of "?upd (Some (take d ?v))"]) (simp_all add: chunk_val_upd d_def)
    next
      case False
      then have "take d ?v = ?v" by (auto simp: chunk_val_def)
      then show thesis using False step assms(1)
        by (intro that [of kv]) (auto simp: only_chunks_def d_def)
    qed
  next
    case False
    have "Suc first * csz \<le> c * csz" if "c \<noteq> first" using that assms(4) by (intro mult_le_mono1) simp
    with False have "new \<le> c * csz" using assms(2,3) by (cases "c = first") auto
    then have "int new - int c * int csz \<le> 0" by (simp flip: of_nat_mult)
    then have "resize_step h (int new) (int csz) 0 (int first) (int c) kv = (True, ?upd None)"
      using assms(1) by (simp add: resize_step_def Let_def kv_simps)
    then show thesis using upd assms(5) \<open>new \<le> c * csz\<close>
      by (intro that [of "?upd None"]) (simp_all add: chunk_val_upd)
  qed
qed

lemma only_chunks_trans: "only_chunks h a b \<Longrightarrow> only_chunks h b c \<Longrightarrow> only_chunks h a c"
  by (simp add: only_chunks_def)

lemma resize_loop_spec:
  assumes "first * csz \<le> new" "new < first * csz + csz"
  shows "reliable kv \<Longrightarrow> first \<le> c \<Longrightarrow> lc < 2 ^ 63 \<Longrightarrow>
    \<exists>kv'. resize_loop h (int new) (int csz) 0 (int first) (int lc) (int c) STATUS_OK kv = (STATUS_OK, kv') \<and>
      reliable kv' \<and> only_chunks h kv kv' \<and>
      (\<forall>c'<2 ^ 63. chunk_val kv' h c' =
        (if c \<le> c' \<and> c' \<le> lc then take (new - c' * csz) (chunk_val kv h c') else chunk_val kv h c'))"
proof (induction "Suc lc - c" arbitrary: c kv)
  case 0
  then show ?case by (intro exI [of _ kv]) (auto simp: resize_loop.simps only_chunks_def)
next
  case (Suc d)
  then have c: "c < 2 ^ 63" "c \<le> lc" by auto
  obtain kv1 where step: "resize_step h (int new) (int csz) 0 (int first) (int c) kv = (True, kv1)" "reliable kv1"
    "only_chunks h kv kv1"
    "\<And>c'. c' < 2 ^ 63 \<Longrightarrow> chunk_val kv1 h c' =
       (if c' = c then take (new - c * csz) (chunk_val kv h c) else chunk_val kv h c')"
    using resize_step_spec [OF Suc.prems(1) assms Suc.prems(2) c(1)] by blast
  have "\<exists>kv'. resize_loop h (int new) (int csz) 0 (int first) (int lc) (int (Suc c)) STATUS_OK kv1 = (STATUS_OK, kv') \<and>
      reliable kv' \<and> only_chunks h kv1 kv' \<and>
      (\<forall>c'<2 ^ 63. chunk_val kv' h c' =
        (if Suc c \<le> c' \<and> c' \<le> lc then take (new - c' * csz) (chunk_val kv1 h c') else chunk_val kv1 h c'))"
    using Suc.hyps(2) Suc.prems step(2) by (intro Suc.hyps(1)) auto
  then show ?case
    using step c only_chunks_trans [OF step(3)]
    by (subst resize_loop.simps) (auto simp: add.commute Suc_le_eq)
qed

text \<open>All chunks cut at a new size, for a size the stored bytes stayed within before.\<close>

lemma ResizeData_spec:
  assumes "reliable kv" "0 < csz" "chunks_within kv (f_handle this) csz old" "new < old" "old < 2 ^ 63"
  obtains kv' where "ResizeData (int new) (int old) (int csz) 0 (this, kv) = Val (STATUS_OK, this, kv')"
    "reliable kv'" "only_chunks (f_handle this) kv kv'"
    "\<And>c. c < 2 ^ 63 \<Longrightarrow> chunk_val kv' (f_handle this) c = take (new - c * csz) (chunk_val kv (f_handle this) c)"
proof -
  let ?h = "f_handle this" and ?first = "new div csz" and ?last = "(old - 1) div csz"
  have first: "?first * csz \<le> new" "new < ?first * csz + csz"
    using dividend_less_div_times [OF assms(2), of new] by (simp_all add: add.commute)
  have "?last < 2 ^ 63" using assms(5) by (intro div_small) simp
  then obtain kv' where loop: "resize_loop ?h (int new) (int csz) 0 (int ?first) (int ?last) (int ?first) STATUS_OK kv = (STATUS_OK, kv')"
    and kv': "reliable kv'" "only_chunks ?h kv kv'"
    "\<And>c. c < 2 ^ 63 \<Longrightarrow> chunk_val kv' ?h c =
        (if ?first \<le> c \<and> c \<le> ?last then take (new - c * csz) (chunk_val kv ?h c) else chunk_val kv ?h c)"
    using resize_loop_spec [OF first assms(1) order_refl] by blast
  have "chunk_val kv' ?h c = take (new - c * csz) (chunk_val kv ?h c)" if c: "c < 2 ^ 63" for c
  proof (cases "?first \<le> c \<and> c \<le> ?last")
    case False
    have v: "length (chunk_val kv ?h c) \<le> csz" "chunk_val kv ?h c \<noteq> [] \<Longrightarrow> c * csz + length (chunk_val kv ?h c) \<le> old"
      using assms(3) c by (auto simp: chunks_within_def)
    have "length (chunk_val kv ?h c) \<le> new - c * csz"
    proof (cases "c < ?first")
      case True
      then have "Suc c * csz \<le> ?first * csz" by (intro mult_le_mono1) simp
      then have "csz + c * csz \<le> new" using first(1) unfolding mult_Suc by linarith
      then show ?thesis using v(1) by linarith
    next
      case c2: False
      then have "Suc ?last * csz \<le> c * csz" using False by (intro mult_le_mono1) auto
      moreover have "old \<le> Suc ?last * csz"
        using dividend_less_div_times [OF assms(2), of "old - 1"] by (simp add: add.commute)
      ultimately have "chunk_val kv ?h c = []" using v(2) by (cases "chunk_val kv ?h c") auto
      then show ?thesis by simp
    qed
    then show ?thesis using kv'(3) [OF c] False by auto
  qed (use kv'(3) [OF c] in simp)
  moreover have "ResizeData (int new) (int old) (int csz) 0 (this, kv) = Val (STATUS_OK, this, kv')"
  proof -
    have "int old - 1 = int (old - 1)" using assms(4) by simp
    then show ?thesis
      using assms(2,4) loop
      by (simp add: ResizeData_def Let_def cquot_int del: cquot_nonneg of_nat_diff)
  qed
  ultimately show thesis using kv' by (intro that [of kv']) auto
qed

lemma truncated_fbyte:
  assumes "\<And>c. c < 2 ^ 63 \<Longrightarrow> chunk_val kv' h c = take (new - c * csz) (chunk_val kv h c)" "i < 2 ^ 63" "0 < csz"
  shows "fbyte kv' h csz i = (if i < new then fbyte kv h csz i else NUL)"
proof -
  have "i mod csz < new - i div csz * csz \<longleftrightarrow> i < new"
    using div_mult_mod_eq [of i csz] by linarith
  then show ?thesis
    using assms(1) [OF div_small [OF assms(2)], of csz] by (auto simp: fbyte_def byte_at_def)
qed

lemma truncated_within:
  assumes "\<And>c. c < 2 ^ 63 \<Longrightarrow> chunk_val kv' h c = take (new - c * csz) (chunk_val kv h c)" "chunks_within kv h csz lim"
  shows "chunks_within kv' h csz new"
  using assms by (auto simp: chunks_within_def min_def split: if_splits)

lemma open_ok:
  assumes "reliable kv" "inode_inv (this, kv)"
  shows "file_open (this, kv) = Val (True, this, kv)"
  using assms by (simp add: file_open_def inode_inv_def readFromLog_def kv_simps codec_simps)

lemma SetSize_spec:
  assumes inv: "data_inv (this, kv)" "inode_inv (this, kv)" and small: "new < 2 ^ 63"
  obtains this' kv' where "SetSize env (int new) (this, kv) = Val (STATUS_OK, this', kv')"
    "data_inv (this', kv')" "inode_inv (this', kv')" "content (this', kv') = str_resize new (content (this, kv))"
    "same_object this this'" "same_elsewhere (f_handle this) kv kv'"
proof -
  let ?h = "f_handle this" and ?csz = "f_csz this" and ?old = "f_size this"
  have I: "reliable kv" "0 < ?csz" "?old < 2 ^ 63" "m_fileInitialSize (f_meta this) = 0"
    "chunks_within kv ?h ?csz ?old"
    using inv(1) by (simp_all add: data_inv_def)
  obtain kv1 where res: "ResizeData (int new) (int ?old) (int ?csz) 0 (this, kv) = Val (STATUS_OK, this, kv1)"
    and kv1: "reliable kv1" "only_chunks ?h kv kv1" "chunks_within kv1 ?h ?csz new"
    "\<And>i. i < 2 ^ 63 \<Longrightarrow> fbyte kv1 ?h ?csz i = (if i < new then fbyte kv ?h ?csz i else NUL)"
  proof (cases "new < ?old")
    case True
    obtain kv' where kv': "ResizeData (int new) (int ?old) (int ?csz) 0 (this, kv) = Val (STATUS_OK, this, kv')"
      "reliable kv'" "only_chunks ?h kv kv'"
      "\<And>c. c < 2 ^ 63 \<Longrightarrow> chunk_val kv' ?h c = take (new - c * ?csz) (chunk_val kv ?h c)"
      using ResizeData_spec [OF I(1,2,5) True I(3)] by blast
    show thesis
      by (rule that [OF kv'(1,2,3)])
        (use truncated_within [OF kv'(4) I(5)] truncated_fbyte [OF kv'(4) _ I(2)] in auto)
  next
    case False
    have "chunks_within kv ?h ?csz new"
      using I(5) False by (fastforce simp: chunks_within_def)
    moreover have "fbyte kv ?h ?csz i = NUL" if "new \<le> i" "i < 2 ^ 63" for i
      using fbyte_beyond [OF I(5) _ that(2) I(2)] that False by simp
    ultimately show thesis
      using False I(1) by (intro that [of kv]) (auto simp: ResizeData_def only_chunks_def)
  qed
  let ?t = "upd_meta (\<lambda>m. m\<lparr>m_fileTotalSize := word_of_int (int new), m_mtime := now32 env, m_ctime := now32 env,
      m_mtimeNsec := 0, m_ctimeNsec := 0\<rparr>) (this\<lparr>f_metaDirty := False\<rparr>)"
  let ?kv = "kv1\<lparr>kv_data := (kv_data kv1)(inode_key ?h := Some (meta_encode (f_meta ?t)))\<rparr>"
  have t: "f_size ?t = new" "f_csz ?t = ?csz" "f_handle ?t = ?h" "m_fileInitialSize (f_meta ?t) = 0"
    using unat_of_small [OF small] I(4) by (simp_all add: upd_meta_def f_size_def f_csz_def)
  have "SetSize env (int new) (this, kv) = Val (STATUS_OK, ?t, ?kv)"
  proof -
    let ?d = "upd_meta (\<lambda>m. m\<lparr>m_fileTotalSize := word_of_int (int new), m_mtime := now32 env, m_ctime := now32 env,
      m_mtimeNsec := 0, m_ctimeNsec := 0\<rparr>) (this\<lparr>f_metaDirty := True\<rparr>)"
    have "m_handle (f_meta ?d) = f_handle ?d" using inv(2) by (simp add: inode_inv_def upd_meta_def)
    from flush_ok [OF kv1(1) this] have "file_flush (?d, kv1) = (STATUS_OK, ?t, ?kv)" by (simp add: upd_meta_def)
    moreover have "?t\<lparr>f_metaDirty := False\<rparr> = ?t" by (simp add: upd_meta_def)
    ultimately show ?thesis
      using res I(4) unfolding SetSize_def open_ok [OF I(1) inv(2)]
      by (simp add: sint_f_size [OF I(3)] Let_def)
  qed
  moreover have "data_inv (?t, ?kv)"
    using kv1(1,3) I(2) t small by (simp add: data_inv_def)
  moreover have "inode_inv (?t, ?kv)"
    using inv(2) by (simp add: inode_inv_def upd_meta_def meta_wf_def)
  moreover have "content (?t, ?kv) = str_resize new (content (this, kv))"
    using kv1(4) small I(3) t fbyte_beyond [OF I(5) _ _ I(2)]
    by (intro nth_equalityI) (auto simp: content_def str_resize_def nth_append)
  ultimately show thesis
    using kv1(2) by (intro that [of ?t ?kv])
      (auto simp: same_object_def upd_meta_def same_elsewhere_def file_key_def only_chunks_def)
qed

end
