(* ===== verification/FileSpec.thy ===== *)
theory FileSpec
  imports FileData
begin

text \<open>
  What a file promises: an abstract file is a string of bytes with a read, a write and a
  resize, and the file object over the store implements it. The properties of the data path,
  of eviction and of the metadata operations rest on that refinement.
\<close>

section \<open>The abstract file\<close>

locale byte_file =
  fixes inv :: "'s \<Rightarrow> bool"
    and content :: "'s \<Rightarrow> string"
    and rd :: "nat \<Rightarrow> nat \<Rightarrow> 's \<Rightarrow> (string \<times> 's) outcome"
    and wr :: "nat \<Rightarrow> string \<Rightarrow> 's \<Rightarrow> 's outcome"
    and rsz :: "nat \<Rightarrow> 's \<Rightarrow> 's outcome"
    and limit :: nat
  assumes read_spec: "inv s \<Longrightarrow> off \<le> length (content s) \<Longrightarrow> off + n < limit \<Longrightarrow>
      rd off n s = Val (take n (drop off (content s)), s)"
    and write_spec: "inv s \<Longrightarrow> off + length d < limit \<Longrightarrow>
      \<exists>s'. wr off d s = Val s' \<and> inv s' \<and> content s' = write_at off d (content s)"
    and resize_spec: "inv s \<Longrightarrow> n < limit \<Longrightarrow>
      \<exists>s'. rsz n s = Val s' \<and> inv s' \<and> content s' = str_resize n (content s)"
begin

lemma read_after_write:
  assumes "inv s" "off + length d < limit"
  obtains s' where "wr off d s = Val s'" "inv s'" "rd off (length d) s' = Val (d, s')"
proof -
  obtain s' where s': "wr off d s = Val s'" "inv s'" "content s' = write_at off d (content s)"
    using write_spec [OF assms] by blast
  have "take (length d) (drop off (write_at off d (content s))) = d"
    by (simp add: write_at_def)
  then show thesis using s' assms(2) read_spec [OF s'(2), of off "length d"] by (intro that [of s']) auto
qed

lemma read_elsewhere:
  assumes "inv s" "off + length d < limit" "p + n \<le> length (content s)" "p + n < limit"
    and "p + n \<le> off \<or> off + length d \<le> p"
  obtains s' where "wr off d s = Val s'" "inv s'" "rd p n s' = Val (take n (drop p (content s)), s')"
proof -
  obtain s' where s': "wr off d s = Val s'" "inv s'" "content s' = write_at off d (content s)"
    using write_spec [OF assms(1,2)] by blast
  have "take n (drop p (write_at off d (content s))) = take n (drop p (content s))"
    using assms(3,5) by (intro nth_equalityI) (auto simp: nth_write_at byte_at_def)
  then show thesis using s' assms(3,4) read_spec [OF s'(2), of p n] by (intro that [of s']) auto
qed

lemma read_hole:
  assumes "inv s" "length (content s) \<le> p" "p + n \<le> off" "off + length d < limit" "d \<noteq> []"
  obtains s' where "wr off d s = Val s'" "inv s'" "rd p n s' = Val (replicate n NUL, s')"
proof -
  obtain s' where s': "wr off d s = Val s'" "inv s'" "content s' = write_at off d (content s)"
    using write_spec [OF assms(1,4)] by blast
  have "take n (drop p (write_at off d (content s))) = replicate n NUL"
    using assms(2,3) by (intro nth_equalityI) (auto simp: nth_write_at byte_at_def)
  then show thesis using s' assms(3,4) read_spec [OF s'(2), of p n] by (intro that [of s']) auto
qed

lemma read_after_truncate:
  assumes "inv s" "m \<le> n" "n < limit"
  obtains s1 s2 where "rsz m s = Val s1" "rsz n s1 = Val s2"
    "rd 0 n s2 = Val (take m (content s) @ replicate (n - min m (length (content s))) NUL, s2)"
proof -
  have "m < limit" using assms(2,3) by simp
  then obtain s1 where s1: "rsz m s = Val s1" "inv s1" "content s1 = str_resize m (content s)"
    using resize_spec [OF assms(1)] by blast
  obtain s2 where s2: "rsz n s1 = Val s2" "inv s2" "content s2 = str_resize n (content s1)"
    using resize_spec [OF s1(2) assms(3)] by blast
  have "content s2 = take m (content s) @ replicate (n - min m (length (content s))) NUL"
    unfolding s2 s1 using assms(2)
    by (auto simp: str_resize_def min_def replicate_add [symmetric])
  moreover have "rd 0 n s2 = Val (content s2, s2)"
    using assms(3) read_spec [OF s2(2), of 0 n] s2(3) by simp
  ultimately show thesis using s1(1) s2(1) by (intro that [of s1 s2]) simp_all
qed

end

section \<open>The file object implements it\<close>

definition resident :: "fstate \<Rightarrow> bool" where
  "resident st \<longleftrightarrow> m_evictionState (f_meta (fst st)) = ES_RESIDENT"

definition file_ok :: "fstate \<Rightarrow> bool" where
  "file_ok st \<longleftrightarrow> data_inv st \<and> inode_inv st \<and> resident st"

text \<open>The calls with their status checked: a caller that goes on only after success.\<close>

definition read_ok :: "env \<Rightarrow> (u64 \<Rightarrow> TieredInFile option) \<Rightarrow> nat \<Rightarrow> nat \<Rightarrow> fstate \<Rightarrow> (string \<times> fstate) outcome" where
  "read_ok env tier off n st =
     obind (file_read env tier (int off) (word_of_nat n) True st)
       (\<lambda>(status, len, out, st). expect (status = STATUS_OK \<and> len = word_of_nat (length out)) (Val (out, st)))"

definition write_ok :: "env \<Rightarrow> nat \<Rightarrow> string \<Rightarrow> fstate \<Rightarrow> fstate outcome" where
  "write_ok env off d st =
     obind (file_write env (int off) (word_of_nat (length d)) (Some d) True st)
       (\<lambda>(status, len, st). expect (status = STATUS_OK \<and> len = word_of_nat (length d)) (Val st))"

definition resize_ok :: "env \<Rightarrow> nat \<Rightarrow> fstate \<Rightarrow> fstate outcome" where
  "resize_ok env n st =
     obind (SetSize env (int n) st) (\<lambda>(status, st). expect (status = STATUS_OK) (Val st))"

lemma file_ok_write:
  assumes "file_ok (this, kv)" "off + length buf < 2 ^ 63"
  obtains this' kv' where
    "file_write env (int off) (word_of_nat (length buf)) (Some buf) True (this, kv) =
       Val (STATUS_OK, word_of_nat (length buf), this', kv')"
    "file_ok (this', kv')" "content (this', kv') = write_at off buf (content (this, kv))"
    "same_elsewhere (f_handle this) kv kv'" "f_handle this' = f_handle this"
proof -
  have inv: "data_inv (this, kv)" "m_handle (f_meta this) = f_handle this" "resident (this, kv)" "inode_inv (this, kv)"
    using assms(1) by (auto simp: file_ok_def inode_inv_def)
  obtain this' kv' where w: "file_write env (int off) (word_of_nat (length buf)) (Some buf) True (this, kv) =
       Val (STATUS_OK, word_of_nat (length buf), this', kv')"
    "data_inv (this', kv')" "content (this', kv') = write_at off buf (content (this, kv))"
    "same_object this this'" "same_elsewhere (f_handle this) kv kv'"
    "kv_data kv' (inode_key (f_handle this)) = Some (meta_encode (f_meta this'))"
    "m_handle (f_meta this') = f_handle this" "m_fsId (f_meta this') = m_fsId (f_meta this)"
    "meta_wf (f_meta this') = meta_wf (f_meta this)"
    using file_write_spec [OF inv(1,2) assms(2)] .
  have "inode_inv (this', kv')" using inv(4) w(4,6-9) by (simp add: inode_inv_def same_object_def)
  moreover have "resident (this', kv')" using inv(3) w(4) by (simp add: resident_def same_object_def)
  ultimately show thesis
    using w by (intro that [of this' kv']) (simp_all add: file_ok_def same_object_def)
qed

lemma file_ok_resize:
  assumes "file_ok (this, kv)" "n < 2 ^ 63"
  obtains this' kv' where "SetSize env (int n) (this, kv) = Val (STATUS_OK, this', kv')" "file_ok (this', kv')"
    "content (this', kv') = str_resize n (content (this, kv))" "same_elsewhere (f_handle this) kv kv'"
    "f_handle this' = f_handle this"
proof -
  have inv: "data_inv (this, kv)" "inode_inv (this, kv)" "resident (this, kv)"
    using assms(1) by (simp_all add: file_ok_def)
  obtain this' kv' where "SetSize env (int n) (this, kv) = Val (STATUS_OK, this', kv')"
    "data_inv (this', kv')" "inode_inv (this', kv')" "content (this', kv') = str_resize n (content (this, kv))"
    "same_object this this'" "same_elsewhere (f_handle this) kv kv'"
    using SetSize_spec [OF inv(1,2) assms(2)] .
  then show thesis
    using inv(3) by (intro that [of this' kv']) (simp_all add: file_ok_def resident_def same_object_def)
qed

lemma file_ok_read:
  assumes "file_ok (this, kv)" "off \<le> length (content (this, kv))" "off + n < 2 ^ 63"
  shows "file_read env tier (int off) (word_of_nat n) True (this, kv) =
    Val (STATUS_OK, word_of_nat (length (take n (drop off (content (this, kv))))),
      take n (drop off (content (this, kv))), this, kv)"
proof -
  have u: "unat (word_of_nat n :: u64) = n" using assms(3) by (intro unat_of_small) simp
  show ?thesis
    by (rule file_read_spec [of this kv off "word_of_nat n", unfolded u])
      (use assms in \<open>simp_all add: file_ok_def resident_def\<close>)
qed

interpretation fs: byte_file file_ok content "read_ok env tier" "write_ok env" "resize_ok env" "2 ^ 63"
  for env tier
proof
  fix s :: fstate and off n d
  obtain this kv where s: "s = (this, kv)" by force
  assume ok: "file_ok s"
  show "read_ok env tier off n s = Val (take n (drop off (content s)), s)"
    if "off \<le> length (content s)" "off + n < 2 ^ 63"
    using file_ok_read that ok s by (simp add: read_ok_def)
  show "\<exists>s'. write_ok env off d s = Val s' \<and> file_ok s' \<and> content s' = write_at off d (content s)"
    if lim: "off + length d < 2 ^ 63"
  proof -
    obtain this' kv' where "file_write env (int off) (word_of_nat (length d)) (Some d) True (this, kv) =
       Val (STATUS_OK, word_of_nat (length d), this', kv')"
      "file_ok (this', kv')" "content (this', kv') = write_at off d (content (this, kv))"
      using file_ok_write [OF ok [unfolded s] lim] .
    then show ?thesis by (simp add: write_ok_def s)
  qed
  show "\<exists>s'. resize_ok env n s = Val s' \<and> file_ok s' \<and> content s' = str_resize n (content s)"
    if lim: "n < 2 ^ 63"
  proof -
    obtain this' kv' where "SetSize env (int n) (this, kv) = Val (STATUS_OK, this', kv')" "file_ok (this', kv')"
      "content (this', kv') = str_resize n (content (this, kv))"
      using file_ok_resize [OF ok [unfolded s] lim] .
    then show ?thesis by (simp add: resize_ok_def s)
  qed
qed

section \<open>A new file\<close>

lemma initMeta_simps [simp]:
  "f_handle (initMeta env this) = f_handle this" "f_fsId (initMeta env this) = f_fsId this"
  "f_csz (initMeta env this) = f_csz this" "f_size (initMeta env this) = f_size this"
  "m_fileInitialSize (f_meta (initMeta env this)) = m_fileInitialSize (f_meta this)"
  "m_handle (f_meta (initMeta env this)) = f_handle this" "m_fsId (f_meta (initMeta env this)) = f_fsId this"
  "m_evictionState (f_meta (initMeta env this)) = m_evictionState (f_meta this)"
  "meta_wf (f_meta (initMeta env this)) = meta_wf (f_meta this)"
  by (simp_all add: initMeta_def Let_def setTypeFromMode_def setProtectionFromMode_def upd_meta_def
      f_csz_def f_size_def meta_wf_def)

lemma new_file_simps [simp]:
  "f_handle (new_LogFSFile fs n h mode i c) = h" "f_fsId (new_LogFSFile fs n h mode i c) = fs"
  "f_size (new_LogFSFile fs n h mode i c) = 0" "f_csz (new_LogFSFile fs n h mode i c) = unat c"
  "m_fileInitialSize (f_meta (new_LogFSFile fs n h mode i c)) = i"
  "m_evictionState (f_meta (new_LogFSFile fs n h mode i c)) = ES_RESIDENT"
  "meta_wf (f_meta (new_LogFSFile fs n h mode i c))"
  by (simp_all add: new_LogFSFile_def f_size_def f_csz_def new_LogFSMetaData_def meta_wf_def)

lemma writeToLog_reliable:
  "reliable kv \<Longrightarrow> writeToLog (this, kv) = (STATUS_OK, this,
     kv\<lparr>kv_data := (kv_data kv)(inode_key (f_handle this) := Some (meta_encode (f_meta this)))\<rparr>)"
  by (simp add: writeToLog_def kv_simps)

text \<open>A file whose handle was never used for data starts out as an empty file.\<close>

lemma new_file_ok:
  assumes "reliable kv" "\<And>c. kv_data kv (chunk_key h (int c)) = None" "c \<noteq> 0"
  shows "file_ok (snd (writeToLog (initMeta env (new_LogFSFile fs n h mode 0 c), kv)))"
    "content (snd (writeToLog (initMeta env (new_LogFSFile fs n h mode 0 c), kv))) = []"
  using assms
  by (simp_all add: writeToLog_reliable file_ok_def data_inv_def inode_inv_def resident_def content_def
      chunks_within_def chunk_val_def key_simps unat_gt_0)

definition sample_env :: env where
  "sample_env = \<lparr>now = 1450000000, getuid = 0, getgid = 0\<rparr>"

definition sample_file :: fstate where
  "sample_file = snd (writeToLog (initMeta sample_env (new_LogFSFile 1 (Some ''f'') 5 0x81A4 0 8192), empty_kvs))"

lemma sample_file_ok: "file_ok sample_file" "content sample_file = []" "f_handle (fst sample_file) = 5"
proof -
  show "file_ok sample_file" "content sample_file = []"
    unfolding sample_file_def by (rule new_file_ok; simp add: empty_kvs_def reliable_def)+
  show "f_handle (fst sample_file) = 5" by (simp add: sample_file_def writeToLog_reliable)
qed

abbreviation no_tier :: "u64 \<Rightarrow> TieredInFile option" where
  "no_tier \<equiv> \<lambda>_. None"

section \<open>Properties of the data path\<close>

text \<open>
  C3. Reading a resident file at an offset up to its end succeeds, stores in the caller's
  buffer exactly the bytes of the file from that offset on, at most as many as were asked
  for, reports their number, and changes neither the object nor the store.
\<close>

theorem read_returns_content:
  assumes "file_ok (this, kv)" "off \<le> length (content (this, kv))" "off + n < 2 ^ 63"
  shows "file_read env tier (int off) (word_of_nat n) True (this, kv) =
    Val (STATUS_OK, word_of_nat (length (take n (drop off (content (this, kv))))),
      take n (drop off (content (this, kv))), this, kv)"
  using file_ok_read [OF assms] .

theorem read_returns_content_witness:
  "file_read sample_env no_tier 0 100 True sample_file = Val (STATUS_OK, 0, [], sample_file)"
  using read_returns_content [of "fst sample_file" "snd sample_file" 0 100] sample_file_ok by simp

text \<open>
  C2. Writing to a resident file succeeds and reports the full length; afterwards the
  contents are the old contents with the bytes written over them, the space between the old
  end and the offset filled with NUL bytes; the inode in the store carries the new size; no
  key of the store but this file's inode and chunks has changed.
\<close>

theorem write_updates_content:
  assumes "file_ok (this, kv)" "off + length buf < 2 ^ 63"
  shows "\<exists>this' kv'. file_write env (int off) (word_of_nat (length buf)) (Some buf) True (this, kv) =
       Val (STATUS_OK, word_of_nat (length buf), this', kv') \<and>
     file_ok (this', kv') \<and> content (this', kv') = write_at off buf (content (this, kv)) \<and>
     (\<forall>k. \<not> file_key (f_handle this) k \<longrightarrow> kv_data kv' k = kv_data kv k)"
  using file_ok_write [OF assms] unfolding same_elsewhere_def by metis

theorem write_updates_content_witness:
  "\<exists>this' kv'. file_write sample_env 3 (word_of_nat (length ''abc'')) (Some ''abc'') True sample_file =
       Val (STATUS_OK, word_of_nat (length ''abc''), this', kv') \<and>
     file_ok (this', kv') \<and> content (this', kv') = [NUL, NUL, NUL] @ ''abc'' \<and>
     (\<forall>k. \<not> file_key 5 k \<longrightarrow> kv_data kv' k = kv_data (snd sample_file) k)"
  using write_updates_content [of "fst sample_file" "snd sample_file" 3 "''abc''" sample_env] sample_file_ok
  by (simp add: write_at_def numeral_3_eq_3)

text \<open>
  C12. Setting the size of a resident file cuts its contents, or extends them with NUL bytes,
  to exactly that size, whatever the chunks hold, and keeps every other file: a later
  extension does not bring cut bytes back.
\<close>

theorem set_size_resizes_content:
  assumes "file_ok (this, kv)" "n < 2 ^ 63"
  shows "\<exists>this' kv'. SetSize env (int n) (this, kv) = Val (STATUS_OK, this', kv') \<and> file_ok (this', kv') \<and>
     content (this', kv') = take n (content (this, kv)) @ replicate (n - length (content (this, kv))) NUL \<and>
     (\<forall>k. \<not> file_key (f_handle this) k \<longrightarrow> kv_data kv' k = kv_data kv k)"
  using file_ok_resize [OF assms] unfolding same_elsewhere_def str_resize_def by metis

theorem set_size_resizes_content_witness:
  "\<exists>this' kv'. SetSize sample_env 3 sample_file = Val (STATUS_OK, this', kv') \<and> file_ok (this', kv') \<and>
     content (this', kv') = [NUL, NUL, NUL] \<and>
     (\<forall>k. \<not> file_key 5 k \<longrightarrow> kv_data kv' k = kv_data (snd sample_file) k)"
  using set_size_resizes_content [of "fst sample_file" "snd sample_file" 3 sample_env] sample_file_ok
  by (simp add: numeral_3_eq_3)

text \<open>
  What was written is what is read: after a write the same range reads back as the bytes
  written, and a range that was inside the file and does not overlap the write reads as
  before.
\<close>

theorem read_your_writes:
  assumes "file_ok st" "off + length d < 2 ^ 63" "p + n \<le> length (content st)" "p + n < 2 ^ 63"
    and "p + n \<le> off \<or> off + length d \<le> p"
  shows "\<exists>st'. write_ok env off d st = Val st' \<and> read_ok env tier off (length d) st' = Val (d, st') \<and>
    read_ok env tier p n st' = Val (take n (drop p (content st)), st')"
proof -
  obtain st' where "write_ok env off d st = Val st'" "read_ok env tier off (length d) st' = Val (d, st')"
    using fs.read_after_write [OF assms(1,2)] .
  moreover obtain st'' where "write_ok env off d st = Val st''"
    "read_ok env tier p n st'' = Val (take n (drop p (content st)), st'')"
    using fs.read_elsewhere [OF assms] .
  ultimately show ?thesis by auto
qed

theorem read_your_writes_witness:
  "\<exists>st'. write_ok sample_env 3 ''abc'' sample_file = Val st' \<and>
     read_ok sample_env no_tier 3 (length ''abc'') st' = Val (''abc'', st') \<and>
     read_ok sample_env no_tier 0 0 st' = Val ([], st')"
  using read_your_writes [of sample_file 3 "''abc''" 0 0] sample_file_ok by simp

end
