(* ===== verification/FileEvict.thy ===== *)
theory FileEvict
  imports FileSpec
begin

text \<open>
  Eviction of a file's data and its return (\<^verbatim>\<open>LogFSFile::Evict\<close>, \<^verbatim>\<open>UnEvict\<close>, \<^verbatim>\<open>HoldData\<close>), and
  what \<^verbatim>\<open>read\<close> and \<^verbatim>\<open>write\<close> do to a file whose data has been evicted.
\<close>

section \<open>Restoring\<close>

text \<open>A restored copy that serves the bytes \<open>orig\<close> for the file with handle \<open>h\<close>.\<close>

definition tier_serves :: "TieredInFile \<Rightarrow> u64 \<Rightarrow> string \<Rightarrow> bool" where
  "tier_serves tf h orig \<longleftrightarrow> tf_inode_num tf = h \<and> tf_fstat_size tf = Some (int (length orig)) \<and>
     (\<forall>off n. tf_pread tf (int off) n = Some (take n (drop off orig)))"

definition evicted :: "fstate \<Rightarrow> bool" where
  "evicted st \<longleftrightarrow> data_inv st \<and> inode_inv st \<and> m_evictionState (f_meta (fst st)) = ES_DATA_EVICTED"

lemma write_no_meta_spec:
  assumes "data_inv (this, kv)" "off + length buf \<le> f_size this"
  obtains kv' where "file_write env (int off) (word_of_nat (length buf)) (Some buf) False (this, kv) =
      Val (STATUS_OK, word_of_nat (length buf), this, kv')"
    "data_inv (this, kv')" "wrote (f_handle this) (f_csz this) off buf kv kv'"
proof -
  have I: "m_fileInitialSize (f_meta this) = 0" "int (f_csz this) \<noteq> 0" "f_size this < 2 ^ 63"
    using assms(1) by (simp_all add: data_inv_def)
  then have small: "off + length buf < 2 ^ 63" using assms(2) by simp
  obtain kv' where loop:
    "write_loop this (cquot (sint (word_of_int (int off) + (word_of_nat (length buf) :: u64)) - 1) (int (f_csz this)))
       (cquot (int off) (int (f_csz this))) (int off) (word_of_nat (length buf)) buf kv
     = Val (STATUS_OK, int (off + length buf), kv')"
    and kv': "reliable kv'" "wrote (f_handle this) (f_csz this) off buf kv kv'"
    "chunks_within kv' (f_handle this) (f_csz this) (max (f_size this) (off + length buf))"
    using write_data_spec [OF assms(1) small] .
  have "\<not> int (off + length buf) > sint (m_fileTotalSize (f_meta this))"
    using assms(2) by (simp add: sint_f_size [OF I(3)])
  then have "file_write env (int off) (word_of_nat (length buf)) (Some buf) False (this, kv) =
      Val (STATUS_OK, word_of_nat (length buf), this, kv')"
    using loop I by (simp add: file_write_def Let_def del: cquot_nonneg)
  moreover have "data_inv (this, kv')"
    using kv'(1,3) assms by (simp add: data_inv_def max_absorb1)
  ultimately show thesis using kv'(2) that by blast
qed

lemma wrote_only_chunks: "wrote h csz o1 buf kv kv' \<Longrightarrow> only_chunks h kv kv'"
  by (simp add: wrote_def only_chunks_def)

lemma unevict_loop_spec:
  assumes "tier_serves tf h orig" "length orig = f_size this"
  shows "data_inv (this, kv) \<Longrightarrow> off \<le> length orig \<Longrightarrow>
    \<exists>kv'. unevict_loop env tf (int off) this kv = Val (STATUS_OK, int (length orig), this, kv') \<and>
      data_inv (this, kv') \<and> only_chunks (f_handle this) kv kv' \<and>
      (\<forall>i<length orig. off \<le> i \<longrightarrow> fbyte kv' (f_handle this) (f_csz this) i = orig ! i) \<and>
      (\<forall>i<off. fbyte kv' (f_handle this) (f_csz this) i = fbyte kv (f_handle this) (f_csz this) i)"
proof (induction "length orig - off" arbitrary: off kv rule: less_induct)
  case less
  define bs where "bs = take 8192 (drop off orig)"
  have rd: "TieredInFile_Read tf (int off) 8192 = (word_of_nat (length bs), bs)"
    using assms(1) by (simp add: TieredInFile_Read_def tier_serves_def bs_def)
  have size: "f_size this < 2 ^ 63" using less.prems(1) by (simp add: data_inv_def)
  show ?case
  proof (cases "bs = []")
    case True
    then have "off = length orig" using less.prems(2) by (simp add: bs_def)
    moreover have "unevict_loop env tf (int off) this kv = Val (STATUS_OK, int off, this, kv)"
      using rd True by (simp add: unevict_loop.simps)
    ultimately show ?thesis using less.prems(1) by (auto simp: only_chunks_def)
  next
    case False
    have bs: "off + length bs \<le> f_size this" "0 < length bs" "length bs < 2 ^ 63"
      using False less.prems(2) assms(2) by (auto simp: bs_def)
    obtain kv1 where w: "file_write env (int off) (word_of_nat (length bs)) (Some bs) False (this, kv) =
        Val (STATUS_OK, word_of_nat (length bs), this, kv1)"
      "data_inv (this, kv1)" "wrote (f_handle this) (f_csz this) off bs kv kv1"
      using write_no_meta_spec [OF less.prems(1) bs(1)] .
    have "\<exists>kv'. unevict_loop env tf (int (off + length bs)) this kv1 = Val (STATUS_OK, int (length orig), this, kv') \<and>
      data_inv (this, kv') \<and> only_chunks (f_handle this) kv1 kv' \<and>
      (\<forall>i<length orig. off + length bs \<le> i \<longrightarrow> fbyte kv' (f_handle this) (f_csz this) i = orig ! i) \<and>
      (\<forall>i<off + length bs. fbyte kv' (f_handle this) (f_csz this) i = fbyte kv1 (f_handle this) (f_csz this) i)"
    proof (rule less.hyps)
      show "length orig - (off + length bs) < length orig - off" using bs(1,2) assms(2) by linarith
    qed (use bs assms(2) w(2) in simp_all)
    then obtain kv' where kv': "unevict_loop env tf (int (off + length bs)) this kv1 = Val (STATUS_OK, int (length orig), this, kv')"
      "data_inv (this, kv')" "only_chunks (f_handle this) kv1 kv'"
      "\<And>i. i < length orig \<Longrightarrow> off + length bs \<le> i \<Longrightarrow> fbyte kv' (f_handle this) (f_csz this) i = orig ! i"
      "\<And>i. i < off + length bs \<Longrightarrow> fbyte kv' (f_handle this) (f_csz this) i = fbyte kv1 (f_handle this) (f_csz this) i"
      by blast
    have "(word_of_nat (length bs) :: u64) \<noteq> 0"
      using word_pos_small [OF bs(3)] bs(2) by auto
    then have "unevict_loop env tf (int off) this kv = Val (STATUS_OK, int (length orig), this, kv')"
      using kv'(1) by (subst unevict_loop.simps) (simp add: rd w(1) uint_of_small [OF bs(3)])
    moreover have "fbyte kv1 (f_handle this) (f_csz this) i = orig ! i" if "off \<le> i" "i < off + length bs" for i
      using w(3) that bs size by (auto simp: wrote_def bs_def)
    moreover have "fbyte kv1 (f_handle this) (f_csz this) i = fbyte kv (f_handle this) (f_csz this) i" if "i < off" for i
      using w(3) that bs size by (auto simp: wrote_def)
    ultimately show ?thesis
      using kv' only_chunks_trans [OF wrote_only_chunks [OF w(3)] kv'(3)]
      by (metis add_strict_increasing linorder_not_le trans_less_add1 zero_le)
  qed
qed

lemma UnEvict_spec:
  assumes "evicted (this, kv)" "tier (f_handle this) = Some tf" "tier_serves tf (f_handle this) orig"
    and "length orig = f_size this"
  obtains kv' where
    "UnEvict env tier (this, kv) = Val (STATUS_OK, upd_meta (\<lambda>m. m\<lparr>m_evictionState := ES_RESIDENT\<rparr>) (this\<lparr>f_metaDirty := False\<rparr>), kv')"
    "file_ok (upd_meta (\<lambda>m. m\<lparr>m_evictionState := ES_RESIDENT\<rparr>) (this\<lparr>f_metaDirty := False\<rparr>), kv')"
    "content (upd_meta (\<lambda>m. m\<lparr>m_evictionState := ES_RESIDENT\<rparr>) (this\<lparr>f_metaDirty := False\<rparr>), kv') = orig"
    "same_elsewhere (f_handle this) kv kv'"
proof -
  let ?h = "f_handle this"
  have inv: "data_inv (this, kv)" "inode_inv (this, kv)" using assms(1) by (simp_all add: evicted_def)
  have size: "f_size this < 2 ^ 63" using inv(1) by (simp add: data_inv_def)
  have handle: "m_handle (f_meta this) = ?h" using inv(2) by (simp add: inode_inv_def)
  obtain kv1 where loop: "unevict_loop env tf 0 this kv = Val (STATUS_OK, int (length orig), this, kv1)"
    and kv1: "data_inv (this, kv1)" "only_chunks ?h kv kv1"
    "\<And>i. i < length orig \<Longrightarrow> fbyte kv1 ?h (f_csz this) i = orig ! i"
    using unevict_loop_spec [OF assms(3,4) inv(1), of 0 env] by auto
  let ?r = "upd_meta (\<lambda>m. m\<lparr>m_evictionState := ES_RESIDENT\<rparr>) this"
  let ?t = "upd_meta (\<lambda>m. m\<lparr>m_evictionState := ES_RESIDENT\<rparr>) (this\<lparr>f_metaDirty := False\<rparr>)"
  let ?kv = "kv1\<lparr>kv_data := (kv_data kv1)(inode_key ?h := Some (meta_encode (f_meta ?t)))\<rparr>"
  have t: "f_size ?t = f_size this" "f_csz ?t = f_csz this" "f_handle ?t = ?h"
    "m_fileInitialSize (f_meta ?t) = m_fileInitialSize (f_meta this)"
    by (simp_all add: upd_meta_def f_size_def f_csz_def)
  have rel: "reliable kv1" using kv1(1) by (simp add: data_inv_def)
  have "m_handle (f_meta ?r) = f_handle ?r" using handle by (simp add: upd_meta_def)
  from flush_ok [OF rel this] have "file_flush (?r, kv1) = (STATUS_OK, ?t, ?kv)" by (simp add: upd_meta_def)
  then have "UnEvict env tier (this, kv) = Val (STATUS_OK, ?t, ?kv)"
    using assms(2,3,4) loop handle
    by (simp add: UnEvict_def TieredInFile_Stat_def tier_serves_def sint_f_size [OF size])
  moreover have "file_ok (?t, ?kv)"
    unfolding file_ok_def
  proof (intro conjI)
    show "data_inv (?t, ?kv)" using kv1(1) by (simp add: data_inv_def t)
    show "inode_inv (?t, ?kv)" using inv(2) by (simp add: inode_inv_def upd_meta_def meta_wf_def)
    show "resident (?t, ?kv)" by (simp add: resident_def upd_meta_def)
  qed
  moreover have "content (?t, ?kv) = orig"
    using kv1(3) assms(4) by (intro nth_equalityI) (simp_all add: t content_def)
  moreover have "same_elsewhere ?h kv ?kv"
    using kv1(2) by (auto simp: same_elsewhere_def only_chunks_def file_key_def)
  ultimately show thesis by (rule that)
qed

section \<open>Reading an evicted file\<close>

text \<open>A read of an evicted file is the read of the restored file.\<close>

lemma read_after_hold:
  assumes "HoldData env tier (this, kv) = Val (t\<lparr>f_data_hold_count := f_data_hold_count t + 1\<rparr>, kv')"
    and "m_evictionState (f_meta t) = ES_RESIDENT" "m_fileTotalSize (f_meta t) = m_fileTotalSize (f_meta this)"
  shows "file_read env tier off len True (this, kv) = file_read env tier off len True (t, kv')"
  using assms HoldData_resident [OF assms(2), of env tier kv'] by (simp add: file_read_def Let_def)

lemma read_evicted:
  assumes "evicted (this, kv)" "tier (f_handle this) = Some tf" "tier_serves tf (f_handle this) orig"
    and "length orig = f_size this" "off \<le> length orig" "off + n < 2 ^ 63"
  obtains this' kv' where
    "file_read env tier (int off) (word_of_nat n) True (this, kv) =
       Val (STATUS_OK, word_of_nat (length (take n (drop off orig))), take n (drop off orig), this', kv')"
    "file_ok (this', kv')" "content (this', kv') = orig"
proof -
  let ?held = "this\<lparr>f_data_hold_count := f_data_hold_count this + 1\<rparr>"
  let ?res = "\<lambda>t. upd_meta (\<lambda>m. m\<lparr>m_evictionState := ES_RESIDENT\<rparr>) (t\<lparr>f_metaDirty := False\<rparr>)"
  have "evicted (?held, kv)" using assms(1) by (simp add: evicted_def inode_inv_def)
  from UnEvict_spec [OF this, of tier tf orig env] assms(2-4)
  obtain kv' where un: "UnEvict env tier (?held, kv) = Val (STATUS_OK, ?res ?held, kv')"
    "file_ok (?res ?held, kv')" "content (?res ?held, kv') = orig"
    by auto
  have eq: "?res ?held = (?res this)\<lparr>f_data_hold_count := f_data_hold_count (?res this) + 1\<rparr>"
    by (simp add: upd_meta_def)
  have "HoldData env tier (this, kv) = Val ((?res this)\<lparr>f_data_hold_count := f_data_hold_count (?res this) + 1\<rparr>, kv')"
    using assms(1) un(1) by (simp add: HoldData_def evicted_def eq [symmetric])
  then have read: "file_read env tier (int off) (word_of_nat n) True (this, kv) =
      file_read env tier (int off) (word_of_nat n) True (?res this, kv')"
    by (rule read_after_hold) (simp_all add: upd_meta_def)
  have ok: "file_ok (?res this, kv')" "content (?res this, kv') = orig"
    using un(2,3) by (simp_all add: eq file_ok_def inode_inv_def resident_def content_def)
  show thesis
    using that [of "?res this" kv'] file_ok_read [OF ok(1), of off n] assms(5,6) ok unfolding read by simp
qed

section \<open>Evicting\<close>

lemma stat_ok:
  assumes "reliable kv" "inode_inv (this, kv)"
  shows "file_stat b (this, kv) = Val (STATUS_OK, stat_of_meta (f_meta this), this, kv)"
  using assms by (simp add: file_stat_def inode_inv_def readFromLog_def kv_simps codec_simps)

lemma Evict_spec:
  assumes "file_ok (this, kv)"
  obtains this' kv' where "Evict b (this, kv) = Val (STATUS_OK, this', kv')" "evicted (this', kv')"
    "f_size this' = f_size this" "f_handle this' = f_handle this" "f_csz this' = f_csz this"
    "\<And>c. c < 2 ^ 63 \<Longrightarrow> chunk_val kv' (f_handle this) c = []"
    "same_elsewhere (f_handle this) kv kv'"
proof -
  let ?h = "f_handle this"
  have inv: "data_inv (this, kv)" "inode_inv (this, kv)" using assms by (simp_all add: file_ok_def)
  have I: "reliable kv" "0 < f_csz this" "f_size this < 2 ^ 63" "m_fileInitialSize (f_meta this) = 0"
    "chunks_within kv ?h (f_csz this) (f_size this)"
    using inv(1) by (simp_all add: data_inv_def)
  obtain kv1 where res: "ResizeData 0 (int (f_size this)) (int (f_csz this)) 0 (this, kv) = Val (STATUS_OK, this, kv1)"
    and kv1: "reliable kv1" "only_chunks ?h kv kv1" "\<And>c. c < 2 ^ 63 \<Longrightarrow> chunk_val kv1 ?h c = []"
  proof (cases "f_size this = 0")
    case True
    then show thesis using that [of kv] I by (simp add: ResizeData_def only_chunks_def chunks_within_def)
  next
    case False
    then show thesis using ResizeData_spec [OF I(1,2,5) _ I(3), of 0] that by auto
  qed
  let ?d = "upd_meta (\<lambda>m. m\<lparr>m_evictionState := ES_DATA_EVICTED\<rparr>) (this\<lparr>f_metaDirty := True\<rparr>)"
  let ?t = "upd_meta (\<lambda>m. m\<lparr>m_evictionState := ES_DATA_EVICTED\<rparr>) (this\<lparr>f_metaDirty := False\<rparr>)"
  let ?kv = "kv1\<lparr>kv_data := (kv_data kv1)(inode_key ?h := Some (meta_encode (f_meta ?t)))\<rparr>"
  have "m_handle (f_meta ?d) = f_handle ?d" using inv(2) by (simp add: inode_inv_def upd_meta_def)
  from flush_ok [OF kv1(1) this] have fl: "file_flush (?d, kv1) = (STATUS_OK, ?t, ?kv)" by (simp add: upd_meta_def)
  have "st_size (stat_of_meta (f_meta this)) = int (f_size this)"
    by (simp add: stat_of_meta_def sint_f_size [OF I(3)])
  then have "Evict b (this, kv) = Val (STATUS_OK, ?t, ?kv)"
    using res fl I(4) by (simp add: Evict_def stat_ok [OF I(1) inv(2)])
  moreover have "evicted (?t, ?kv)"
    using inv(2) kv1 I by (simp add: evicted_def data_inv_def inode_inv_def upd_meta_def meta_wf_def f_size_def f_csz_def
        chunks_within_def)
  moreover have "same_elsewhere ?h kv ?kv"
    using kv1(2) by (auto simp: same_elsewhere_def only_chunks_def file_key_def)
  ultimately show thesis
    using kv1(3) by (intro that [of ?t ?kv]) (simp_all add: upd_meta_def f_size_def f_csz_def)
qed

section \<open>Properties\<close>

text \<open>
  C13. Evicting a file and reading it again loses nothing: eviction removes every chunk of the
  file and nothing else of the store but its inode; a later read, with a tiering agent that
  serves the bytes the file had, returns those bytes and leaves the file resident with its old
  contents.
\<close>

theorem evict_then_read:
  assumes "file_ok (this, kv)" "tier (f_handle this) = Some tf"
    and "tier_serves tf (f_handle this) (content (this, kv))" "off \<le> f_size this" "off + n < 2 ^ 63"
  shows "\<exists>this1 kv1 this2 kv2. Evict b (this, kv) = Val (STATUS_OK, this1, kv1) \<and>
    (\<forall>c<2 ^ 63. chunk_val kv1 (f_handle this) c = []) \<and> same_elsewhere (f_handle this) kv kv1 \<and>
    file_read env tier (int off) (word_of_nat n) True (this1, kv1) =
      Val (STATUS_OK, word_of_nat (length (take n (drop off (content (this, kv))))),
        take n (drop off (content (this, kv))), this2, kv2) \<and>
    file_ok (this2, kv2) \<and> content (this2, kv2) = content (this, kv)"
proof -
  obtain this1 kv1 where ev: "Evict b (this, kv) = Val (STATUS_OK, this1, kv1)" "evicted (this1, kv1)"
    "f_size this1 = f_size this" "f_handle this1 = f_handle this"
    "\<And>c. c < 2 ^ 63 \<Longrightarrow> chunk_val kv1 (f_handle this) c = []" "same_elsewhere (f_handle this) kv kv1"
    using Evict_spec [OF assms(1)] by metis
  obtain this2 kv2 where "file_read env tier (int off) (word_of_nat n) True (this1, kv1) =
      Val (STATUS_OK, word_of_nat (length (take n (drop off (content (this, kv))))),
        take n (drop off (content (this, kv))), this2, kv2)"
    "file_ok (this2, kv2)" "content (this2, kv2) = content (this, kv)"
    using read_evicted [OF ev(2), of tier tf "content (this, kv)" off n env] assms(2-5) ev(3,4) by auto
  with ev show ?thesis by blast
qed

definition served_copy :: "u64 \<Rightarrow> string \<Rightarrow> TieredInFile" where
  "served_copy h orig = \<lparr>tf_inode_num = h, tf_fstat_size = Some (int (length orig)),
     tf_pread = (\<lambda>off n. Some (take n (drop (nat off) orig)))\<rparr>"

lemma served_copy_serves: "tier_serves (served_copy h orig) h orig"
  by (simp add: tier_serves_def served_copy_def)

lemma sample_abc:
  obtains this kv where "file_ok (this, kv)" "content (this, kv) = ''abc''" "f_handle this = 5" "f_size this = 3"
proof -
  have ok: "file_ok (fst sample_file, snd sample_file)" using sample_file_ok(1) by simp
  have small: "0 + length ''abc'' < 2 ^ 63" by simp
  obtain this kv where
    "file_write sample_env (int 0) (word_of_nat (length ''abc'')) (Some ''abc'') True (fst sample_file, snd sample_file) =
       Val (STATUS_OK, word_of_nat (length ''abc''), this, kv)"
    and w: "file_ok (this, kv)" "content (this, kv) = write_at 0 ''abc'' (content (fst sample_file, snd sample_file))"
    and "same_elsewhere (f_handle (fst sample_file)) (snd sample_file) kv"
    and h: "f_handle this = f_handle (fst sample_file)"
    using file_ok_write [OF ok small] .
  have "content (this, kv) = ''abc''" using w(2) sample_file_ok(2) by (simp add: write_at_def)
  moreover from this have "f_size this = 3" using length_content [of this kv] by simp
  ultimately show thesis using that [OF w(1)] h sample_file_ok(3) by simp
qed

definition sample_stat :: stat_buf where
  "sample_stat = stat_of_meta (f_meta (fst sample_file))"

theorem evict_then_read_witness:
  "\<exists>this kv this1 kv1 this2 kv2. content (this, kv) = ''abc'' \<and>
    Evict sample_stat (this, kv) = Val (STATUS_OK, this1, kv1) \<and>
    file_read sample_env (\<lambda>h. Some (served_copy h ''abc'')) 1 8 True (this1, kv1) =
      Val (STATUS_OK, 2, ''bc'', this2, kv2)"
proof -
  obtain this kv where f: "file_ok (this, kv)" "content (this, kv) = ''abc''" "f_handle this = 5" "f_size this = 3"
    using sample_abc .
  have "\<exists>this1 kv1 this2 kv2. Evict sample_stat (this, kv) = Val (STATUS_OK, this1, kv1) \<and>
    file_read sample_env (\<lambda>h. Some (served_copy h ''abc'')) 1 8 True (this1, kv1) = Val (STATUS_OK, 2, ''bc'', this2, kv2)"
    using evict_then_read [OF f(1), of "\<lambda>h. Some (served_copy h ''abc'')" "served_copy 5 ''abc''" 1 8 sample_stat sample_env]
      f served_copy_serves [of 5 "''abc''"] by auto
  with f(2) show ?thesis by blast
qed

text \<open>
  C39. A read of an evicted file that cannot be restored reports success and returns NUL bytes
  in place of the data: \<^verbatim>\<open>HoldData\<close> drops the status of \<^verbatim>\<open>UnEvict\<close>, so when the tiering agent
  cannot open the file the reader gets the right number of bytes, all of them zero.
\<close>

theorem unrestorable_file_reads_as_zeros:
  assumes "file_ok (this, kv)" "tier (f_handle this) = None" "off \<le> f_size this" "off + n < 2 ^ 63"
  shows "\<exists>this1 kv1. Evict b (this, kv) = Val (STATUS_OK, this1, kv1) \<and>
    file_read env tier (int off) (word_of_nat n) True (this1, kv1) =
      Val (STATUS_OK, word_of_nat (min n (f_size this - off)), replicate (min n (f_size this - off)) NUL, this1, kv1)"
proof -
  obtain this1 kv1 where ev: "Evict b (this, kv) = Val (STATUS_OK, this1, kv1)" "evicted (this1, kv1)"
    "f_size this1 = f_size this" "f_handle this1 = f_handle this" "f_csz this1 = f_csz this"
    "\<And>c. c < 2 ^ 63 \<Longrightarrow> chunk_val kv1 (f_handle this) c = []"
    using Evict_spec [OF assms(1)] by metis
  have inv: "data_inv (this1, kv1)" "m_handle (f_meta this1) = f_handle this"
    using ev(2,4) by (simp_all add: evicted_def inode_inv_def)
  have size: "f_size this < 2 ^ 63" using assms(1) by (simp add: file_ok_def data_inv_def)
  have "UnEvict env tier (this1\<lparr>f_data_hold_count := f_data_hold_count this1 + 1\<rparr>, kv1) =
      Val (STATUS_OBJECT_DOESNT_EXIST, this1\<lparr>f_data_hold_count := f_data_hold_count this1 + 1\<rparr>, kv1)"
    using assms(2) inv(2) by (simp add: UnEvict_def)
  then have hold: "HoldData env tier (this1, kv1) = Val (this1\<lparr>f_data_hold_count := f_data_hold_count this1 + 1\<rparr>, kv1)"
    using ev(2) by (simp add: HoldData_def evicted_def)
  have u: "unat (word_of_nat n :: u64) = n" using assms(4) by (intro unat_of_small) simp
  have "content (this1, kv1) = replicate (f_size this) NUL"
    using ev(3-6) size div_small by (intro nth_equalityI) (simp_all add: content_def fbyte_def)
  moreover have "file_read env tier (int off) (word_of_nat n) True (this1, kv1) =
      Val (STATUS_OK, word_of_nat (length (take n (drop off (content (this1, kv1))))),
        take n (drop off (content (this1, kv1))), this1, kv1)"
    by (rule file_read_held [OF inv(1) hold, of off "word_of_nat n", unfolded u]) (use assms ev(3) in simp_all)
  ultimately show ?thesis using ev(1) by (auto simp: min.commute)
qed

theorem unrestorable_file_reads_as_zeros_witness:
  "\<exists>this kv this1 kv1. content (this, kv) = ''abc'' \<and> Evict sample_stat (this, kv) = Val (STATUS_OK, this1, kv1) \<and>
    file_read sample_env no_tier 0 8 True (this1, kv1) = Val (STATUS_OK, 3, [NUL, NUL, NUL], this1, kv1)"
proof -
  obtain this kv where f: "file_ok (this, kv)" "content (this, kv) = ''abc''" "f_handle this = 5" "f_size this = 3"
    using sample_abc .
  have "\<exists>this1 kv1. Evict sample_stat (this, kv) = Val (STATUS_OK, this1, kv1) \<and>
    file_read sample_env no_tier 0 8 True (this1, kv1) = Val (STATUS_OK, 3, [NUL, NUL, NUL], this1, kv1)"
    using unrestorable_file_reads_as_zeros [OF f(1), of no_tier 0 8 sample_stat sample_env] f(4)
    by (simp add: numeral_3_eq_3)
  with f(2) show ?thesis by blast
qed

text \<open>
  C38. A write to an evicted file is lost: \<^verbatim>\<open>write\<close> does not restore the data first, and the next
  read restores the whole file over it. Writing inside the file reports success, and reading
  the file afterwards returns the bytes it had before the write.
\<close>

theorem write_to_evicted_file_is_lost:
  assumes "evicted (this, kv)" "tier (f_handle this) = Some tf" "tier_serves tf (f_handle this) orig"
    and "length orig = f_size this" "off + length d \<le> f_size this"
  shows "\<exists>this1 kv1 this2 kv2.
    file_write env (int off) (word_of_nat (length d)) (Some d) True (this, kv) =
      Val (STATUS_OK, word_of_nat (length d), this1, kv1) \<and>
    file_read env tier 0 (word_of_nat (f_size this)) True (this1, kv1) =
      Val (STATUS_OK, word_of_nat (length orig), orig, this2, kv2)"
proof -
  have inv: "data_inv (this, kv)" "inode_inv (this, kv)" using assms(1) by (simp_all add: evicted_def)
  have handle: "m_handle (f_meta this) = f_handle this" and size: "f_size this < 2 ^ 63"
    using inv by (simp_all add: inode_inv_def data_inv_def)
  have small: "off + length d < 2 ^ 63" using assms(5) size by simp
  obtain this1 kv1 where w: "file_write env (int off) (word_of_nat (length d)) (Some d) True (this, kv) =
       Val (STATUS_OK, word_of_nat (length d), this1, kv1)"
    "data_inv (this1, kv1)" "content (this1, kv1) = write_at off d (content (this, kv))"
    "same_object this this1" "same_elsewhere (f_handle this) kv kv1"
    "kv_data kv1 (inode_key (f_handle this)) = Some (meta_encode (f_meta this1))"
    "m_handle (f_meta this1) = f_handle this" "m_fsId (f_meta this1) = m_fsId (f_meta this)"
    "meta_wf (f_meta this1) = meta_wf (f_meta this)"
    using file_write_spec [OF inv(1) handle small] .
  have "evicted (this1, kv1)"
    using w(2,4,6-9) inv(2) assms(1) by (simp add: evicted_def inode_inv_def same_object_def)
  moreover have "f_size this1 = f_size this"
    using arg_cong [OF w(3), of length] assms(5) by simp
  moreover have "f_handle this1 = f_handle this" using w(4) by (simp add: same_object_def)
  ultimately obtain this2 kv2 where "file_read env tier (int 0) (word_of_nat (f_size this)) True (this1, kv1) =
      Val (STATUS_OK, word_of_nat (length (take (f_size this) (drop 0 orig))), take (f_size this) (drop 0 orig), this2, kv2)"
    using read_evicted [of this1 kv1 tier tf orig 0 "f_size this" env] assms(2-4) size by (metis add_0 le0)
  with w(1) assms(4) show ?thesis by auto
qed

theorem write_to_evicted_file_is_lost_witness:
  "\<exists>this kv this1 kv1 this2 kv2. evicted (this, kv) \<and>
    file_write sample_env 0 1 (Some ''Z'') True (this, kv) = Val (STATUS_OK, 1, this1, kv1) \<and>
    file_read sample_env (\<lambda>h. Some (served_copy h ''abc'')) 0 3 True (this1, kv1) =
      Val (STATUS_OK, 3, ''abc'', this2, kv2)"
proof -
  obtain this0 kv0 where f: "file_ok (this0, kv0)" "content (this0, kv0) = ''abc''" "f_handle this0 = 5" "f_size this0 = 3"
    using sample_abc .
  obtain this kv where ev: "evicted (this, kv)" "f_size this = 3" "f_handle this = 5"
    using Evict_spec [OF f(1)] f(3,4) by metis
  have "\<exists>this1 kv1 this2 kv2. file_write sample_env 0 1 (Some ''Z'') True (this, kv) = Val (STATUS_OK, 1, this1, kv1) \<and>
    file_read sample_env (\<lambda>h. Some (served_copy h ''abc'')) 0 3 True (this1, kv1) = Val (STATUS_OK, 3, ''abc'', this2, kv2)"
    using write_to_evicted_file_is_lost
      [OF ev(1), of "\<lambda>h. Some (served_copy h ''abc'')" "served_copy 5 ''abc''" "''abc''" 0 "''Z''" sample_env]
      ev served_copy_serves [of 5 "''abc''"] by simp
  with ev(1) show ?thesis by blast
qed

end
