(* ===== verification/FileMeta.thy ===== *)
theory FileMeta
  imports FileSpec
begin

unbundle bit_operations_syntax

text \<open>
  Metadata operations of a file and the edges of the data path: closing an unlinked file,
  permissions, attributes, a store that refuses a write, and a read beyond the end of the
  file.
\<close>

section \<open>Closing\<close>

lemma size0_no_chunks:
  "data_inv (this, kv) \<Longrightarrow> f_size this = 0 \<Longrightarrow> c < 2 ^ 63 \<Longrightarrow> chunk_val kv (f_handle this) c = []"
  by (force simp: data_inv_def chunks_within_def)

text \<open>
  C26. Closing a file without links deletes it: its inode leaves the store and every chunk is
  gone, while the keys of other files stay; closing a file that still has a link changes
  nothing.
\<close>

theorem close_deletes_unlinked_file:
  assumes "file_ok (this, kv)"
  shows "if m_nLink (f_meta this) = 0
    then \<exists>this' kv'. file_close env (this, kv) = Val (STATUS_OK, this', kv') \<and>
      kv_data kv' (inode_key (f_handle this)) = None \<and>
      (\<forall>c<2 ^ 63. chunk_val kv' (f_handle this) c = []) \<and> same_elsewhere (f_handle this) kv kv'
    else file_close env (this, kv) = Val (STATUS_OK, this, kv)"
proof (cases "m_nLink (f_meta this) = 0")
  case True
  obtain this1 kv1 where s: "SetSize env (int 0) (this, kv) = Val (STATUS_OK, this1, kv1)" "file_ok (this1, kv1)"
    "content (this1, kv1) = str_resize 0 (content (this, kv))" "same_elsewhere (f_handle this) kv kv1"
    "f_handle this1 = f_handle this"
    by (rule file_ok_resize [OF assms, of 0 env]) simp
  have inv: "data_inv (this1, kv1)" "reliable kv1" using s(2) by (simp_all add: file_ok_def data_inv_def)
  have "f_size this1 = 0" using arg_cong [OF s(3), of length] by simp
  note empty = size0_no_chunks [OF inv(1) this]
  let ?kv = "kv1\<lparr>kv_data := (kv_data kv1)(inode_key (f_handle this) := None)\<rparr>"
  have "file_close env (this, kv) = Val (STATUS_OK, this1, ?kv)"
    using True s(1,5) inv(2) by (simp add: file_close_def RemoveInodeFromKvs_def kv_simps)
  moreover have "same_elsewhere (f_handle this) kv ?kv"
    using s(4) by (auto simp: same_elsewhere_def file_key_def)
  ultimately show ?thesis using True empty s(5) by auto
next
  case False
  then have "\<not> m_nLink (f_meta this) \<le> 0" by simp
  with False show ?thesis by (simp add: file_close_def)
qed

theorem close_deletes_unlinked_file_witness:
  "\<exists>this' kv'. file_close sample_env sample_file = Val (STATUS_OK, this', kv') \<and>
    kv_data kv' (inode_key 5) = None \<and> (\<forall>c<2 ^ 63. chunk_val kv' 5 c = [])"
proof -
  have "m_nLink (f_meta (fst sample_file)) = 0"
    by (simp add: sample_file_def writeToLog_reliable initMeta_def Let_def upd_meta_def)
  then show ?thesis
    using close_deletes_unlinked_file [of "fst sample_file" "snd sample_file" sample_env] sample_file_ok
    by auto
qed

text \<open>
  C25. Changing the mode of a file is durable and exact: \<^verbatim>\<open>chmod\<close> succeeds, a later \<^verbatim>\<open>stat\<close> from the
  store reports the file's type with the permission bits asked for, and the contents are
  untouched.
\<close>

theorem chmod_is_durable:
  assumes "file_ok (this, kv)"
  shows "\<exists>this' kv' st. file_chmod mode (this, kv) = (STATUS_OK, this', kv') \<and>
    file_stat b (this', kv') = Val (STATUS_OK, st, this', kv') \<and>
    st_mode st = type_bits (m_type (f_meta this)) OR (mode AND 0xFFF) \<and>
    file_ok (this', kv') \<and> content (this', kv') = content (this, kv)"
proof -
  let ?d = "setProtectionFromMode (this\<lparr>f_mode := mode\<rparr>)"
  let ?t = "?d\<lparr>f_metaDirty := False\<rparr>"
  let ?kv = "kv\<lparr>kv_data := (kv_data kv)(inode_key (f_handle this) := Some (meta_encode (f_meta ?d)))\<rparr>"
  have inv: "data_inv (this, kv)" "inode_inv (this, kv)" "resident (this, kv)" and rel: "reliable kv"
    using assms by (simp_all add: file_ok_def data_inv_def)
  have m: "f_meta ?t = (f_meta this)\<lparr>m_protection := SetProtectionFromMode mode\<rparr>" "f_handle ?t = f_handle this"
    "f_fsId ?t = f_fsId this" "f_size ?t = f_size this" "f_csz ?t = f_csz this"
    by (simp_all add: setProtectionFromMode_def upd_meta_def f_size_def f_csz_def)
  have "m_handle (f_meta ?d) = f_handle ?d" "f_handle ?d = f_handle this"
    using inv(2) by (simp_all add: inode_inv_def setProtectionFromMode_def upd_meta_def)
  from flush_ok [OF rel this(1)] this(2)
  have "file_chmod mode (this, kv) = (STATUS_OK, ?t, ?kv)" by (simp add: file_chmod_def)
  moreover have ok: "inode_inv (?t, ?kv)" "reliable ?kv"
    using inv(2) rel m by (simp_all add: inode_inv_def meta_wf_def)
  moreover have "file_ok (?t, ?kv)"
    using inv m ok by (simp add: file_ok_def data_inv_def resident_def)
  moreover have "content (?t, ?kv) = content (this, kv)" by (simp add: content_def m)
  moreover have "file_stat b (?t, ?kv) = Val (STATUS_OK, stat_of_meta (f_meta ?t), ?t, ?kv)"
    using ok by (simp add: file_stat_def inode_inv_def readFromLog_def kv_simps codec_simps)
  ultimately show ?thesis
    by (auto simp: m stat_of_meta_def ModeFromMeta_def prot_bits_SetProtection)
qed

theorem chmod_is_durable_witness:
  "\<exists>this' kv' st. file_chmod 0x180 sample_file = (STATUS_OK, this', kv') \<and>
    file_stat (stat_of_meta (f_meta (fst sample_file))) (this', kv') = Val (STATUS_OK, st, this', kv') \<and> st_mode st = 0x8180"
proof -
  have "m_type (f_meta (fst sample_file)) = LOGFS_IFREG"
    by (simp add: sample_file_def writeToLog_reliable initMeta_def Let_def setTypeFromMode_def
        setProtectionFromMode_def upd_meta_def typeFromMode_def S_ISREG_def S_ISDIR_def ifmt_defs new_LogFSFile_def)
  then show ?thesis
    using chmod_is_durable [of "fst sample_file" "snd sample_file" "0x180" "stat_of_meta (f_meta (fst sample_file))"]
      sample_file_ok(1) by (auto simp: ifmt_defs)
qed

section \<open>Permissions\<close>

text \<open>The bits of a mode that apply to a caller: the owner's, else the group's, else the others'.\<close>

definition class_shift :: "u32 \<Rightarrow> u32 \<Rightarrow> LogFSFile \<Rightarrow> nat" where
  "class_shift uid gid this =
     (if uid = m_userId (f_meta this) then 6 else if gid = m_groupId (f_meta this) then 3 else 0)"

lemma perm_allows_bits:
  "perm_allows mode p \<longleftrightarrow> (bit mode 0 \<longrightarrow> p_exec p) \<and> (bit mode 1 \<longrightarrow> p_write p) \<and> (bit mode 2 \<longrightarrow> p_read p)"
  using and_flag_bit [of mode 0] and_flag_bit [of mode 1] and_flag_bit [of mode 2]
  by (auto simp: perm_allows_def Let_def X_OK_def W_OK_def R_OK_def)

lemma bit_ModeFromMeta:
  "bit (ModeFromMeta t p) 0 = p_exec (other p)" "bit (ModeFromMeta t p) 1 = p_write (other p)"
  "bit (ModeFromMeta t p) 2 = p_read (other p)" "bit (ModeFromMeta t p) 3 = p_exec (group p)"
  "bit (ModeFromMeta t p) 4 = p_write (group p)" "bit (ModeFromMeta t p) 5 = p_read (group p)"
  "bit (ModeFromMeta t p) 6 = p_exec (owner p)" "bit (ModeFromMeta t p) 7 = p_write (owner p)"
  "bit (ModeFromMeta t p) 8 = p_read (owner p)"
  by (simp_all add: ModeFromMeta_def prot_bits_def bit_or_iff bit_flag type_bits_low)

text \<open>
  C24. \<^verbatim>\<open>access\<close> grants a request exactly when every permission asked for (bit 0 to execute, 1 to
  write, 2 to read) is set in the three bits of the file's mode that apply to the caller: the
  owner's bits for the owner, else the group's for the group, else the others'; a refusal
  reports \<^verbatim>\<open>EACCES\<close>. A request for nothing (\<^verbatim>\<open>F_OK\<close>) is granted on every object, whether or not its
  file exists, where the comment above the function promises an error for one that does not.
\<close>

theorem access_checks_mode_bits:
  "file_access mode uid gid this =
    (if {b \<in> {0, 1, 2}. bit mode b} \<subseteq>
        {b. bit (ModeFromMeta (m_type (f_meta this)) (m_protection (f_meta this))) (class_shift uid gid this + b)}
     then (STATUS_OK, None) else (STATUS_INVALID_PARAMETER, Some EACCES))"
proof -
  have "{b \<in> {0, 1, 2}. bit mode b} \<subseteq> S \<longleftrightarrow>
      (bit mode 0 \<longrightarrow> 0 \<in> S) \<and> (bit mode 1 \<longrightarrow> 1 \<in> S) \<and> (bit mode 2 \<longrightarrow> 2 \<in> S)" for S
    by auto
  then show ?thesis
    by (simp add: file_access_def Let_def perm_allows_bits class_shift_def bit_ModeFromMeta [unfolded One_nat_def]
        bit_ModeFromMeta(3) [unfolded numeral_2_eq_2])
qed

section \<open>Attributes\<close>

text \<open>
  \<^verbatim>\<open>SetAttr\<close> does not persist what it sets: it succeeds and updates the object in memory, but
  the store is as before, and a \<^verbatim>\<open>stat\<close> right after it reports (and restores in the object) the
  attributes from before the call.
\<close>

theorem setattr_is_not_durable:
  assumes "file_ok (this, kv)" "st_ino attr = f_handle this"
  shows "\<exists>this'. SetAttr attr (this, kv) = Val (STATUS_OK, this', kv) \<and>
    m_userId (f_meta this') = st_uid attr \<and> m_groupId (f_meta this') = st_gid attr \<and>
    (\<exists>this''. file_stat b (this', kv) = Val (STATUS_OK, stat_of_meta (f_meta this), this'', kv) \<and>
      f_meta this'' = f_meta this)"
proof -
  have I: "inode_inv (this, kv)" "reliable kv" using assms(1) by (simp_all add: file_ok_def data_inv_def)
  show ?thesis
    using I assms(2)
    by (simp add: SetAttr_def file_stat_def inode_inv_def readFromLog_def kv_simps codec_simps Let_def
        setProtectionFromMode_def upd_meta_def)
qed

theorem setattr_is_not_durable_witness:
  "\<exists>this'. SetAttr ((stat_of_meta (f_meta (fst sample_file)))\<lparr>st_ino := 5, st_uid := 1000\<rparr>) sample_file =
      Val (STATUS_OK, this', snd sample_file) \<and> m_userId (f_meta this') = 1000"
  using setattr_is_not_durable [of "fst sample_file" "snd sample_file"
      "(stat_of_meta (f_meta (fst sample_file)))\<lparr>st_ino := 5, st_uid := 1000\<rparr>"] sample_file_ok
  by auto

section \<open>A store that refuses a write\<close>

text \<open>
  C27. When the store refuses the first chunk of a write, the write reports an error and no
  bytes written, and nothing has changed: not the object, in particular not its size, and not
  the store. This holds for any store, whatever else it refuses.
\<close>

theorem refused_write_changes_nothing:
  assumes "m_fileInitialSize (f_meta this) = 0" "0 < f_csz this" "buf \<noteq> []" "off + length buf < 2 ^ 63"
    and "kv_fault kv KvPut (chunk_key (f_handle this) (int (off div f_csz this)))"
  shows "file_write env (int off) (word_of_nat (length buf)) (Some buf) update (this, kv) =
    Val (STATUS_INTERNAL_ERROR, 0, this, kv)"
proof -
  let ?c = "off div f_csz this" and ?n = "length buf"
  have n: "0 < ?n" "?n < 2 ^ 63" using assms(3,4) by auto
  note split = chunk_split [OF assms(2) n(1), of off]
  have base: "int ?c * int (f_csz this) \<le> int off" "int off < int ?c * int (f_csz this) + int (f_csz this)"
    using split(1,2) by (simp_all flip: of_nat_mult of_nat_add)
  define e where "e = min (int off + int ?n) (int ?c * int (f_csz this) + int (f_csz this))"
  have e: "0 < e - int off" "\<not> int ?n < e - int off" using base n by (auto simp: e_def)
  have "write_step this (int ?c) (int off) (word_of_nat ?n) buf kv = Val (False, e - int off, kv)"
    using assms(1,3,5) base e n(2)
    by (simp add: write_step_def Let_def sint_of_small e_def [symmetric] kv_put_def)
  moreover have "cquot (int (off + ?n) - 1) (int (f_csz this)) = int ((off + ?n - 1) div f_csz this)"
    using cquot_int [OF assms(2), of "off + ?n - 1"] n by simp
  moreover have "sint (word_of_int (int off) + (word_of_nat ?n :: u64)) = int (off + ?n)"
    using sint_of_small [OF assms(4)] by simp
  moreover have "cquot (int off) (int (f_csz this)) = int ?c" using assms(2) by (rule cquot_int)
  ultimately show ?thesis
    using assms(1,2) split(8)
    by (simp add: file_write_def Let_def write_loop.simps [of _ _ "int ?c"] del: cquot_nonneg of_nat_add)
qed

text \<open>A store out of space: reads work, writes and removals fail.\<close>

definition full_store :: "kvs \<Rightarrow> kvs" where
  "full_store kv = kv\<lparr>kv_fault := (\<lambda>oper _. oper \<noteq> KvGet)\<rparr>"

theorem refused_write_changes_nothing_witness:
  "file_write sample_env 0 3 (Some ''abc'') True (fst sample_file, full_store (snd sample_file)) =
    Val (STATUS_INTERNAL_ERROR, 0, fst sample_file, full_store (snd sample_file))"
  using refused_write_changes_nothing [of "fst sample_file" "''abc''" 0 "full_store (snd sample_file)" sample_env True]
  by (simp add: sample_file_def writeToLog_reliable full_store_def)

section \<open>Reading beyond the end\<close>

lemma wrapped_length:
  assumes "0 < d" "d < 2 ^ 62"
  shows "uint (- word_of_nat d :: u64) = 2 ^ 64 - int d" "sint (- word_of_nat d :: u64) = - int d"
proof -
  have d: "int d < 2 ^ 62" "0 < int d" using assms by simp_all
  have "uint (word_of_int (- int d) :: u64) = (- int d) mod 2 ^ 64"
    unfolding uint_word_of_int_eq take_bit_eq_mod by simp
  also have "\<dots> = 2 ^ 64 - int d" using d by (simp add: zmod_zminus1_eq_if)
  finally show "uint (- word_of_nat d :: u64) = 2 ^ 64 - int d" by simp
  have "sint (word_of_int (- int d) :: u64) = signed_take_bit 63 (- int d)"
    unfolding sint_sbintrunc' by simp
  also have "\<dots> = - int d" by (intro signed_take_bit_int_eq_self) (use d in simp_all)
  finally show "sint (- word_of_nat d :: u64) = - int d" by simp
qed

lemma read_step_beyond:
  assumes "data_inv (this, kv)" "f_size this < off" "off < 2 ^ 62" "d = off - f_size this"
  defines "c \<equiv> off div f_csz this" and "z \<equiv> f_csz this - off mod f_csz this"
  shows "read_step this kv (int c) (int off) (- word_of_nat d) [] =
    Val (int (off + z), - word_of_nat d - word_of_nat z, replicate z NUL)"
proof -
  let ?v = "chunk_val kv (f_handle this) c" and ?csz = "f_csz this"
  have I: "reliable kv" "0 < ?csz" "m_fileInitialSize (f_meta this) = 0"
    "chunks_within kv (f_handle this) ?csz (f_size this)"
    using assms(1) by (simp_all add: data_inv_def)
  have d: "0 < d" "d < 2 ^ 62" using assms(2-4) by auto
  have "int off = int (c * ?csz + off mod ?csz)" by (simp only: c_def div_mult_mod_eq)
  moreover have "int z = int ?csz - int (off mod ?csz)"
    using I(2) by (simp add: z_def of_nat_diff less_imp_le)
  ultimately have parts: "int off = int c * int ?csz + int (off mod ?csz)" "int z = int ?csz - int (off mod ?csz)"
    by simp_all
  have cz: "int off - int c * int ?csz = int (off mod ?csz)" "int c * int ?csz \<le> int off"
    "int c * int ?csz + int ?csz - int off = int z"
    using parts by linarith+
  have "c < 2 ^ 63" unfolding c_def using assms(3) by (intro div_small) simp
  then have "length ?v \<le> off mod ?csz"
    using I(4) assms(2) mod_bound [of off ?csz "length ?v"]
    by (cases "?v = []") (force simp: chunks_within_def c_def)+
  then have none: "\<not> 0 < min (int (length ?v) - int (off mod ?csz)) (- int d)" by auto
  have z: "z < 2 ^ 32" using f_csz_bound [of this] by (simp add: z_def)
  have "min (- word_of_nat d :: u64) (word_of_nat z) = word_of_nat z"
    using z d by (simp add: min_def word_le_def wrapped_length uint_of_small)
  moreover have "(0 :: u64) < - word_of_nat d" using d by (simp add: word_less_def wrapped_length)
  moreover have "unat (word_of_nat z :: u64) = z" "uint (word_of_nat z :: u64) = int z"
    using z by (simp_all add: unat_of_small uint_of_small)
  ultimately show ?thesis
    using none
    by (simp only: read_step_def Let_def chunk_val_get [OF I(1)] I(3) unsigned_0 add_0 uint_f(1)
        wrapped_length [OF d] cz expect_simps if_False prod.case of_int_of_nat_eq of_nat_add append_Nil if_True)
qed

text \<open>
  A read that starts beyond the end of the file, in its last chunk, does not return 0: the
  subtraction that limits the length wraps around, and the call stores NUL bytes up to the end
  of the chunk in the caller's buffer, however short the buffer is, and reports them as read.
\<close>

theorem read_beyond_end_overruns:
  assumes "file_ok (this, kv)" "0 < f_size this" "f_size this < off" "off + n < 2 ^ 62"
    and "off div f_csz this = (f_size this - 1) div f_csz this"
  shows "file_read env tier (int off) (word_of_nat n) True (this, kv) =
    Val (STATUS_OK, word_of_nat (f_csz this - off mod f_csz this), replicate (f_csz this - off mod f_csz this) NUL, this, kv)"
proof -
  let ?held = "this\<lparr>f_data_hold_count := f_data_hold_count this + 1\<rparr>" and ?c = "off div f_csz this"
  define d where "d = off - f_size this"
  define z where "z = f_csz this - off mod f_csz this"
  have inv: "data_inv (this, kv)" "m_evictionState (f_meta this) = ES_RESIDENT"
    using assms(1) by (simp_all add: file_ok_def resident_def)
  have I: "f_size this < 2 ^ 63" "0 < f_csz this" "m_fileInitialSize (f_meta this) = 0"
    using inv(1) by (simp_all add: data_inv_def)
  have d: "0 < d" "d < 2 ^ 62" "0 < d + 1" "d + 1 < 2 ^ 62"
    using assms(2-4) unfolding d_def by linarith+
  have off: "off < 2 ^ 62" using assms(4) by simp
  have "m_fileTotalSize (f_meta this) = word_of_nat (f_size this)" by (simp add: f_size_def)
  then have limit: "m_fileTotalSize (f_meta this) - word_of_nat off = - word_of_nat d"
    using assms(3) by (simp add: d_def)
  have cond: "int off + sint (word_of_nat n :: u64) > sint (m_fileTotalSize (f_meta this))"
    using assms(3,4) by (simp add: sint_f_size [OF I(1)] sint_of_small)
  have "int off + sint (- word_of_nat d - 1 :: u64) = int (f_size this - 1)"
    using wrapped_length(2) [OF d(3,4)] assms(2,3) by (simp add: d_def)
  then have lc: "cquot (int off + sint (- word_of_nat d - 1 :: u64)) (int (f_csz this)) = int ?c"
    using assms(5) by (simp only: cquot_int [OF I(2)])
  have "data_inv (?held, kv)" using inv(1) by simp
  from read_step_beyond [OF this, of off d] assms(3) off
  have "read_step ?held kv (int ?c) (int off) (- word_of_nat d) [] =
      Val (int (off + z), - word_of_nat d - word_of_nat z, replicate z NUL)"
    by (simp add: d_def z_def)
  then have loop: "read_loop ?held kv (int ?c) (int ?c) (int off) (- word_of_nat d) [] =
      Val (- word_of_nat d - word_of_nat z, replicate z NUL)"
    by (simp add: read_loop.simps [of _ _ _ "int ?c"] read_loop.simps [of _ _ _ "int ?c + 1"])
  have "m_fileChunkSize (f_meta this) \<noteq> 0" using I(2) by (auto simp: f_csz_def)
  moreover have "0 < uint (- word_of_nat d :: u64)" using d by (simp add: wrapped_length)
  ultimately have "file_read env tier (int off) (word_of_nat n) True (this, kv) =
    Val (STATUS_OK, - word_of_nat d - (- word_of_nat d - word_of_nat z), replicate z NUL, this, kv)"
    using cond loop lc I(3) HoldData_resident [OF inv(2), of env tier kv]
    by (simp add: file_read_def Let_def limit ReleaseData_hold cquot_int [OF I(2)] del: cquot_nonneg)
  then show ?thesis by (simp add: z_def)
qed

theorem read_beyond_end_overruns_witness:
  "\<exists>this kv. content (this, kv) = [NUL, NUL, NUL, CHR ''x''] \<and>
    file_read sample_env no_tier 10 1 True (this, kv) = Val (STATUS_OK, 8182, replicate 8182 NUL, this, kv)"
proof -
  have ok: "file_ok (fst sample_file, snd sample_file)" using sample_file_ok(1) by simp
  have small: "3 + length ''x'' < 2 ^ 63" by simp
  have hold: "data_inv (fst sample_file, snd sample_file)" "m_handle (f_meta (fst sample_file)) = f_handle (fst sample_file)"
    using ok unfolding file_ok_def inode_inv_def prod.case by blast+
  obtain kv1 where loop: "write_loop (fst sample_file) (cquot (sint (word_of_int (int 3) + (word_of_nat (length ''x'') :: u64)) - 1)
        (int (f_csz (fst sample_file)))) (cquot (int 3) (int (f_csz (fst sample_file)))) (int 3) (word_of_nat (length ''x'')) ''x'' (snd sample_file)
     = Val (STATUS_OK, int (3 + length ''x''), kv1)" "reliable kv1"
    using write_data_spec [OF hold(1) small] by blast
  from file_write_result [OF hold loop(2,1), of sample_env]
  obtain kv2 where w: "file_write sample_env (int 3) (word_of_nat (length ''x'')) (Some ''x'') True (fst sample_file, snd sample_file) =
      Val (STATUS_OK, word_of_nat (length ''x''), after_write sample_env (int (3 + length ''x'')) (fst sample_file), kv2)"
    by blast
  let ?t = "after_write sample_env (int (3 + length ''x'')) (fst sample_file)"
  have "file_ok (?t, kv2)" "content (?t, kv2) = write_at 3 ''x'' (content (fst sample_file, snd sample_file))"
    using file_ok_write [OF ok small, of sample_env] w by (metis Pair_inject outcome.inject)+
  moreover have "f_csz ?t = 8192" by (simp add: sample_file_def writeToLog_reliable)
  moreover from calculation(2) have c: "content (?t, kv2) = [NUL, NUL, NUL, CHR ''x'']"
    using sample_file_ok(2) by (simp add: write_at_def numeral_3_eq_3)
  moreover from c have "f_size ?t = 4" using length_content [of ?t kv2] by simp
  ultimately show ?thesis
    using read_beyond_end_overruns [of ?t kv2 10 1 sample_env no_tier] by auto
qed

end
