(* ===== verification/Directory.thy ===== *)
theory Directory
  imports FileSpec
begin

text \<open>
  Directories (\<^verbatim>\<open>src/src/KVFSFile.cc\<close>, from \<^verbatim>\<open>get_num_partitions\<close> on, and \<^verbatim>\<open>create\<close>, \<^verbatim>\<open>link\<close>,
  \<^verbatim>\<open>remove\<close>): a directory is a file object whose names are spread over partitions by the hash
  of the name. The hash \<^verbatim>\<open>CityHash64\<close> is a library function and an argument of the model.

  The operations on two objects (\<^verbatim>\<open>create\<close> with a parent, \<^verbatim>\<open>link\<close> of a file into a directory)
  work on a heap of objects, so that the two may be the same object, as they are when the root
  directory is created.
\<close>

section \<open>Partitions of a directory\<close>

definition DEFAULT_PARTITIONS_PER_DIRECTORY :: nat where
  "DEFAULT_PARTITIONS_PER_DIRECTORY = 2"

definition get_num_partitions :: "LogFSFile \<Rightarrow> nat" where
  "get_num_partitions this =
     (case f_partitions this of None \<Rightarrow> DEFAULT_PARTITIONS_PER_DIRECTORY | Some v \<Rightarrow> length v)"

text \<open>\<^verbatim>\<open>at(p)\<close> outside the vector throws; the partition object is created on first use.\<close>

definition GetPartition :: "nat \<Rightarrow> LogFSFile \<Rightarrow> (LogFSDirectoryPartition \<times> LogFSFile) outcome" where
  "GetPartition p this =
     (let v = (case f_partitions this of
                 None \<Rightarrow> replicate DEFAULT_PARTITIONS_PER_DIRECTORY None | Some v \<Rightarrow> v)
      in if p \<ge> length v then Abort
         else let part = (case v ! p of
                            Some part \<Rightarrow> part
                          | None \<Rightarrow> new_LogFSDirectoryPartition (word_of_nat p) (f_fsId this) (f_handle this))
              in Val (part, this\<lparr>f_partitions := Some (v[p := Some part])\<rparr>))"

text \<open>The partition objects are owned by the vector: a call through the pointer changes it there.\<close>

definition set_partition :: "nat \<Rightarrow> LogFSDirectoryPartition \<Rightarrow> LogFSFile \<Rightarrow> LogFSFile" where
  "set_partition p part this = this\<lparr>f_partitions := map_option (\<lambda>v. v[p := Some part]) (f_partitions this)\<rparr>"

definition on_partition ::
  "nat \<Rightarrow> (LogFSDirectoryPartition \<times> kvs \<Rightarrow> ('r \<times> LogFSDirectoryPartition \<times> kvs) outcome) \<Rightarrow>
   fstate \<Rightarrow> ('r \<times> fstate) outcome" where
  "on_partition p call = (\<lambda>(this, kv).
     obind (GetPartition p this) (\<lambda>(part, this).
       obind (call (part, kv)) (\<lambda>(r, part, kv). Val (r, set_partition p part this, kv))))"

definition partition_of :: "(string \<Rightarrow> u64) \<Rightarrow> string \<Rightarrow> LogFSFile \<Rightarrow> nat" where
  "partition_of city name this = unat (city name) mod get_num_partitions this"

definition findHandle :: "(string \<Rightarrow> u64) \<Rightarrow> string \<Rightarrow> fstate \<Rightarrow> (u64 \<times> fstate) outcome" where
  "findHandle city name st = on_partition (partition_of city name (fst st)) (dp_findEntry name) st"

definition insertEntry :: "(string \<Rightarrow> u64) \<Rightarrow> u64 \<Rightarrow> string \<Rightarrow> fstate \<Rightarrow> (Status \<times> fstate) outcome" where
  "insertEntry city handle name st =
     obind (on_partition (partition_of city name (fst st)) (dp_insertEntry handle name) st)
       (\<lambda>(err, st). Val (if err \<noteq> 0 then STATUS_INTERNAL_ERROR else STATUS_OK, st))"

definition removeEntry :: "(string \<Rightarrow> u64) \<Rightarrow> u64 \<Rightarrow> string \<Rightarrow> fstate \<Rightarrow> (Status \<times> fstate) outcome" where
  "removeEntry city handle name st =
     obind (on_partition (partition_of city name (fst st)) (dp_removeEntry handle name) st)
       (\<lambda>(err, st). Val (if err \<noteq> 0 then STATUS_INTERNAL_ERROR else STATUS_OK, st))"

function isDirEmpty_loop :: "nat \<Rightarrow> fstate \<Rightarrow> nat \<Rightarrow> (bool \<times> fstate) outcome" where
  "isDirEmpty_loop i st n =
     (if i \<ge> n then Val (True, st)
      else obind (on_partition i isPartitionEmpty st) (\<lambda>(isEmpty, st).
             if \<not> isEmpty then Val (False, st) else isDirEmpty_loop (Suc i) st n))"
  by pat_completeness auto
termination
  by (relation "measure (\<lambda>(i, _, n). n - i)") auto

declare isDirEmpty_loop.simps [simp del]

text \<open>The number of partitions does not change while the loop runs.\<close>

definition isDirEmpty :: "fstate \<Rightarrow> (bool \<times> fstate) outcome" where
  "isDirEmpty st = isDirEmpty_loop 0 st (get_num_partitions (fst st))"

section \<open>Listing\<close>

definition MAX_ENTRIES_PER_PARTITION :: int where
  "MAX_ENTRIES_PER_PARTITION = 1000000"

text \<open>
  The adder has a state of its own, which contains the store it works on (\<open>kv_of\<close>) and knows
  whether it ran out of space. The directory object is passed along beside it.
\<close>

function list_partitions ::
  "'a adder \<Rightarrow> ('a \<Rightarrow> bool) \<Rightarrow> ('a \<Rightarrow> kvs) \<Rightarrow> nat \<Rightarrow> nat \<Rightarrow> int \<Rightarrow> LogFSFile \<Rightarrow> 'a \<Rightarrow> (LogFSFile \<times> 'a) outcome" where
  "list_partitions add out_of_space kv_of n i cur_offset this a =
     (if i \<ge> n \<or> out_of_space a then Val (this, a)
      else let part_base_offset = int i * MAX_ENTRIES_PER_PARTITION;
               cur_offset = (if cur_offset < part_base_offset then part_base_offset else cur_offset)
           in obind (GetPartition i this) (\<lambda>(part, this).
                obind (listEntries add cur_offset part_base_offset part (kv_of a) a) (\<lambda>(err, part, a).
                  expect (err = 0)
                    (list_partitions add out_of_space kv_of n (Suc i) cur_offset (set_partition i part this) a))))"
  by pat_completeness auto
termination
  by (relation "measure (\<lambda>(_, _, _, n, i, _, _, _). n - i)") auto

declare list_partitions.simps [simp del]

definition listDirectory ::
  "'a adder \<Rightarrow> ('a \<Rightarrow> bool) \<Rightarrow> ('a \<Rightarrow> kvs) \<Rightarrow> int \<Rightarrow> LogFSFile \<Rightarrow> 'a \<Rightarrow> (Status \<times> LogFSFile \<times> 'a) outcome" where
  "listDirectory add out_of_space kv_of cur_offset this a =
     obind (exists_in_log (this, kv_of a)) (\<lambda>found.
       if \<not> found then Val (STATUS_OBJECT_DOESNT_EXIST, this, a)
       else obind (list_partitions add out_of_space kv_of (get_num_partitions this)
                     (unat (word_of_int (cquot cur_offset MAX_ENTRIES_PER_PARTITION) :: u16)) cur_offset this a)
              (\<lambda>(this, a). Val (STATUS_OK, this, a)))"

section \<open>Operations on two objects\<close>

type_synonym 'o hstate = "('o \<Rightarrow> LogFSFile) \<times> kvs"

definition on_obj :: "'o \<Rightarrow> (fstate \<Rightarrow> ('r \<times> fstate) outcome) \<Rightarrow> 'o hstate \<Rightarrow> ('r \<times> 'o hstate) outcome" where
  "on_obj o1 call = (\<lambda>(objs, kv).
     obind (call (objs o1, kv)) (\<lambda>(r, t, kv). Val (r, objs(o1 := t), kv)))"

definition upd_obj :: "'o \<Rightarrow> (LogFSFile \<Rightarrow> LogFSFile) \<Rightarrow> 'o hstate \<Rightarrow> 'o hstate" where
  "upd_obj o1 g = (\<lambda>(objs, kv). (objs(o1 := g (objs o1)), kv))"

definition log_obj :: "'o \<Rightarrow> 'o hstate \<Rightarrow> Status \<times> 'o hstate" where
  "log_obj o1 = (\<lambda>(objs, kv). let (s, t, kv) = writeToLog (objs o1, kv) in (s, objs(o1 := t), kv))"

definition connectDots ::
  "(string \<Rightarrow> u64) \<Rightarrow> 'o \<Rightarrow> 'o \<Rightarrow> 'o \<Rightarrow> 'o hstate \<Rightarrow> (Status \<times> 'o hstate) outcome" where
  "connectDots city this dot dotdot s =
     expect (dot = this)
       (obind (on_obj this (insertEntry city (f_handle (fst s dot)) ''.'') s) (\<lambda>(status, s).
          if status = STATUS_OK
          then let s = upd_obj dot (NLinkAdjust 1) s;
                   s = upd_obj this (\<lambda>t. t\<lparr>f_metaDirty := True\<rparr>) s
               in obind (on_obj this (insertEntry city (f_handle (fst s dotdot)) ''..'') s) (\<lambda>(status, s).
                    if status = STATUS_OK
                    then Val (status, upd_obj dotdot (\<lambda>t. t\<lparr>f_metaDirty := True\<rparr>) (upd_obj dotdot (NLinkAdjust 1) s))
                    else Val (status, s))
          else Val (status, s)))"

definition file_create ::
  "env \<Rightarrow> (string \<Rightarrow> u64) \<Rightarrow> 'o \<Rightarrow> 'o \<Rightarrow> 'o hstate \<Rightarrow> (Status \<times> 'o hstate) outcome" where
  "file_create env city this parent s =
     (let s = upd_obj this (initMeta env) s
      in obind (on_obj parent (insertEntry city (f_handle (fst s this)) (f_nameString (fst s this))) s) (\<lambda>(err, s).
           if err = STATUS_OK
           then let s = upd_obj this (NLinkAdjust 1) s
                in if m_type (f_meta (fst s this)) = LOGFS_IFDIR
                   then obind (connectDots city this this parent s) (\<lambda>(_, s).
                          let (_, s) = log_obj parent s in Val (log_obj this s))
                   else Val (log_obj this s)
           else Val (STATUS_INTERNAL_ERROR, s)))"

definition file_link ::
  "env \<Rightarrow> (string \<Rightarrow> u64) \<Rightarrow> 'o \<Rightarrow> 'o \<Rightarrow> string \<Rightarrow> 'o hstate \<Rightarrow> (Status \<times> 'o hstate) outcome" where
  "file_link env city this file name s =
     obind (on_obj this (insertEntry city (f_handle (fst s file)) name) s) (\<lambda>(err, s).
       if err = STATUS_OK
       then let s = upd_obj this (UpdateMTime (now32 env)) (upd_obj this (UpdateCTime (now32 env)) s);
                s = upd_obj file (UpdateCTime (now32 env)) (upd_obj file (NLinkAdjust 1) s)
            in expect (m_type (f_meta (fst s file)) = LOGFS_IFREG)
                 (let (status, s) = log_obj this s;
                      (_, s) = log_obj file s
                  in Val (status, s))
       else Val (STATUS_INTERNAL_ERROR, s))"

definition file_remove ::
  "(string \<Rightarrow> u64) \<Rightarrow> 'o \<Rightarrow> 'o \<Rightarrow> string \<Rightarrow> 'o hstate \<Rightarrow> (Status \<times> 'o hstate) outcome" where
  "file_remove city this parent name s =
     obind (on_obj parent (removeEntry city (f_handle (fst s this)) name) s) (\<lambda>(err, s).
       if err = STATUS_OK then Val (STATUS_OK, upd_obj this (NLinkAdjust (- 1)) s)
       else Val (STATUS_INTERNAL_ERROR, s))"

definition createRoot :: "env \<Rightarrow> (string \<Rightarrow> u64) \<Rightarrow> 'o \<Rightarrow> 'o hstate \<Rightarrow> (Status \<times> 'o hstate) outcome" where
  "createRoot env city this s =
     obind (connectDots city this this this (upd_obj this (initMeta env) s)) (\<lambda>(_, s). Val (log_obj this s))"

section \<open>A directory as a table of names\<close>

definition dir_part :: "nat \<Rightarrow> LogFSFile \<Rightarrow> LogFSDirectoryPartition" where
  "dir_part p this =
     (case f_partitions this of
        None \<Rightarrow> new_LogFSDirectoryPartition (word_of_nat p) (f_fsId this) (f_handle this)
      | Some v \<Rightarrow> (case v ! p of
            Some part \<Rightarrow> part
          | None \<Rightarrow> new_LogFSDirectoryPartition (word_of_nat p) (f_fsId this) (f_handle this)))"

text \<open>There are as many partitions as a new directory has, and every partition stands for some table and is stored under the key of its number.\<close>

definition dir_inv :: "fstate \<Rightarrow> bool" where
  "dir_inv = (\<lambda>(this, kv).
     get_num_partitions this = DEFAULT_PARTITIONS_PER_DIRECTORY \<and>
     (\<forall>p < get_num_partitions this.
        dp_id (dir_part p this) = (f_fsId this, f_handle this, word_of_nat p) \<and>
        (\<exists>t. dp_inv t (dir_part p this, kv))))"

definition dir_lookup :: "(string \<Rightarrow> u64) \<Rightarrow> fstate \<Rightarrow> string \<Rightarrow> u64 option" where
  "dir_lookup city = (\<lambda>(this, kv) n. dp_lookup (dir_part (partition_of city n this) this, kv) n)"

definition put_part :: "nat \<Rightarrow> LogFSDirectoryPartition \<Rightarrow> LogFSFile \<Rightarrow> LogFSFile" where
  "put_part p part this =
     this\<lparr>f_partitions := Some ((case f_partitions this of
            None \<Rightarrow> replicate DEFAULT_PARTITIONS_PER_DIRECTORY None | Some v \<Rightarrow> v)[p := Some part])\<rparr>"

lemma put_part_simps [simp]:
  "get_num_partitions (put_part p part this) = get_num_partitions this"
  "f_handle (put_part p part this) = f_handle this" "f_fsId (put_part p part this) = f_fsId this"
  "f_meta (put_part p part this) = f_meta this"
  "f_nameString (put_part p part this) = f_nameString this"
  "partition_of city n (put_part p part this) = partition_of city n this"
  by (simp_all add: put_part_def get_num_partitions_def partition_of_def split: option.splits)

lemma dir_part_put [simp]:
  "p < get_num_partitions this \<Longrightarrow> q < get_num_partitions this \<Longrightarrow>
   dir_part q (put_part p part this) = (if q = p then part else dir_part q this)"
  by (auto simp: dir_part_def put_part_def get_num_partitions_def nth_list_update split: option.splits)

lemma on_partition_eq:
  "p < get_num_partitions this \<Longrightarrow> on_partition p call (this, kv) =
   obind (call (dir_part p this, kv)) (\<lambda>(r, part, kv'). Val (r, put_part p part this, kv'))"
  by (auto simp: on_partition_def GetPartition_def get_num_partitions_def dir_part_def put_part_def
      set_partition_def Let_def split: option.splits intro!: obind_cong)

lemma partition_of_less: "0 < get_num_partitions this \<Longrightarrow> partition_of city n this < get_num_partitions this"
  by (simp add: partition_of_def)

lemma dp_inv_frame:
  "dp_inv t (p, kv) \<Longrightarrow> kv_data kv' (dp_key p) = kv_data kv (dp_key p) \<Longrightarrow> reliable kv' \<Longrightarrow> dp_inv t (p, kv')"
  by (auto simp: dp_inv_def split: option.splits)

lemma dp_inv_reliable: "dp_inv t (p, kv) \<Longrightarrow> reliable kv"
  by (simp add: dp_inv_def)

lemma unat_word16: "p < 2 ^ 16 \<Longrightarrow> unat (word_of_nat p :: u16) = p"
  by (simp add: unsigned_of_nat take_bit_nat_eq_self)

lemma word16_inject: "p < 2 ^ 16 \<Longrightarrow> q < 2 ^ 16 \<Longrightarrow> (word_of_nat p :: u16) = word_of_nat q \<longleftrightarrow> p = q"
  by (metis unat_word16)

lemma dir_inv_num: "dir_inv (this, kv) \<Longrightarrow> 0 < get_num_partitions this" "dir_inv (this, kv) \<Longrightarrow> get_num_partitions this \<le> 2 ^ 16"
  by (simp_all add: dir_inv_def DEFAULT_PARTITIONS_PER_DIRECTORY_def)

lemma dir_part_key:
  "dir_inv (this, kv) \<Longrightarrow> p < get_num_partitions this \<Longrightarrow> dp_key (dir_part p this) = partition_key (f_handle this) (word_of_nat p)"
  by (auto simp: dir_inv_def dp_id_def dp_key_def)

lemma dir_key_distinct:
  assumes "dir_inv (this, kv)" "p < get_num_partitions this" "q < get_num_partitions this" "p \<noteq> q"
  shows "dp_key (dir_part q this) \<noteq> dp_key (dir_part p this)"
  using assms(2-4) dir_part_key [OF assms(1)] dir_inv_num(2) [OF assms(1)] by (auto simp: partition_key_inject word16_inject)

lemma partition_call:
  assumes inv: "dir_inv (this, kv)" and p: "p < get_num_partitions this"
    and call: "call (dir_part p this, kv) = Val (r, part', kv')"
    and part': "dp_inv t' (part', kv')" "dp_id part' = dp_id (dir_part p this)"
    and frame: "\<And>k. k \<noteq> dp_key (dir_part p this) \<Longrightarrow> kv_data kv' k = kv_data kv k"
  shows "on_partition p call (this, kv) = Val (r, put_part p part' this, kv')"
    "dir_inv (put_part p part' this, kv')"
    "dir_lookup city (put_part p part' this, kv') n =
       (if partition_of city n this = p then smap_find t' n else dir_lookup city (this, kv) n)"
proof -
  have keep: "dp_inv t (dir_part q this, kv')" if "dp_inv t (dir_part q this, kv)" "q < get_num_partitions this" "q \<noteq> p" for t q
    using dp_inv_frame [OF that(1)] frame dir_key_distinct [OF inv p that(2)] that(3) dp_inv_reliable [OF part'(1)]
    by metis
  show "on_partition p call (this, kv) = Val (r, put_part p part' this, kv')"
    by (simp add: on_partition_eq [OF p] call)
  show "dir_inv (put_part p part' this, kv')"
    using inv part' keep p unfolding dir_inv_def prod.case
    by (auto split: if_splits) metis
  have pl: "partition_of city n this < get_num_partitions this"
    by (rule partition_of_less [OF dir_inv_num(1) [OF inv]])
  show "dir_lookup city (put_part p part' this, kv') n =
       (if partition_of city n this = p then smap_find t' n else dir_lookup city (this, kv) n)"
  proof (cases "partition_of city n this = p")
    case True
    then show ?thesis using dp_lookup_inv [OF part'(1)] p by (simp add: dir_lookup_def)
  next
    case False
    obtain t where t: "dp_inv t (dir_part (partition_of city n this) this, kv)"
      using inv pl by (auto simp: dir_inv_def)
    then show ?thesis
      using False p pl dp_lookup_inv [OF t] dp_lookup_inv [OF keep [OF t pl False]]
      by (simp add: dir_lookup_def)
  qed
qed

lemma dir_tables:
  assumes "dir_inv (this, kv)"
  obtains t where "dp_inv t (dir_part (partition_of city n this) this, kv)"
    "partition_of city n this < get_num_partitions this"
    "dir_lookup city (this, kv) n = smap_find t n"
proof -
  have pl: "partition_of city n this < get_num_partitions this"
    by (rule partition_of_less [OF dir_inv_num(1) [OF assms]])
  then obtain t where t: "dp_inv t (dir_part (partition_of city n this) this, kv)"
    using assms by (auto simp: dir_inv_def)
  with pl show thesis using that dp_lookup_inv [OF t] by (simp add: dir_lookup_def)
qed

lemma dir_lookup_same:
  assumes "dir_inv (this, kv)" "dp_inv t (dir_part p this, kv)" "p < get_num_partitions this"
    and "\<And>n. dir_lookup city st n = (if partition_of city n this = p then smap_find t n else dir_lookup city (this, kv) n)"
  shows "dir_lookup city st = dir_lookup city (this, kv)"
  using assms(4) dp_lookup_inv [OF assms(2)] by (auto simp: dir_lookup_def fun_eq_iff)

text \<open>The object keeps everything but its partitions under a directory call.\<close>

definition same_file :: "LogFSFile \<Rightarrow> LogFSFile \<Rightarrow> bool" where
  "same_file a b \<longleftrightarrow> f_handle b = f_handle a \<and> f_fsId b = f_fsId a \<and> f_meta b = f_meta a \<and>
     f_nameString b = f_nameString a"

definition same_outside_dir :: "u64 \<Rightarrow> kvs \<Rightarrow> kvs \<Rightarrow> bool" where
  "same_outside_dir h kv kv' \<longleftrightarrow> (\<forall>k. (\<forall>p. k \<noteq> partition_key h p) \<longrightarrow> kv_data kv' k = kv_data kv k)"

lemma findHandle_spec:
  assumes "dir_inv (this, kv)"
  obtains this' where "findHandle city n (this, kv) =
      Val (case dir_lookup city (this, kv) n of None \<Rightarrow> 0 | Some h \<Rightarrow> h, this', kv)"
    "dir_inv (this', kv)" "dir_lookup city (this', kv) = dir_lookup city (this, kv)" "same_file this this'"
proof -
  obtain t where t: "dp_inv t (dir_part (partition_of city n this) this, kv)"
    "partition_of city n this < get_num_partitions this" "dir_lookup city (this, kv) n = smap_find t n"
    using dir_tables [OF assms] .
  obtain p' where p': "dp_findEntry n (dir_part (partition_of city n this) this, kv) =
      Val (case smap_find t n of None \<Rightarrow> 0 | Some h \<Rightarrow> h, p', kv)"
    "dp_inv t (p', kv)" "dp_id p' = dp_id (dir_part (partition_of city n this) this)"
    using findEntry_inv [OF t(1), of n] by blast
  note c = partition_call [OF assms t(2), of "dp_findEntry n", OF p' refl]
  show thesis
    by (rule that [of "put_part (partition_of city n this) p' this"])
      (use c(1,2) dir_lookup_same [OF assms t(1,2) c(3)] t(3) in \<open>simp_all add: findHandle_def same_file_def\<close>)
qed

lemma insertEntry_spec:
  assumes "dir_inv (this, kv)" "name_ok n"
  obtains this' kv' where "insertEntry city h n (this, kv) =
      Val (if dir_lookup city (this, kv) n = None then STATUS_OK else STATUS_INTERNAL_ERROR, this', kv')"
    "dir_inv (this', kv')" "same_file this this'" "same_outside_dir (f_handle this) kv kv'"
    "dir_lookup city (this', kv') = (if dir_lookup city (this, kv) n = None
       then (dir_lookup city (this, kv))(n := Some h) else dir_lookup city (this, kv))"
proof -
  let ?p = "partition_of city n this"
  obtain t where t: "dp_inv t (dir_part ?p this, kv)" "?p < get_num_partitions this"
    "dir_lookup city (this, kv) n = smap_find t n"
    using dir_tables [OF assms(1)] .
  have key: "dp_key (dir_part ?p this) = partition_key (f_handle this) (word_of_nat ?p)"
    using dir_part_key [OF assms(1) t(2)] .
  show thesis
  proof (cases "smap_find t n")
    case None
    then obtain p' kv' where p': "dp_insertEntry h n (dir_part ?p this, kv) = Val (0, p', kv')"
      "dp_inv (smap_insert n h t) (p', kv')" "dp_id p' = dp_id (dir_part ?p this)"
      "\<And>k. k \<noteq> dp_key (dir_part ?p this) \<Longrightarrow> kv_data kv' k = kv_data kv k"
      using insertEntry_inv [OF t(1) assms(2), of h] by auto
    note c = partition_call [OF assms(1) t(2), of "dp_insertEntry h n", OF p']
    have "dir_lookup city (put_part ?p p' this, kv') = (dir_lookup city (this, kv))(n := Some h)"
      using c(3) dp_lookup_inv [OF t(1)] smap_find_upd(1) [OF dp_inv_ok [OF t(1)], of n h]
      by (auto simp: fun_eq_iff dir_lookup_def)
    moreover have "same_outside_dir (f_handle this) kv kv'"
      using p'(4) key by (auto simp: same_outside_dir_def)
    ultimately show thesis
      using c(1,2) None t(3)
      by (intro that [of "put_part ?p p' this" kv']) (simp_all add: insertEntry_def same_file_def)
  next
    case (Some g)
    then obtain p' where p': "dp_insertEntry h n (dir_part ?p this, kv) = Val (EEXIST, p', kv)"
      "dp_inv t (p', kv)" "dp_id p' = dp_id (dir_part ?p this)"
      using insertEntry_inv [OF t(1) assms(2), of h] by auto
    note c = partition_call [OF assms(1) t(2), of "dp_insertEntry h n", OF p' refl]
    show thesis
      using c(1,2) dir_lookup_same [OF assms(1) t(1,2) c(3)] Some t(3)
      by (intro that [of "put_part ?p p' this" kv])
        (simp_all add: insertEntry_def same_file_def same_outside_dir_def EEXIST_def)
  qed
qed

lemma removeEntry_spec:
  assumes "dir_inv (this, kv)"
  obtains this' kv' where "removeEntry city h n (this, kv) =
      Val (if dir_lookup city (this, kv) n = None then STATUS_INTERNAL_ERROR else STATUS_OK, this', kv')"
    "dir_inv (this', kv')" "same_file this this'" "same_outside_dir (f_handle this) kv kv'"
    "dir_lookup city (this', kv') = (dir_lookup city (this, kv))(n := None)"
proof -
  let ?p = "partition_of city n this"
  obtain t where t: "dp_inv t (dir_part ?p this, kv)" "?p < get_num_partitions this"
    "dir_lookup city (this, kv) n = smap_find t n"
    using dir_tables [OF assms(1)] .
  have key: "dp_key (dir_part ?p this) = partition_key (f_handle this) (word_of_nat ?p)"
    using dir_part_key [OF assms(1) t(2)] .
  show thesis
  proof (cases "smap_find t n")
    case (Some g)
    then obtain p' kv' where p': "dp_removeEntry h n (dir_part ?p this, kv) = Val (0, p', kv')"
      "dp_inv (smap_erase n t) (p', kv')" "dp_id p' = dp_id (dir_part ?p this)"
      "\<And>k. k \<noteq> dp_key (dir_part ?p this) \<Longrightarrow> kv_data kv' k = kv_data kv k"
      using removeEntry_inv [OF t(1), where n = n and h = h] by auto
    note c = partition_call [OF assms(1) t(2), of "dp_removeEntry h n", OF p']
    have "dir_lookup city (put_part ?p p' this, kv') = (dir_lookup city (this, kv))(n := None)"
      using c(3) dp_lookup_inv [OF t(1)] smap_find_upd(2) [of n t]
      by (auto simp: fun_eq_iff dir_lookup_def)
    moreover have "same_outside_dir (f_handle this) kv kv'"
      using p'(4) key by (auto simp: same_outside_dir_def)
    ultimately show thesis
      using c(1,2) Some t(3)
      by (intro that [of "put_part ?p p' this" kv']) (simp_all add: removeEntry_def same_file_def)
  next
    case None
    then obtain p' where p': "dp_removeEntry h n (dir_part ?p this, kv) = Val (ENOENT, p', kv)"
      "dp_inv t (p', kv)" "dp_id p' = dp_id (dir_part ?p this)"
      using removeEntry_inv [OF t(1), where n = n and h = h] by auto
    note c = partition_call [OF assms(1) t(2), of "dp_removeEntry h n", OF p' refl]
    have "(dir_lookup city (this, kv))(n := None) = dir_lookup city (this, kv)"
      using None t(3) by (simp add: fun_upd_idem)
    then show thesis
      using c(1,2) dir_lookup_same [OF assms(1) t(1,2) c(3)] None t(3)
      by (intro that [of "put_part ?p p' this" kv])
        (simp_all add: removeEntry_def same_file_def same_outside_dir_def ENOENT_def)
  qed
qed

text \<open>The directory objects of one inode that stand for a table.\<close>

definition dir_of :: "u64 \<Rightarrow> u64 \<Rightarrow> fstate \<Rightarrow> bool" where
  "dir_of fs h st \<longleftrightarrow> dir_inv st \<and> f_fsId (fst st) = fs \<and> f_handle (fst st) = h"

interpretation dir: name_table "dir_lookup city" "findHandle city" "insertEntry city" "removeEntry city"
    "\<lambda>e. e = STATUS_OK" "dir_of fs h" for city fs h
proof
  fix s :: fstate and n g
  obtain this kv where s: "s = (this, kv)" by force
  assume "dir_of fs h s"
  then have inv: "dir_inv (this, kv)" "f_fsId this = fs" "f_handle this = h" using s by (simp_all add: dir_of_def)
  show "\<exists>s'. findHandle city n s = Val (case dir_lookup city s n of None \<Rightarrow> 0 | Some h \<Rightarrow> h, s') \<and>
        dir_of fs h s' \<and> dir_lookup city s' = dir_lookup city s"
    using findHandle_spec [OF inv(1), of city n] s inv(2,3) unfolding dir_of_def same_file_def by (metis fst_conv)
  show "\<exists>e s'. removeEntry city g n s = Val (e, s') \<and> dir_of fs h s' \<and>
        (case dir_lookup city s n of
           None \<Rightarrow> e \<noteq> STATUS_OK \<and> dir_lookup city s' = dir_lookup city s
         | Some _ \<Rightarrow> e = STATUS_OK \<and> dir_lookup city s' = (dir_lookup city s)(n := None))"
  proof -
    obtain this' kv' where "removeEntry city g n (this, kv) =
        Val (if dir_lookup city (this, kv) n = None then STATUS_INTERNAL_ERROR else STATUS_OK, this', kv')"
      "dir_inv (this', kv')" "dir_lookup city (this', kv') = (dir_lookup city (this, kv))(n := None)" "same_file this this'"
      using removeEntry_spec [OF inv(1), of city g n] by metis
    then show ?thesis using s inv by (auto simp: fun_upd_idem dir_of_def same_file_def split: option.splits)
  qed
  show "\<exists>e s'. insertEntry city g n s = Val (e, s') \<and> dir_of fs h s' \<and>
        (case dir_lookup city s n of
           None \<Rightarrow> e = STATUS_OK \<and> dir_lookup city s' = (dir_lookup city s)(n := Some g)
         | Some _ \<Rightarrow> e \<noteq> STATUS_OK \<and> dir_lookup city s' = dir_lookup city s)" if ok: "name_ok n"
  proof -
    obtain this' kv' where "insertEntry city g n (this, kv) =
        Val (if dir_lookup city (this, kv) n = None then STATUS_OK else STATUS_INTERNAL_ERROR, this', kv')"
      "dir_inv (this', kv')"
      "dir_lookup city (this', kv') = (if dir_lookup city (this, kv) n = None
         then (dir_lookup city (this, kv))(n := Some g) else dir_lookup city (this, kv))" "same_file this this'"
      using insertEntry_spec [OF inv(1) ok, of city g] by metis
    then show ?thesis using s inv by (auto simp: dir_of_def same_file_def split: option.splits)
  qed
qed

lemma dir_ofI: "dir_inv st \<Longrightarrow> dir_of (f_fsId (fst st)) (f_handle (fst st)) st"
  by (simp add: dir_of_def)

section \<open>Properties of directories\<close>

lemma dir_inv_new:
  assumes "reliable kv" "\<And>p. kv_data kv (partition_key h p) = None"
  shows "dir_inv (new_LogFSFile fs n h mode i c, kv)" "dir_lookup city (new_LogFSFile fs n h mode i c, kv) = (\<lambda>_. None)"
proof -
  let ?f = "new_LogFSFile fs n h mode i c"
  have part: "dir_part p ?f = new_LogFSDirectoryPartition (word_of_nat p) fs h" for p
    by (simp add: dir_part_def new_LogFSFile_def)
  have inv: "dp_inv [] (dir_part p ?f, kv)" for p
    unfolding part by (rule dp_inv_new [OF assms(1,2)])
  have num: "get_num_partitions ?f = 2"
    by (simp add: get_num_partitions_def new_LogFSFile_def DEFAULT_PARTITIONS_PER_DIRECTORY_def)
  show "dir_inv (?f, kv)"
    using inv by (auto simp: dir_inv_def num part dp_id_def new_LogFSDirectoryPartition_def DEFAULT_PARTITIONS_PER_DIRECTORY_def)
  show "dir_lookup city (?f, kv) = (\<lambda>_. None)"
    using dp_lookup_inv [OF inv] by (auto simp: dir_lookup_def fun_eq_iff)
qed

text \<open>A directory object built later over the same store stands for the same table.\<close>

lemma dir_inv_reopen:
  assumes "dir_inv (this, kv)" "f_handle this = h" "f_fsId this = fs"
  shows "dir_inv (new_LogFSFile fs n h mode i c, kv)"
    "dir_lookup city (new_LogFSFile fs n h mode i c, kv) = dir_lookup city (this, kv)"
proof -
  let ?f = "new_LogFSFile fs n h mode i c"
  have part: "dir_part p ?f = new_LogFSDirectoryPartition (word_of_nat p) fs h" for p
    by (simp add: dir_part_def new_LogFSFile_def)
  have "get_num_partitions ?f = DEFAULT_PARTITIONS_PER_DIRECTORY" by (simp add: get_num_partitions_def new_LogFSFile_def)
  then have num: "get_num_partitions ?f = get_num_partitions this" "get_num_partitions ?f = DEFAULT_PARTITIONS_PER_DIRECTORY"
    using assms(1) by (simp_all add: dir_inv_def)
  have inv: "dp_inv t (dir_part p ?f, kv)" if "dp_inv t (dir_part p this, kv)" "p < get_num_partitions this" for p t
  proof -
    have "dp_id (dir_part p this) = (fs, h, word_of_nat p)" using assms that(2) by (simp add: dir_inv_def)
    with dp_inv_reopen [OF that(1)] show ?thesis by (simp add: dp_id_def part)
  qed
  have "\<exists>t. dp_inv t (dir_part p ?f, kv)" if "p < get_num_partitions ?f" for p
    using inv assms(1) num(1) that unfolding dir_inv_def by fastforce
  then show "dir_inv (?f, kv)"
    by (auto simp: dir_inv_def num(2) part dp_id_def new_LogFSDirectoryPartition_def)
  show "dir_lookup city (?f, kv) = dir_lookup city (this, kv)"
  proof
    fix x
    obtain t where t: "dp_inv t (dir_part (partition_of city x this) this, kv)" "partition_of city x this < get_num_partitions this"
      "dir_lookup city (this, kv) x = smap_find t x"
      using dir_tables [OF assms(1)] .
    moreover have "partition_of city x ?f = partition_of city x this" using num(1) by (simp add: partition_of_def)
    ultimately show "dir_lookup city (?f, kv) x = dir_lookup city (this, kv) x"
      using dp_lookup_inv [OF inv [OF t(1,2)]] by (simp add: dir_lookup_def)
  qed
qed

text \<open>
  C5. A directory behaves as one table of names although it is split over partitions by a hash:
  whatever the hash, looking up a name right after inserting it under a new handle finds that
  handle, every other name keeps its meaning, a second insertion of the name is refused, and
  removing the name afterwards succeeds and restores the table.
\<close>

theorem directory_is_a_table:
  assumes "dir_inv st" "name_ok n" "dir_lookup city st n = None"
  shows "\<exists>st1 st2 st3 st4. insertEntry city h n st = Val (STATUS_OK, st1) \<and>
    findHandle city n st1 = Val (h, st2) \<and> dir_lookup city st2 = (dir_lookup city st)(n := Some h) \<and>
    (\<exists>e. insertEntry city g n st2 = Val (e, st3) \<and> e \<noteq> STATUS_OK) \<and>
    removeEntry city h n st1 = Val (STATUS_OK, st4) \<and> dir_lookup city st4 = dir_lookup city st"
proof -
  let ?dir = "dir_of (f_fsId (fst st)) (f_handle (fst st))"
  note inv = dir_ofI [OF assms(1)]
  obtain st1 st2 where s: "insertEntry city h n st = Val (STATUS_OK, st1)" "findHandle city n st1 = Val (h, st2)"
    "?dir st2" "dir_lookup city st2 = (dir_lookup city st)(n := Some h)"
    using dir.find_after_insert [OF inv assms(2,3), of h] by metis
  obtain st4 where "removeEntry city h n st1 = Val (STATUS_OK, st4)" "dir_lookup city st4 = dir_lookup city st"
    using dir.remove_after_insert [OF inv assms(2,3) s(1), of h] by metis
  moreover obtain e st3 where "insertEntry city g n st2 = Val (e, st3)" "e \<noteq> STATUS_OK"
    using dir.insert_spec [OF s(3) assms(2), of city g] s(4) by (auto split: option.splits)
  ultimately show ?thesis using s by blast
qed

theorem directory_is_a_table_witness:
  "\<exists>st1 st2. insertEntry (\<lambda>n. word_of_nat (length n)) 7 ''a'' (new_LogFSFile 1 None 2 0 0 8192, empty_kvs) = Val (STATUS_OK, st1) \<and>
    findHandle (\<lambda>n. word_of_nat (length n)) ''a'' st1 = Val (7, st2)"
proof -
  let ?st = "(new_LogFSFile 1 None 2 0 0 8192, empty_kvs)"
  have "dir_inv ?st" "dir_lookup (\<lambda>n. word_of_nat (length n)) ?st = (\<lambda>_. None)"
    by (rule dir_inv_new; simp add: empty_kvs_def reliable_def)+
  then show ?thesis
    using directory_is_a_table [of ?st "''a''" "\<lambda>n. word_of_nat (length n)" 7 8]
    by (auto simp: name_ok_def null_termination_def)
qed

text \<open>
  C6. What is done to a directory lasts: after any sequence of insertions of storable names and of
  removals through one directory object, on a store whose calls succeed, an object that is made for
  the same inode later, over the same store, finds exactly the names that the operations leave in
  the table the directory had before, an insertion under a name that is taken having no effect. A
  name is storable when it has no \<^verbatim>\<open>|\<close> and no NUL in it: the first ends names in the stored form, the
  second ends them as C strings, and \<^verbatim>\<open>insertEntry\<close> rejects neither.
\<close>

theorem directory_changes_are_durable:
  assumes "dir_inv (this, kv)" "\<forall>h name. Insert_name h name \<in> set ops \<longrightarrow> name_ok name"
  shows "\<exists>this' kv'. run_names (insertEntry city) (removeEntry city) ops (this, kv) = Val (this', kv') \<and>
    dir_lookup city (new_LogFSFile (f_fsId this) n (f_handle this) mode i c, kv') = fold name_spec ops (dir_lookup city (this, kv))"
proof -
  have "dir_of (f_fsId this) (f_handle this) (this, kv)" using dir_ofI [OF assms(1)] by simp
  from dir.run_names_spec [OF this assms(2), of city] obtain this' kv' where
    run: "run_names (insertEntry city) (removeEntry city) ops (this, kv) = Val (this', kv')"
    and inv: "dir_of (f_fsId this) (f_handle this) (this', kv')"
    and table: "dir_lookup city (this', kv') = fold name_spec ops (dir_lookup city (this, kv))" by auto
  from inv have "dir_inv (this', kv')" "f_handle this' = f_handle this" "f_fsId this' = f_fsId this" by (simp_all add: dir_of_def)
  from dir_inv_reopen(2) [OF this] run table show ?thesis by auto
qed

theorem directory_changes_are_durable_witness:
  "\<exists>this' kv'. run_names (insertEntry (\<lambda>n. word_of_nat (length n))) (removeEntry (\<lambda>n. word_of_nat (length n)))
      [Insert_name 7 ''a'', Insert_name 8 ''bc'', Insert_name 9 ''a'', Remove_name 8 ''bc'']
      (new_LogFSFile 1 None 2 0 0 8192, empty_kvs) = Val (this', kv') \<and>
    dir_lookup (\<lambda>n. word_of_nat (length n)) (new_LogFSFile 1 None 2 0 0 8192, kv') = [''a'' \<mapsto> 7]"
proof -
  let ?st = "(new_LogFSFile 1 None 2 0 0 8192, empty_kvs)" and ?city = "\<lambda>n. word_of_nat (length n)"
  let ?ops = "[Insert_name 7 ''a'', Insert_name 8 ''bc'', Insert_name 9 ''a'', Remove_name 8 ''bc'']"
  have st: "dir_inv ?st" "dir_lookup ?city ?st = (\<lambda>_. None)"
    by (rule dir_inv_new; simp add: empty_kvs_def reliable_def)+
  have ids: "f_fsId (fst ?st) = 1" "f_handle (fst ?st) = 2" by (simp_all add: new_LogFSFile_def)
  have "fold name_spec ?ops (\<lambda>_. None) = [''a'' \<mapsto> 7]" by (auto simp: fun_eq_iff)
  moreover have "\<forall>h name. Insert_name h name \<in> set ?ops \<longrightarrow> name_ok name" by (auto simp: name_ok_def null_termination_def)
  ultimately show ?thesis
    using directory_changes_are_durable [of "fst ?st" "snd ?st" ?ops ?city None 0 0 8192] st ids by simp
qed

end
