(* ===== verification/Namespace.thy ===== *)
theory Namespace
  imports Directory
begin

text \<open>
  Creating, linking and removing files, and the root directory: what \<^verbatim>\<open>LogFSFile::create\<close>,
  \<^verbatim>\<open>link\<close>, \<^verbatim>\<open>remove\<close>, \<^verbatim>\<open>connectDots\<close> and \<^verbatim>\<open>createRoot\<close> leave in the parent directory, in the link
  counts and in the store.
\<close>

section \<open>Frames\<close>

lemma dir_inv_frame:
  assumes "dir_inv (this, kv)" "reliable kv'" "\<And>p. kv_data kv' (partition_key (f_handle this) p) = kv_data kv (partition_key (f_handle this) p)"
  shows "dir_inv (this, kv')" "dir_lookup city (this, kv') = dir_lookup city (this, kv)"
proof -
  have keep: "dp_inv t (dir_part p this, kv')" if "dp_inv t (dir_part p this, kv)" "p < get_num_partitions this" for t p
    using assms(2,3) dir_part_key [OF assms(1) that(2)] by (intro dp_inv_frame [OF that(1)]) auto
  show "dir_inv (this, kv')" using assms(1) keep by (fastforce simp: dir_inv_def)
  show "dir_lookup city (this, kv') = dir_lookup city (this, kv)"
  proof
    fix n
    obtain t where t: "dp_inv t (dir_part (partition_of city n this) this, kv)"
      "partition_of city n this < get_num_partitions this" "dir_lookup city (this, kv) n = smap_find t n"
      using dir_tables [OF assms(1)] .
    show "dir_lookup city (this, kv') n = dir_lookup city (this, kv) n"
      using dp_lookup_inv [OF keep [OF t(1,2)]] t(3) by (simp add: dir_lookup_def)
  qed
qed

text \<open>A change of the object that leaves its identity and partitions alone is invisible to the table.\<close>

definition same_dir :: "LogFSFile \<Rightarrow> LogFSFile \<Rightarrow> bool" where
  "same_dir a b \<longleftrightarrow> f_partitions b = f_partitions a \<and> f_handle b = f_handle a \<and> f_fsId b = f_fsId a"

lemma same_dir_part:
  assumes "same_dir a b"
  shows "dir_part p b = dir_part p a" "get_num_partitions b = get_num_partitions a"
    "partition_of city n b = partition_of city n a" "f_handle b = f_handle a" "f_fsId b = f_fsId a"
  using assms by (auto simp: same_dir_def dir_part_def get_num_partitions_def partition_of_def split: option.splits)

lemma same_dir_inv:
  assumes "same_dir a b"
  shows "dir_inv (b, kv) = dir_inv (a, kv)" "dir_lookup city (b, kv) = dir_lookup city (a, kv)"
  by (simp_all add: dir_inv_def dir_lookup_def same_dir_part [OF assms])

lemma insertEntry_new:
  assumes "dir_inv (this, kv)" "name_ok n" "dir_lookup city (this, kv) n = None"
  obtains this' kv' where "insertEntry city h n (this, kv) = Val (STATUS_OK, this', kv')"
    "dir_inv (this', kv')" "same_file this this'" "same_outside_dir (f_handle this) kv kv'"
    "dir_lookup city (this', kv') = (dir_lookup city (this, kv))(n := Some h)"
proof -
  obtain this' kv' where "insertEntry city h n (this, kv) =
      Val (if dir_lookup city (this, kv) n = None then STATUS_OK else STATUS_INTERNAL_ERROR, this', kv')"
    "dir_inv (this', kv')" "same_file this this'" "same_outside_dir (f_handle this) kv kv'"
    "dir_lookup city (this', kv') = (if dir_lookup city (this, kv) n = None
       then (dir_lookup city (this, kv))(n := Some h) else dir_lookup city (this, kv))"
    using insertEntry_spec [OF assms(1,2)] .
  then show thesis using assms(3) that by simp
qed

lemma insertEntry_dup:
  assumes "dir_inv (this, kv)" "name_ok n" "dir_lookup city (this, kv) n \<noteq> None"
  obtains this' kv' where "insertEntry city h n (this, kv) = Val (STATUS_INTERNAL_ERROR, this', kv')"
    "dir_inv (this', kv')" "same_file this this'" "same_outside_dir (f_handle this) kv kv'"
    "dir_lookup city (this', kv') = dir_lookup city (this, kv)"
proof -
  obtain this' kv' where "insertEntry city h n (this, kv) =
      Val (if dir_lookup city (this, kv) n = None then STATUS_OK else STATUS_INTERNAL_ERROR, this', kv')"
    "dir_inv (this', kv')" "same_file this this'" "same_outside_dir (f_handle this) kv kv'"
    "dir_lookup city (this', kv') = (if dir_lookup city (this, kv) n = None
       then (dir_lookup city (this, kv))(n := Some h) else dir_lookup city (this, kv))"
    using insertEntry_spec [OF assms(1,2)] .
  then show thesis using assms(3) that by simp
qed

lemma same_dir_upd [simp]:
  "same_dir a (upd_meta g a)" "same_dir a (a\<lparr>f_metaDirty := b\<rparr>)" "same_dir a (NLinkAdjust n a)"
  "same_dir a (UpdateCTime t a)" "same_dir a (UpdateMTime t a)" "same_dir a (initMeta env a)" "same_dir a a"
  by (simp_all add: same_dir_def upd_meta_def NLinkAdjust_def UpdateCTime_def UpdateMTime_def initMeta_def Let_def
      setTypeFromMode_def setProtectionFromMode_def)

lemma same_dir_trans: "same_dir a b \<Longrightarrow> same_dir b c \<Longrightarrow> same_dir a c"
  by (simp add: same_dir_def)

lemma nlink_simps [simp]:
  "m_nLink (f_meta (NLinkAdjust n t)) = m_nLink (f_meta t) + word_of_int n"
  "m_nLink (f_meta (UpdateCTime x t)) = m_nLink (f_meta t)" "m_nLink (f_meta (UpdateMTime x t)) = m_nLink (f_meta t)"
  "m_nLink (f_meta (initMeta env t)) = 0"
  "f_handle (NLinkAdjust n t) = f_handle t" "f_handle (UpdateCTime x t) = f_handle t" "f_handle (UpdateMTime x t) = f_handle t"
  "f_fsId (NLinkAdjust n t) = f_fsId t" "f_nameString (NLinkAdjust n t) = f_nameString t"
  "f_nameString (initMeta env t) = f_nameString t"
  "m_type (f_meta (NLinkAdjust n t)) = m_type (f_meta t)"
  "m_type (f_meta (UpdateCTime x t)) = m_type (f_meta t)" "m_type (f_meta (UpdateMTime x t)) = m_type (f_meta t)"
  "m_type (f_meta (initMeta env t)) = typeFromMode (f_mode t) (m_type (f_meta t))"
  "m_handle (f_meta (NLinkAdjust n t)) = m_handle (f_meta t)" "m_fsId (f_meta (NLinkAdjust n t)) = m_fsId (f_meta t)"
  "meta_wf (f_meta (NLinkAdjust n t)) = meta_wf (f_meta t)"
  by (simp_all add: NLinkAdjust_def upd_meta_def UpdateCTime_def UpdateMTime_def initMeta_def Let_def
      setTypeFromMode_def setProtectionFromMode_def meta_wf_def)

section \<open>The dots\<close>

lemma name_ok_dots [simp]: "name_ok ''.''" "name_ok ''..''"
  by (simp_all add: name_ok_def null_termination_def)

text \<open>Inserting both dots into a directory that has neither.\<close>

lemma insert_dots:
  assumes "dir_inv (this, kv)" "dir_lookup city (this, kv) ''.'' = None" "dir_lookup city (this, kv) ''..'' = None"
    and g: "\<And>t. same_dir t (g t)"
  obtains t1 kv1 t2 kv2 where "insertEntry city a ''.'' (this, kv) = Val (STATUS_OK, t1, kv1)" "same_file this t1"
    "insertEntry city b ''..'' (g t1, kv1) = Val (STATUS_OK, t2, kv2)" "same_file (g t1) t2"
    "dir_inv (t2, kv2)" "dir_lookup city (t2, kv2) = (dir_lookup city (this, kv))(''.'' := Some a, ''..'' := Some b)"
    "same_outside_dir (f_handle this) kv kv2"
proof -
  obtain t1 kv1 where i1: "insertEntry city a ''.'' (this, kv) = Val (STATUS_OK, t1, kv1)"
    "dir_inv (t1, kv1)" "same_file this t1" "same_outside_dir (f_handle this) kv kv1"
    "dir_lookup city (t1, kv1) = (dir_lookup city (this, kv))(''.'' := Some a)"
    using insertEntry_new [OF assms(1) name_ok_dots(1) assms(2)] .
  have inv: "dir_inv (g t1, kv1)" "dir_lookup city (g t1, kv1) = dir_lookup city (t1, kv1)"
    using same_dir_inv [OF g] i1(2) by simp_all
  have "dir_lookup city (g t1, kv1) ''..'' = None" using inv(2) i1(5) assms(3) by simp
  then obtain t2 kv2 where i2: "insertEntry city b ''..'' (g t1, kv1) = Val (STATUS_OK, t2, kv2)"
    "dir_inv (t2, kv2)" "same_file (g t1) t2" "same_outside_dir (f_handle (g t1)) kv1 kv2"
    "dir_lookup city (t2, kv2) = (dir_lookup city (g t1, kv1))(''..'' := Some b)"
    by (rule insertEntry_new [OF inv(1) name_ok_dots(2)])
  have "f_handle (g t1) = f_handle this" using g [of t1] i1(3) by (simp add: same_dir_def same_file_def)
  then have "same_outside_dir (f_handle this) kv kv2"
    using i1(4) i2(4) by (simp add: same_outside_dir_def)
  then show thesis using i1 i2 inv(2) that by simp
qed

lemma heap_simps:
  "on_obj o1 call (objs, kv) = obind (call (objs o1, kv)) (\<lambda>(r, t, kv). Val (r, objs(o1 := t), kv))"
  "upd_obj o1 g (objs, kv) = (objs(o1 := g (objs o1)), kv)"
  "reliable kv \<Longrightarrow> log_obj o1 (objs, kv) = (STATUS_OK, objs,
     kv\<lparr>kv_data := (kv_data kv)(inode_key (f_handle (objs o1)) := Some (meta_encode (f_meta (objs o1))))\<rparr>)"
  by (simp_all add: on_obj_def upd_obj_def log_obj_def writeToLog_reliable)

lemma dir_inv_reliable: "dir_inv (this, kv) \<Longrightarrow> reliable kv"
  using dir_inv_num(1) [of this kv] by (auto simp: dir_inv_def dest: dp_inv_reliable)

lemma dir_inv_log:
  assumes "dir_inv (this, kv)"
  shows "dir_inv (this, kv\<lparr>kv_data := (kv_data kv)(inode_key g := r)\<rparr>)"
    "dir_lookup city (this, kv\<lparr>kv_data := (kv_data kv)(inode_key g := r)\<rparr>) = dir_lookup city (this, kv)"
  using dir_inv_frame [OF assms, of "kv\<lparr>kv_data := (kv_data kv)(inode_key g := r)\<rparr>"] dir_inv_reliable [OF assms]
  by (simp_all add: key_simps)

text \<open>A call on one directory leaves another directory alone.\<close>

lemma dir_inv_other:
  assumes "dir_inv (this, kv)" "same_outside_dir h kv kv'" "f_handle this \<noteq> h" "reliable kv'"
  shows "dir_inv (this, kv')" "dir_lookup city (this, kv') = dir_lookup city (this, kv)"
  using dir_inv_frame [OF assms(1,4)] assms(2,3) by (auto simp: same_outside_dir_def key_simps)

lemma createRoot_spec:
  assumes "dir_inv (objs r, kv)" "dir_lookup city (objs r, kv) ''.'' = None" "dir_lookup city (objs r, kv) ''..'' = None"
    and "meta_wf (f_meta (objs r))"
  shows "\<exists>objs' kv'. createRoot env city r (objs, kv) = Val (STATUS_OK, objs', kv') \<and>
    dir_inv (objs' r, kv') \<and> inode_inv (objs' r, kv') \<and> m_nLink (f_meta (objs' r)) = 2 \<and>
    f_handle (objs' r) = f_handle (objs r) \<and> f_fsId (objs' r) = f_fsId (objs r) \<and>
    dir_lookup city (objs' r, kv') =
      (dir_lookup city (objs r, kv))(''.'' := Some (f_handle (objs r)), ''..'' := Some (f_handle (objs r)))"
proof -
  let ?new = "initMeta env (objs r)" and ?g = "\<lambda>t. (NLinkAdjust 1 t)\<lparr>f_metaDirty := True\<rparr>"
  have g: "same_dir t (?g t)" for t by (simp add: same_dir_def NLinkAdjust_def upd_meta_def)
  note init = same_dir_inv [OF same_dir_upd(6) [of "objs r" env]]
  obtain t1 kv1 t2 kv2 where d: "insertEntry city (f_handle (objs r)) ''.'' (?new, kv) = Val (STATUS_OK, t1, kv1)" "same_file ?new t1"
    "insertEntry city (f_handle (objs r)) ''..'' (?g t1, kv1) = Val (STATUS_OK, t2, kv2)" "same_file (?g t1) t2"
    "dir_inv (t2, kv2)" "dir_lookup city (t2, kv2) = (dir_lookup city (?new, kv))(''.'' := Some (f_handle (objs r)), ''..'' := Some (f_handle (objs r)))"
    "same_outside_dir (f_handle ?new) kv kv2"
    by (rule insert_dots [of ?new kv city ?g]) (use assms init g in simp_all)
  let ?t = "(NLinkAdjust 1 t2)\<lparr>f_metaDirty := True\<rparr>"
  let ?kv = "kv2\<lparr>kv_data := (kv_data kv2)(inode_key (f_handle ?t) := Some (meta_encode (f_meta ?t)))\<rparr>"
  have "f_handle (?g t1) = f_handle (objs r)" using d(2) by (simp add: same_file_def)
  then have run: "createRoot env city r (objs, kv) = Val (STATUS_OK, objs(r := ?t), ?kv)"
    using d dir_inv_reliable [OF d(5)] by (simp add: createRoot_def connectDots_def heap_simps)
  have inv: "dir_inv (?t, ?kv)" "dir_lookup city (?t, ?kv) = dir_lookup city (t2, kv2)"
    using dir_inv_log [OF d(5)] same_dir_inv [OF g [of t2]] by simp_all
  have meta: "f_meta ?t = (f_meta ?new)\<lparr>m_nLink := 2\<rparr>" "f_handle ?t = f_handle (objs r)" "f_fsId ?t = f_fsId (objs r)"
    using d(2,4) by (simp_all add: same_file_def NLinkAdjust_def upd_meta_def)
  have "meta_wf (f_meta ?new)" using assms(4) by simp
  then have "meta_wf (f_meta ?t)" unfolding meta(1) by (simp add: meta_wf_def)
  moreover have "m_fsId (f_meta ?t) = f_fsId ?t" "m_handle (f_meta ?t) = f_handle ?t"
    unfolding meta by simp_all
  ultimately have "inode_inv (?t, ?kv)" by (simp add: inode_inv_def)
  then show ?thesis using run inv meta d(6) init by auto
qed

text \<open>
  Creating the root directory of an empty store leaves a directory whose dot and dot-dot
  name itself, with two links, and stores its inode.
\<close>

theorem createRoot_makes_root:
  assumes "dir_inv (objs r, kv)" "dir_lookup city (objs r, kv) ''.'' = None" "dir_lookup city (objs r, kv) ''..'' = None"
    and "meta_wf (f_meta (objs r))"
  shows "\<exists>objs' kv'. createRoot env city r (objs, kv) = Val (STATUS_OK, objs', kv') \<and>
    dir_inv (objs' r, kv') \<and> inode_inv (objs' r, kv') \<and> m_nLink (f_meta (objs' r)) = 2 \<and>
    dir_lookup city (objs' r, kv') =
      (dir_lookup city (objs r, kv))(''.'' := Some (f_handle (objs r)), ''..'' := Some (f_handle (objs r)))"
  using createRoot_spec [of objs r kv city env] assms by blast

definition const_city :: "string \<Rightarrow> u64" where
  "const_city n = word_of_nat (length n)"

definition root_object :: LogFSFile where
  "root_object = new_LogFSFile 1 None 1 0x41ED 0 8192"

lemma root_object_dir:
  "dir_inv (root_object, empty_kvs)" "dir_lookup city (root_object, empty_kvs) = (\<lambda>_. None)"
  "meta_wf (f_meta root_object)"
  unfolding root_object_def by (rule dir_inv_new; simp add: empty_kvs_def reliable_def)+ simp

theorem createRoot_makes_root_witness:
  "\<exists>objs' kv'. createRoot sample_env const_city () (\<lambda>_. root_object, empty_kvs) = Val (STATUS_OK, objs', kv') \<and>
    m_nLink (f_meta (objs' ())) = 2 \<and> dir_lookup const_city (objs' (), kv') ''..'' = Some 1"
proof -
  have "f_handle root_object = 1" by (simp add: root_object_def)
  then show ?thesis
    using createRoot_makes_root [of "\<lambda>_. root_object" "()" empty_kvs const_city sample_env] root_object_dir
    by auto
qed

text \<open>
  Creating the root again, as every start of the program does, damages it: when the
  directory already has its dot, \<^verbatim>\<open>createRoot\<close> still reports success, and the inode it stores has
  a link count of 0, with which the next \<^verbatim>\<open>close\<close> deletes the root.
\<close>

theorem createRoot_again_drops_links:
  assumes "dir_inv (objs r, kv)" "dir_lookup city (objs r, kv) ''.'' \<noteq> None"
  shows "\<exists>objs' kv'. createRoot env city r (objs, kv) = Val (STATUS_OK, objs', kv') \<and>
    m_nLink (f_meta (objs' r)) = 0 \<and> dir_inv (objs' r, kv') \<and> dir_lookup city (objs' r, kv') = dir_lookup city (objs r, kv) \<and>
    kv_data kv' (inode_key (f_handle (objs r))) = Some (meta_encode (f_meta (objs' r)))"
proof -
  let ?new = "initMeta env (objs r)"
  note init = same_dir_inv [OF same_dir_upd(6) [of "objs r" env]]
  have inv: "dir_inv (?new, kv)" "dir_lookup city (?new, kv) ''.'' \<noteq> None" using assms init by simp_all
  obtain t kv1 where d: "insertEntry city (f_handle (objs r)) ''.'' (?new, kv) = Val (STATUS_INTERNAL_ERROR, t, kv1)"
    "dir_inv (t, kv1)" "same_file ?new t" "dir_lookup city (t, kv1) = dir_lookup city (?new, kv)"
    using insertEntry_dup [OF inv(1) name_ok_dots(1) inv(2)] by metis
  then show ?thesis
    using dir_inv_reliable [OF d(2)] dir_inv_log [OF d(2)] init
    by (simp add: createRoot_def connectDots_def heap_simps same_file_def)
qed

theorem createRoot_again_drops_links_witness:
  "\<exists>objs' kv'. createRoot sample_env const_city () (\<lambda>_. root_object, empty_kvs) = Val (STATUS_OK, objs', kv') \<and>
    (\<exists>objs'' kv''. createRoot sample_env const_city () (objs', kv') = Val (STATUS_OK, objs'', kv'') \<and>
      m_nLink (f_meta (objs'' ())) = 0)"
proof -
  obtain objs' kv' where "createRoot sample_env const_city () (\<lambda>_. root_object, empty_kvs) = Val (STATUS_OK, objs', kv')"
    "dir_inv (objs' (), kv')"
    "dir_lookup const_city (objs' (), kv') = (dir_lookup const_city (root_object, empty_kvs))
       (''.'' := Some (f_handle root_object), ''..'' := Some (f_handle root_object))"
    using createRoot_spec [of "\<lambda>_. root_object" "()" empty_kvs const_city sample_env] root_object_dir by auto
  then show ?thesis
    using createRoot_again_drops_links [of objs' "()" kv' const_city sample_env] by auto
qed

section \<open>Files and directories in a parent\<close>

lemma create_file_new:
  assumes "o1 \<noteq> par" "dir_inv (objs par, kv)" "name_ok (f_nameString (objs o1))" "meta_wf (f_meta (objs o1))"
    and "typeFromMode (f_mode (objs o1)) (m_type (f_meta (objs o1))) \<noteq> LOGFS_IFDIR"
    and "dir_lookup city (objs par, kv) (f_nameString (objs o1)) = None"
  obtains p1 kv' where "file_create env city o1 par (objs, kv) =
      Val (STATUS_OK, objs(o1 := NLinkAdjust 1 (initMeta env (objs o1)), par := p1), kv')"
    "inode_inv (NLinkAdjust 1 (initMeta env (objs o1)), kv')" "dir_inv (p1, kv')" "same_file (objs par) p1"
    "dir_lookup city (p1, kv') = (dir_lookup city (objs par, kv))(f_nameString (objs o1) := Some (f_handle (objs o1)))"
    "\<forall>fs. kv_data kv' (super_key fs) = kv_data kv (super_key fs)"
proof -
  let ?n = "f_nameString (objs o1)" and ?h = "f_handle (objs o1)" and ?t = "NLinkAdjust 1 (initMeta env (objs o1))"
  obtain p1 kv1 where d: "insertEntry city ?h ?n (objs par, kv) = Val (STATUS_OK, p1, kv1)" "dir_inv (p1, kv1)"
    "same_file (objs par) p1" "same_outside_dir (f_handle (objs par)) kv kv1"
    "dir_lookup city (p1, kv1) = (dir_lookup city (objs par, kv))(?n := Some ?h)"
    using insertEntry_new [OF assms(2,3,6)] .
  let ?kv = "kv1\<lparr>kv_data := (kv_data kv1)(inode_key ?h := Some (meta_encode (f_meta ?t)))\<rparr>"
  have "file_create env city o1 par (objs, kv) = Val (STATUS_OK, objs(o1 := ?t, par := p1), ?kv)"
    using d assms(1,5) dir_inv_reliable [OF d(2)]
    by (simp add: file_create_def heap_simps fun_upd_twist)
  moreover have "inode_inv (?t, ?kv)" using assms(4) by (simp add: inode_inv_def)
  moreover have "dir_inv (p1, ?kv)" "dir_lookup city (p1, ?kv) = dir_lookup city (p1, kv1)"
    using dir_inv_log [OF d(2)] by simp_all
  moreover have "kv_data ?kv (super_key fs) = kv_data kv (super_key fs)" for fs
    using d(4) by (simp add: same_outside_dir_def key_simps)
  ultimately show thesis using d(3,5) that by metis
qed

text \<open>
  Creating a file that is not a directory enters it in its parent: the name leads to the
  new handle and the parent's other names stay, the file has one link, and its inode is stored;
  a name that is taken is refused, with the parent's names and the stored inode as they were.
\<close>

theorem create_enters_file:
  assumes "o1 \<noteq> par" "dir_inv (objs par, kv)" "name_ok (f_nameString (objs o1))" "meta_wf (f_meta (objs o1))"
    and "typeFromMode (f_mode (objs o1)) (m_type (f_meta (objs o1))) \<noteq> LOGFS_IFDIR"
  shows "\<exists>status objs' kv'. file_create env city o1 par (objs, kv) = Val (status, objs', kv') \<and>
    dir_inv (objs' par, kv') \<and>
    (if dir_lookup city (objs par, kv) (f_nameString (objs o1)) = None
     then status = STATUS_OK \<and> inode_inv (objs' o1, kv') \<and> m_nLink (f_meta (objs' o1)) = 1 \<and>
       dir_lookup city (objs' par, kv') =
         (dir_lookup city (objs par, kv))(f_nameString (objs o1) := Some (f_handle (objs o1)))
     else status = STATUS_INTERNAL_ERROR \<and> dir_lookup city (objs' par, kv') = dir_lookup city (objs par, kv) \<and>
       kv_data kv' (inode_key (f_handle (objs o1))) = kv_data kv (inode_key (f_handle (objs o1))))"
proof -
  let ?n = "f_nameString (objs o1)" and ?h = "f_handle (objs o1)"
  show ?thesis
  proof (cases "dir_lookup city (objs par, kv) ?n = None")
    case True
    show ?thesis
      by (rule create_file_new [OF assms True, of env]) (use True assms(1) in auto)
  next
    case False
    obtain p1 kv1 where d: "insertEntry city ?h ?n (objs par, kv) = Val (STATUS_INTERNAL_ERROR, p1, kv1)" "dir_inv (p1, kv1)"
      "same_file (objs par) p1" "same_outside_dir (f_handle (objs par)) kv kv1"
      "dir_lookup city (p1, kv1) = dir_lookup city (objs par, kv)"
      using insertEntry_dup [OF assms(2,3) False] .
    have "file_create env city o1 par (objs, kv) =
        Val (STATUS_INTERNAL_ERROR, objs(o1 := initMeta env (objs o1), par := p1), kv1)"
      using d assms(1) by (simp add: file_create_def heap_simps)
    moreover have "kv_data kv1 (inode_key ?h) = kv_data kv (inode_key ?h)"
      using d(4) by (simp add: same_outside_dir_def key_simps)
    ultimately show ?thesis using False d assms(1) by auto
  qed
qed

definition notes_object :: LogFSFile where
  "notes_object = new_LogFSFile 1 (Some ''notes'') 1001 0x81A4 0 8192"

theorem create_enters_file_witness:
  "\<exists>objs' kv'. file_create sample_env const_city False True
       ((\<lambda>b. if b then root_object else notes_object), empty_kvs) = Val (STATUS_OK, objs', kv') \<and>
     dir_lookup const_city (objs' True, kv') ''notes'' = Some 1001"
proof -
  let ?objs = "\<lambda>b. if b then root_object else notes_object"
  have "name_ok (f_nameString (?objs False))" by (simp add: notes_object_def name_ok_def new_LogFSFile_def null_termination_def)
  moreover have "meta_wf (f_meta (?objs False))" by (simp add: notes_object_def)
  moreover have "typeFromMode (f_mode (?objs False)) (m_type (f_meta (?objs False))) \<noteq> LOGFS_IFDIR"
    by (simp add: notes_object_def new_LogFSFile_def typeFromMode_def S_ISREG_def S_ISDIR_def ifmt_defs)
  moreover have "f_handle notes_object = 1001" "f_nameString notes_object = ''notes''"
    by (simp_all add: notes_object_def new_LogFSFile_def)
  ultimately show ?thesis
    using create_enters_file [of False True ?objs empty_kvs sample_env const_city] root_object_dir
    by auto
qed

end
