(* ===== verification/ChangeLog.thy ===== *)
theory ChangeLog
  imports MetaData
begin

text \<open>
  The change log (\<^verbatim>\<open>src/src/tiering/fs_change_log.{h,cc}\<close>): the sequence of changes the mount
  reports and the tiering and eviction agents read. Entries are protocol buffers; a field that
  is not set is \<open>None\<close>. Transaction numbers (\<^verbatim>\<open>xid_t\<close>, 64-bit signed) are integers.

  The serialisation of an entry is generated protocol-buffer code and an argument of the model,
  as are the files of the host: which names a stream can be opened for, and what the files hold.
  A stream that could be opened takes everything written to it.
\<close>

section \<open>Entries and the log\<close>

datatype Operation =
  OP_NONE | OP_ROOT | OP_MKDIR | OP_RMDIR | OP_CREAT | OP_LINK | OP_UNLINK | OP_SYMLINK | OP_RENAME
| OP_SETATTR | OP_SETXATTR | OP_COMMIT | OP_TRUNCATE | OP_MKNOD | OP_NEWF | OP_DELFS | OP_INVALID

record ChangeLogEntry =
  e_xid :: "int option"
  e_fs_id :: "int option"
  e_inode_num :: "int option"
  e_operation :: "Operation option"
  e_new_name :: "string option"
  e_parent_inode_num :: "int option"
  e_begin_offset :: "int option"
  e_end_offset :: "int option"

definition new_entry :: ChangeLogEntry where
  "new_entry = \<lparr>e_xid = None, e_fs_id = None, e_inode_num = None, e_operation = None, e_new_name = None,
     e_parent_inode_num = None, e_begin_offset = None, e_end_offset = None\<rparr>"

text \<open>The accessor of a field that is not set returns its default.\<close>

definition entry_xid :: "ChangeLogEntry \<Rightarrow> int" where
  "entry_xid e = (case e_xid e of None \<Rightarrow> 0 | Some x \<Rightarrow> x)"

record FsChangeLog =
  l_log_dir :: string
  l_next_xid :: int
  l_eviction_next_xid :: int
  l_tiered_out_xid :: int
  l_log_deque :: "ChangeLogEntry list"

definition new_FsChangeLog :: "string \<Rightarrow> int \<Rightarrow> FsChangeLog" where
  "new_FsChangeLog log_dir initial_xid =
     \<lparr>l_log_dir = log_dir, l_next_xid = initial_xid, l_eviction_next_xid = initial_xid,
      l_tiered_out_xid = initial_xid, l_log_deque = []\<rparr>"

definition NextXid :: "FsChangeLog \<Rightarrow> int \<times> FsChangeLog" where
  "NextXid l = (l_next_xid l, l\<lparr>l_next_xid := l_next_xid l + 1\<rparr>)"

definition Append :: "ChangeLogEntry \<Rightarrow> FsChangeLog \<Rightarrow> int \<times> FsChangeLog" where
  "Append entry l =
     (let (entry, l) = (if e_xid entry = None
                        then let (x, l) = NextXid l in (entry\<lparr>e_xid := Some x\<rparr>, l)
                        else (entry, l))
      in (entry_xid entry, l\<lparr>l_log_deque := l_log_deque l @ [entry]\<rparr>))"

definition get_first_xid :: "FsChangeLog \<Rightarrow> int" where
  "get_first_xid l = (if l_log_deque l = [] then 0 else entry_xid (hd (l_log_deque l)))"

definition get_last_xid :: "FsChangeLog \<Rightarrow> int" where
  "get_last_xid l = (if l_log_deque l = [] then 0 else entry_xid (List.last (l_log_deque l)))"

section \<open>Reading a range\<close>

text \<open>Conversion to \<^verbatim>\<open>int\<close>, as the loop of \<^verbatim>\<open>Read\<close> does with its first index.\<close>

definition as_int :: "int \<Rightarrow> int" where
  "as_int x = sint (word_of_int x :: 32 word)"

text \<open>\<^verbatim>\<open>at(i)\<close> throws outside the deque; a negative index is one.\<close>

function read_entries :: "ChangeLogEntry list \<Rightarrow> int \<Rightarrow> int \<Rightarrow> ChangeLogEntry list \<Rightarrow> ChangeLogEntry list outcome" where
  "read_entries deque i last_index out =
     (if i > last_index then Val out
      else if 0 \<le> i \<and> i < int (length deque)
        then read_entries deque (i + 1) last_index (out @ [deque ! nat i])
        else Abort)"
  by pat_completeness auto
termination
  by (relation "measure (\<lambda>(_, i, last_index, _). nat (last_index + 1 - i))") auto

declare read_entries.simps [simp del]

text \<open>The result: the entries appended to the caller's vector, and \<^verbatim>\<open>*first_xidp\<close>.\<close>

definition FsChangeLog_Read :: "int \<Rightarrow> int \<Rightarrow> FsChangeLog \<Rightarrow> (ChangeLogEntry list \<times> int) outcome" where
  "FsChangeLog_Read first_xid last_xid l =
     (let sz = int (length (l_log_deque l));
          zeroth_xid = l_next_xid l - sz;
          first_index = first_xid - zeroth_xid;
          first_index = (if first_index < 0 then 0 else first_index);
          last_index = last_xid - zeroth_xid;
          last_index = (if last_index \<ge> as_int sz then sz - 1 else last_index)
      in obind (read_entries (l_log_deque l) (as_int first_index) last_index [])
           (\<lambda>out. Val (out, zeroth_xid + first_index)))"

section \<open>Writing to and reading from a file\<close>

record log_host =
  h_files :: "string \<Rightarrow> string option"
  h_can_create :: "string \<Rightarrow> bool"
  h_last_log_file :: string

definition show_int :: "int \<Rightarrow> string" where
  "show_int x = (if x < 0 then CHR ''-'' # show_nat (nat (- x)) else show_nat (nat x))"

definition log_frame :: "string \<Rightarrow> string" where
  "log_frame serialized = e64 (word_of_nat (length serialized)) @ serialized"

definition FsChangeLog_Flush ::
  "(ChangeLogEntry \<Rightarrow> string) \<Rightarrow> FsChangeLog \<Rightarrow> log_host \<Rightarrow> log_host outcome" where
  "FsChangeLog_Flush serialize l h =
     (if l_log_deque l = [] then Undef
      else let log_file = l_log_dir l @ ''/'' @ show_int (entry_xid (hd (l_log_deque l))) @ ''-'' @
                 show_int (entry_xid (List.last (l_log_deque l))) @ ''.pqfslog''
           in expect (h_can_create h log_file)
                (Val (h\<lparr>h_files := (h_files h)(log_file := Some (concat (map (\<lambda>e. log_frame (serialize e)) (l_log_deque l)))),
                        h_last_log_file := log_file\<rparr>)))"

function refresh_loop ::
  "(string \<Rightarrow> ChangeLogEntry) \<Rightarrow> string \<Rightarrow> int \<Rightarrow> FsChangeLog \<Rightarrow> (int \<times> FsChangeLog) outcome" where
  "refresh_loop parse input num_entries_read l =
     (if length input < 8 then Val (num_entries_read, l)
      else let entry_size = unat (d64 0 input); rest = drop 8 input
           in if entry_size \<ge> 1024 then Abort
              else if length rest < entry_size then Abort
              else let log_entry = parse (take entry_size rest)
                   in case e_xid log_entry of
                        Some x \<Rightarrow> refresh_loop parse (drop entry_size rest) (num_entries_read + 1)
                                   (l\<lparr>l_log_deque := l_log_deque l @ [log_entry], l_next_xid := x + 1\<rparr>)
                      | None \<Rightarrow> refresh_loop parse (drop entry_size rest) num_entries_read l)"
  by pat_completeness auto
termination
  by (relation "measure (\<lambda>(_, input, _, _). length input)") auto

declare refresh_loop.simps [simp del]

definition FsChangeLog_Refresh ::
  "(string \<Rightarrow> ChangeLogEntry) \<Rightarrow> log_host \<Rightarrow> FsChangeLog \<Rightarrow> (int \<times> FsChangeLog) outcome" where
  "FsChangeLog_Refresh parse h l =
     (case h_files h (h_last_log_file h) of None \<Rightarrow> Abort | Some input \<Rightarrow> refresh_loop parse input 0 l)"

section \<open>Lemmas\<close>

definition log_ordered :: "FsChangeLog \<Rightarrow> bool" where
  "log_ordered l \<longleftrightarrow> (\<forall>e \<in> set (l_log_deque l). e_xid e \<noteq> None) \<and>
     sorted_wrt (<) (map entry_xid (l_log_deque l)) \<and> (\<forall>e \<in> set (l_log_deque l). entry_xid e < l_next_xid l)"

lemma log_ordered_new [simp]: "log_ordered (new_FsChangeLog d x)"
  by (simp add: log_ordered_def new_FsChangeLog_def)

lemma log_ordered_next: "log_ordered l \<Longrightarrow> l_next_xid l \<le> n \<Longrightarrow> log_ordered (l\<lparr>l_next_xid := n\<rparr>)"
  unfolding log_ordered_def by (auto intro: order_less_le_trans)

lemma log_ordered_snoc:
  "log_ordered l \<Longrightarrow> e_xid e = Some x \<Longrightarrow> x < l_next_xid l \<Longrightarrow> \<forall>e' \<in> set (l_log_deque l). entry_xid e' < x \<Longrightarrow>
   log_ordered (l\<lparr>l_log_deque := l_log_deque l @ [e]\<rparr>)"
  unfolding log_ordered_def by (auto simp: entry_xid_def sorted_wrt_append)

lemma log_ordered_NextXid: "log_ordered l \<Longrightarrow> log_ordered (snd (NextXid l))"
  by (simp add: NextXid_def log_ordered_next)

lemma log_ordered_Append_fresh:
  assumes "log_ordered l" "e_xid e = None"
  shows "log_ordered (snd (Append e l))"
proof -
  let ?e = "e\<lparr>e_xid := Some (l_next_xid l)\<rparr>" and ?l = "l\<lparr>l_next_xid := l_next_xid l + 1\<rparr>"
  have "log_ordered (?l\<lparr>l_log_deque := l_log_deque ?l @ [?e]\<rparr>)"
    by (rule log_ordered_snoc [of _ _ "l_next_xid l"])
      (use assms(1) in \<open>auto simp: log_ordered_next log_ordered_def\<close>)
  then show ?thesis using assms(2) by (simp add: Append_def NextXid_def)
qed

lemma log_ordered_Append_next:
  assumes "log_ordered l" "e_xid e = Some x" "x < l_next_xid l" "\<forall>e' \<in> set (l_log_deque l). entry_xid e' < x"
  shows "log_ordered (snd (Append e l))"
  using log_ordered_snoc [OF assms] assms(2) by (simp add: Append_def)

lemma as_int_id: "0 \<le> x \<Longrightarrow> x < 2 ^ 31 \<Longrightarrow> as_int x = x"
  by (simp add: as_int_def signed_of_int signed_take_bit_int_eq_self)

lemma read_entries_eq:
  "0 \<le> i \<Longrightarrow> j < int (length d) \<Longrightarrow>
   read_entries d i j out = Val (out @ take (nat (j + 1 - i)) (drop (nat i) d))"
proof (induction d i j out rule: read_entries.induct)
  case (1 d i j out)
  show ?case
  proof (cases "i > j")
    case True
    then show ?thesis by (simp add: read_entries.simps)
  next
    case False
    then have i: "nat i < length d" "nat (j + 1 - i) = Suc (nat (j - i))" using "1.prems" by auto
    have "nat (i + 1) = Suc (nat i)" using "1.prems" by simp
    then have "take (nat (j + 1 - i)) (drop (nat i) d) =
        d ! nat i # take (nat (j - i)) (drop (nat (i + 1)) d)"
      using i by (simp add: Cons_nth_drop_Suc [symmetric])
    moreover have "nat (j + 1 - (i + 1)) = nat (j - i)" by simp
    ultimately show ?thesis using "1.IH" "1.prems" False by (simp add: read_entries.simps [of d i])
  qed
qed

text \<open>
  The numbers of a log without gaps before its last entry; \<open>g\<close> numbers were given out after it
  and never used.
\<close>

definition log_numbered :: "int \<Rightarrow> nat \<Rightarrow> FsChangeLog \<Rightarrow> bool" where
  "log_numbered z g l \<longleftrightarrow> (\<forall>i < length (l_log_deque l). e_xid (l_log_deque l ! i) = Some (z + int i)) \<and>
     l_next_xid l = z + int (length (l_log_deque l)) + int g \<and> length (l_log_deque l) < 2 ^ 31"

lemma filter_nth_range:
  "(\<And>i. i < length d \<Longrightarrow> P (d ! i) \<longleftrightarrow> a \<le> i \<and> i < b) \<Longrightarrow> filter P d = take (b - a) (drop a d)"
proof (induction d arbitrary: a b)
  case Nil
  then show ?case by simp
next
  case (Cons x d)
  have "P (d ! i) \<longleftrightarrow> a - 1 \<le> i \<and> i < b - 1" if "i < length d" for i
    using Cons.prems [of "Suc i"] that by (auto simp: less_diff_conv)
  then have "filter P d = take ((b - 1) - (a - 1)) (drop (a - 1) d)" by (rule Cons.IH)
  moreover have "P x \<longleftrightarrow> a = 0 \<and> 0 < b" using Cons.prems [of 0] by simp
  ultimately show ?case by (cases a; cases b) simp_all
qed

lemma take_drop_range:
  "take (nat (min a (int (length d) - 1) + 1 - max 0 f)) (drop (nat f) d) = take (nat (a + 1) - nat f) (drop (nat f) d)"
proof (cases "a < int (length d)")
  case True
  then have "min a (int (length d) - 1) = a" by simp
  moreover have "nat (a + 1 - max 0 f) = nat (a + 1) - nat f" by (cases "f < 0") auto
  ultimately show ?thesis by simp
next
  case False
  then have "length (drop (nat f) d) \<le> nat (min a (int (length d) - 1) + 1 - max 0 f)"
    "length (drop (nat f) d) \<le> nat (a + 1) - nat f" by auto
  then show ?thesis by simp
qed

lemma Read_numbered:
  assumes "log_numbered z g l" "first - (z + int g) < 2 ^ 31"
  shows "FsChangeLog_Read first last_xid l =
    Val (take (nat (last_xid + 1 - z - int g) - nat (first - z - int g)) (drop (nat (first - z - int g)) (l_log_deque l)),
         max first (z + int g))"
proof -
  let ?d = "l_log_deque l" and ?n = "int (length (l_log_deque l))"
  let ?fi = "max 0 (first - (z + int g))" and ?li = "min (last_xid - (z + int g)) (?n - 1)"
  have zeroth: "l_next_xid l - ?n = z + int g" using assms(1) by (simp add: log_numbered_def)
  have n: "as_int ?n = ?n" "as_int ?fi = ?fi"
    using assms by (auto simp: log_numbered_def intro!: as_int_id)
  have "FsChangeLog_Read first last_xid l = obind (read_entries ?d ?fi ?li []) (\<lambda>out. Val (out, z + int g + ?fi))"
    unfolding FsChangeLog_Read_def Let_def zeroth n
    using n by (auto simp: max_def min_def not_less intro!: arg_cong2 [of _ _ _ _ obind])
  also have "\<dots> = Val (take (nat (?li + 1 - ?fi)) (drop (nat ?fi) ?d), z + int g + ?fi)"
    by (subst read_entries_eq) auto
  also have "nat ?fi = nat (first - z - int g)" by simp
  also have "take (nat (?li + 1 - ?fi)) (drop (nat (first - z - int g)) ?d) =
      take (nat (last_xid + 1 - z - int g) - nat (first - z - int g)) (drop (nat (first - z - int g)) ?d)"
    using take_drop_range [of "last_xid - (z + int g)" ?d "first - (z + int g)"] by (simp add: algebra_simps)
  also have "z + int g + ?fi = max first (z + int g)" by simp
  finally show ?thesis .
qed

lemma Read_range:
  assumes "log_numbered z 0 l" "first - z < 2 ^ 31"
  shows "FsChangeLog_Read first last_xid l =
    Val (filter (\<lambda>e. first \<le> entry_xid e \<and> entry_xid e \<le> last_xid) (l_log_deque l), max first z)"
proof -
  have "filter (\<lambda>e. first \<le> entry_xid e \<and> entry_xid e \<le> last_xid) (l_log_deque l) =
      take (nat (last_xid + 1 - z) - nat (first - z)) (drop (nat (first - z)) (l_log_deque l))"
  proof (rule filter_nth_range)
    fix i
    assume "i < length (l_log_deque l)"
    with assms(1) have "entry_xid (l_log_deque l ! i) = z + int i" by (simp add: log_numbered_def entry_xid_def)
    then show "first \<le> entry_xid (l_log_deque l ! i) \<and> entry_xid (l_log_deque l ! i) \<le> last_xid \<longleftrightarrow>
        nat (first - z) \<le> i \<and> i < nat (last_xid + 1 - z)" by auto
  qed
  then show ?thesis using Read_numbered [OF assms(1), of first last_xid] assms(2) by simp
qed

text \<open>
  C22. Reading a range of a log in which every number given out was used returns exactly the
  entries numbered in the range, in order, and the number the result starts at.
\<close>

theorem read_returns_range:
  assumes "log_numbered z 0 l" "first - z < 2 ^ 31"
  shows "FsChangeLog_Read first last_xid l =
    Val (filter (\<lambda>e. first \<le> entry_xid e \<and> entry_xid e \<le> last_xid) (l_log_deque l), max first z)"
  using Read_range [OF assms] .

definition sample_log :: "nat \<Rightarrow> FsChangeLog" where
  "sample_log g = (new_FsChangeLog ''/p'' 1)\<lparr>l_log_deque := map (\<lambda>x. new_entry\<lparr>e_xid := Some x\<rparr>) [1, 2, 3],
     l_next_xid := 4 + int g\<rparr>"

lemma sample_log_numbered: "log_numbered 1 g (sample_log g)"
  by (auto simp: log_numbered_def sample_log_def nth_Cons')

theorem read_returns_range_witness:
  "FsChangeLog_Read 2 3 (sample_log 0) =
     Val ([new_entry\<lparr>e_xid := Some 2\<rparr>, new_entry\<lparr>e_xid := Some 3\<rparr>], 2)"
  using read_returns_range [OF sample_log_numbered, of 2 3] by (simp add: sample_log_def entry_xid_def)

text \<open>
  When numbers were given out and never used (as a refused \<^verbatim>\<open>Create\<close> leaves them), reading the
  log up to its own last entry drops that many of its latest entries: \<^verbatim>\<open>Read\<close> computes positions
  as if the numbers were contiguous.
\<close>

theorem read_after_gap_drops_entries:
  assumes "log_numbered z g l"
  shows "FsChangeLog_Read z (z + int (length (l_log_deque l)) - 1) l =
    Val (take (length (l_log_deque l) - g) (l_log_deque l), z + int g)"
proof -
  have "nat (int (length (l_log_deque l)) - int g) = length (l_log_deque l) - g" by simp
  then show ?thesis
    using Read_numbered [OF assms, of z "z + int (length (l_log_deque l)) - 1"] by simp
qed

theorem read_after_gap_drops_entries_witness:
  "FsChangeLog_Read 1 3 (sample_log 1) = Val ([new_entry\<lparr>e_xid := Some 1\<rparr>, new_entry\<lparr>e_xid := Some 2\<rparr>], 2)"
  using read_after_gap_drops_entries [OF sample_log_numbered, of 1] by (simp add: sample_log_def)

section \<open>The log survives a restart\<close>

lemma refresh_loop_frames:
  assumes "\<forall>e \<in> set d. e_xid e \<noteq> None \<and> parse (ser e) = e \<and> length (ser e) < 1024"
  shows "refresh_loop parse (concat (map (\<lambda>e. log_frame (ser e)) d)) n l =
    Val (n + int (length d), l\<lparr>l_log_deque := l_log_deque l @ d,
         l_next_xid := (if d = [] then l_next_xid l else entry_xid (List.last d) + 1)\<rparr>)"
  using assms
proof (induction d arbitrary: n l)
  case Nil
  then show ?case by (simp add: refresh_loop.simps)
next
  case (Cons e d)
  let ?s = "ser e" and ?rest = "concat (map (\<lambda>e. log_frame (ser e)) d)"
  obtain x where x: "e_xid e = Some x" using Cons.prems by auto
  have size: "unat (d64 0 (e64 (word_of_nat (length ?s)) @ ?s @ ?rest)) = length ?s"
    using Cons.prems by (simp add: d_head unsigned_of_nat take_bit_nat_eq_self)
  have "refresh_loop parse (e64 (word_of_nat (length ?s)) @ ?s @ ?rest) n l =
      refresh_loop parse ?rest (n + 1) (l\<lparr>l_log_deque := l_log_deque l @ [e], l_next_xid := x + 1\<rparr>)"
    using Cons.prems x by (subst refresh_loop.simps) (simp add: Let_def size)
  also have "\<dots> = Val (n + 1 + int (length d), l\<lparr>l_log_deque := l_log_deque l @ [e] @ d,
      l_next_xid := (if d = [] then x + 1 else entry_xid (List.last d) + 1)\<rparr>)"
    by (subst Cons.IH) (use Cons.prems in simp_all)
  finally show ?case using x by (simp add: log_frame_def [of "ser e"] entry_xid_def [of e])
qed

text \<open>
  C21. A log written to its file by \<^verbatim>\<open>Flush\<close> and read back by \<^verbatim>\<open>Refresh\<close> into a new log has the same
  entries in the same order, and continues numbering after the last of them. Whatever a file of the
  same name held before is replaced: nothing of it is read back (the comment in the header file says
  that \<^verbatim>\<open>Flush\<close> appends to an existing log). It relies on the file being creatable, on every entry
  having a number, and on the protocol buffers reading back what they wrote, in fewer than 1024 bytes
  per entry.
\<close>

theorem log_flush_refresh:
  assumes "l_log_deque l \<noteq> []" "\<And>f. h_can_create h f"
    and "\<forall>e \<in> set (l_log_deque l). e_xid e \<noteq> None \<and> parse (serialize e) = e \<and> length (serialize e) < 1024"
  shows "obind (FsChangeLog_Flush serialize l h) (\<lambda>h'. FsChangeLog_Refresh parse h' (new_FsChangeLog d x)) =
    Val (int (length (l_log_deque l)),
         (new_FsChangeLog d x)\<lparr>l_log_deque := l_log_deque l, l_next_xid := get_last_xid l + 1\<rparr>)"
  using assms refresh_loop_frames [OF assms(3), of 0 "new_FsChangeLog d x"]
  by (simp add: FsChangeLog_Flush_def FsChangeLog_Refresh_def Let_def get_last_xid_def new_FsChangeLog_def)

definition xid_serialize :: "ChangeLogEntry \<Rightarrow> string" where
  "xid_serialize e = show_nat (nat (entry_xid e))"

definition xid_parse :: "string \<Rightarrow> ChangeLogEntry" where
  "xid_parse s = new_entry\<lparr>e_xid := Some (int (read_nat s))\<rparr>"

theorem log_flush_refresh_witness:
  "obind (FsChangeLog_Flush xid_serialize (sample_log 0) \<lparr>h_files = \<lambda>_. None, h_can_create = \<lambda>_. True, h_last_log_file = []\<rparr>)
     (\<lambda>h'. FsChangeLog_Refresh xid_parse h' (new_FsChangeLog ''/p'' 0)) =
   Val (3, (new_FsChangeLog ''/p'' 0)\<lparr>l_log_deque := l_log_deque (sample_log 0), l_next_xid := 4\<rparr>)"
proof -
  have "length (show_nat 1) < 1024" "length (show_nat 2) < 1024" "length (show_nat 3) < 1024"
    by (simp_all add: show_nat.simps)
  then show ?thesis
    by (subst log_flush_refresh)
      (auto simp: sample_log_def xid_serialize_def xid_parse_def entry_xid_def get_last_xid_def new_entry_def)
qed

end
