(* ===== verification/FSManager.thy ===== *)
theory FSManager
  imports Namespace FileEvict ChangeLog
begin

unbundle bit_operations_syntax

text \<open>
  The file system manager (\<^verbatim>\<open>src/src/FileSystemManager.{h,cc}\<close>) and the counter behind its inode
  numbers (\<^verbatim>\<open>src/src/Atomic.h\<close>). The manager's state is the store, the counter and the change log
  it was given, \<open>None\<close> being the null pointer; the mount (theory \<open>Mount\<close>) extends that state.
  Each operation builds a file object on the stack, as the code does.
\<close>

section \<open>The counter\<close>

text \<open>
  An \<^verbatim>\<open>Atomic\<close> over an integer type is its value; each operation here is one locked
  instruction, or one load or store. \<^verbatim>\<open>operator++\<close> is \<^verbatim>\<open>inc\<close>, which returns the object; reading
  its value is a separate \<^verbatim>\<open>load\<close>.
\<close>

definition Atomic_add :: "int \<Rightarrow> 'a::len word \<Rightarrow> 'a word" where
  "Atomic_add increment v = v + word_of_int increment"

definition compareExchange :: "'a::len word \<Rightarrow> 'a word \<Rightarrow> 'a word \<Rightarrow> 'a word \<times> 'a word" where
  "compareExchange test newValue v = (v, if v = test then newValue else v)"

definition exchange :: "'a::len word \<Rightarrow> 'a word \<Rightarrow> 'a word \<times> 'a word" where
  "exchange newValue v = (v, newValue)"

definition Atomic_inc :: "'a::len word \<Rightarrow> 'a word" where
  "Atomic_inc v = v + 1"

definition Atomic_load :: "'a::len word \<Rightarrow> 'a word" where
  "Atomic_load v = v"

definition Atomic_store :: "'a::len word \<Rightarrow> 'a word \<Rightarrow> 'a word" where
  "Atomic_store newValue v = newValue"

definition Atomic_dec :: "'a::len word \<Rightarrow> 'a word" where
  "Atomic_dec v = Atomic_add (- 1) v"

section \<open>The manager\<close>

record fsys =
  s_kv :: kvs
  s_handleId :: u64
  s_change_log :: "FsChangeLog option"

definition ROOT_HANDLE :: u64 where
  "ROOT_HANDLE = 1"

definition new_FileSystemManager :: "kvs \<Rightarrow> fsys" where
  "new_FileSystemManager kvStore = \<lparr>s_kv = kvStore, s_handleId = ROOT_HANDLE, s_change_log = None\<rparr>"

definition mountFileSystem :: "FsChangeLog option \<Rightarrow> 'z fsys_scheme \<Rightarrow> bool \<times> 'z fsys_scheme" where
  "mountFileSystem change_log s = (True, s\<lparr>s_change_log := change_log\<rparr>)"

text \<open>The store's \<^verbatim>\<open>Snapshot\<close> is virtual: it is an argument.\<close>

definition MountSnapshot :: "(kvs \<Rightarrow> kvs) \<Rightarrow> 'z fsys_scheme \<Rightarrow> fsys" where
  "MountSnapshot snapshot s = new_FileSystemManager (snapshot (s_kv s))"

definition getNextHandleId :: "'z fsys_scheme \<Rightarrow> u64 \<times> 'z fsys_scheme" where
  "getNextHandleId s =
     (let s = s\<lparr>s_handleId := Atomic_inc (s_handleId s)\<rparr> in (Atomic_load (s_handleId s), s))"

definition SetNextInode :: "u64 \<Rightarrow> 'z fsys_scheme \<Rightarrow> 'z fsys_scheme" where
  "SetNextInode ino s = s\<lparr>s_handleId := Atomic_store ino (s_handleId s)\<rparr>"

definition GetCurrentInode :: "'z fsys_scheme \<Rightarrow> u64" where
  "GetCurrentInode s = Atomic_load (s_handleId s)"

text \<open>Calls through the log pointer; a null pointer is undefined behaviour.\<close>

definition log_append :: "ChangeLogEntry \<Rightarrow> 'z fsys_scheme \<Rightarrow> 'z fsys_scheme outcome" where
  "log_append entry s =
     (case s_change_log s of None \<Rightarrow> Undef
      | Some l \<Rightarrow> Val (s\<lparr>s_change_log := Some (snd (Append entry l))\<rparr>))"

definition log_next_xid :: "'z fsys_scheme \<Rightarrow> (int \<times> 'z fsys_scheme) outcome" where
  "log_next_xid s =
     (case s_change_log s of None \<Rightarrow> Undef
      | Some l \<Rightarrow> Val (fst (NextXid l), s\<lparr>s_change_log := Some (snd (NextXid l))\<rparr>))"

definition fm_createRoot ::
  "env \<Rightarrow> (string \<Rightarrow> u64) \<Rightarrow> u64 \<Rightarrow> u32 \<Rightarrow> 'z fsys_scheme \<Rightarrow> (Status \<times> 'z fsys_scheme) outcome" where
  "fm_createRoot env city fsId mode s =
     (let root_dir = new_LogFSFile fsId None ROOT_HANDLE (S_IFDIR OR mode)
                       DEFAULT_FILE_INITIAL_SIZE DEFAULT_FILE_CHUNK_SIZE
      in obind (createRoot env city () (\<lambda>_. root_dir, s_kv s)) (\<lambda>(status, _, kv).
           let s = s\<lparr>s_kv := kv\<rparr>
           in if status = STATUS_OK
              then obind (log_append (new_entry\<lparr>e_operation := Some OP_MKDIR, e_fs_id := Some (sint fsId),
                            e_inode_num := Some (sint ROOT_HANDLE), e_parent_inode_num := Some (sint ROOT_HANDLE)\<rparr>) s)
                     (\<lambda>s. Val (status, s))
              else Val (status, s)))"

text \<open>Two objects on the stack: \<open>True\<close> is \<^verbatim>\<open>parent_dir\<close>, \<open>False\<close> is \<^verbatim>\<open>dir\<close>.\<close>

definition addDirectory ::
  "env \<Rightarrow> (string \<Rightarrow> u64) \<Rightarrow> u64 \<Rightarrow> u64 \<Rightarrow> string \<Rightarrow> u32 \<Rightarrow> 'z fsys_scheme \<Rightarrow> (Status \<times> u64 \<times> 'z fsys_scheme) outcome" where
  "addDirectory env city fsId parent_handle dir_name mode s =
     (let (dir_handle, s) = getNextHandleId s;
          parent_dir = new_LogFSFile fsId None parent_handle (S_IFDIR OR mode)
                         DEFAULT_FILE_INITIAL_SIZE DEFAULT_FILE_CHUNK_SIZE;
          dir = new_LogFSFile fsId (Some dir_name) dir_handle (S_IFDIR OR mode)
                  DEFAULT_FILE_INITIAL_SIZE DEFAULT_FILE_CHUNK_SIZE
      in obind (addPathInfo parent_handle dir_name (f_meta dir)) (\<lambda>meta.
           obind (file_create env city False True
                    (\<lambda>b. if b then parent_dir else dir\<lparr>f_meta := meta\<rparr>, s_kv s)) (\<lambda>(status, _, kv).
             let s = s\<lparr>s_kv := kv\<rparr>
             in if status = STATUS_OK
                then obind (log_append (new_entry\<lparr>e_operation := Some OP_MKDIR, e_fs_id := Some (sint fsId),
                              e_inode_num := Some (sint dir_handle), e_parent_inode_num := Some (sint parent_handle)\<rparr>) s)
                       (\<lambda>s. Val (status, dir_handle, s))
                else Val (status, dir_handle, s))))"

text \<open>The result: status, \<^verbatim>\<open>*actualLen\<close> and the bytes stored at the buffer.\<close>

definition readFile ::
  "env \<Rightarrow> (u64 \<Rightarrow> TieredInFile option) \<Rightarrow> u64 \<Rightarrow> u64 \<Rightarrow> u64 \<Rightarrow> u64 \<Rightarrow> 'z fsys_scheme \<Rightarrow>
   (Status \<times> u64 \<times> string \<times> 'z fsys_scheme) outcome" where
  "readFile env tier_open fsId handle offset len s =
     obind (file_open (default_LogFSFile fsId handle, s_kv s)) (\<lambda>(opened, this, kv).
       if opened
       then obind (file_read env tier_open (sint offset) len True (this, kv)) (\<lambda>(status, actualLen, buf, _, kv).
              Val (status, actualLen, buf, s\<lparr>s_kv := kv\<rparr>))
       else Val (STATUS_OBJECT_DOESNT_EXIST, 0, [], s))"

text \<open>
  \<^verbatim>\<open>statFile\<close> overwrites most of the answer for anything that is not a regular file, also after
  an error, when the buffer holds what the caller had in it.
\<close>

definition statFile ::
  "env \<Rightarrow> u64 \<Rightarrow> u64 \<Rightarrow> stat_buf \<Rightarrow> 'z fsys_scheme \<Rightarrow> (Status \<times> stat_buf) outcome" where
  "statFile env fsId handle statBuff s =
     obind (file_stat statBuff (default_LogFSFile fsId handle, s_kv s)) (\<lambda>(status, statBuff, _).
       let status = (if status \<noteq> STATUS_OK then STATUS_OBJECT_DOESNT_EXIST else STATUS_OK);
           ctime = uint (now32 env)
       in if \<not> S_ISREG (st_mode statBuff)
          then Val (status, statBuff\<lparr>st_mode := S_IFDIR OR 0x1FF, st_uid := getuid env, st_gid := getgid env,
                     st_dev := fsId, st_rdev := 0, st_nlink := 2, st_ctime := ctime, st_atime := ctime,
                     st_mtime := ctime\<rparr>)
          else Val (status, statBuff))"

text \<open>\<open>None\<close>: the two out-parameters are not assigned.\<close>

definition fm_getPathInfo ::
  "u64 \<Rightarrow> u64 \<Rightarrow> 'z fsys_scheme \<Rightarrow> (Status \<times> (u64 \<times> string) option) outcome" where
  "fm_getPathInfo fsId handle s =
     obind (file_open (default_LogFSFile fsId handle, s_kv s)) (\<lambda>(opened, this, kv).
       if opened then obind (getPathInfo (f_meta this)) (\<lambda>info. Val (STATUS_OK, Some info))
       else Val (STATUS_OBJECT_DOESNT_EXIST, None))"

definition openFile :: "u64 \<Rightarrow> u64 \<Rightarrow> 'z fsys_scheme \<Rightarrow> Status outcome" where
  "openFile fsId handle s =
     obind (file_open (default_LogFSFile fsId handle, s_kv s)) (\<lambda>(opened, _).
       Val (if \<not> opened then STATUS_OBJECT_DOESNT_EXIST else STATUS_OK))"

definition fm_Evict :: "stat_buf \<Rightarrow> u64 \<Rightarrow> u64 \<Rightarrow> 'z fsys_scheme \<Rightarrow> (Status \<times> 'z fsys_scheme) outcome" where
  "fm_Evict uninit fs_id handle s =
     obind (Evict uninit (default_LogFSFile fs_id handle, s_kv s)) (\<lambda>(status, _, kv). Val (status, s\<lparr>s_kv := kv\<rparr>))"

definition releaseFile :: "u64 \<Rightarrow> u64 \<Rightarrow> Status" where
  "releaseFile fsId handle = STATUS_OK"

section \<open>Inode numbers\<close>

text \<open>The numbers returned by \<open>n\<close> calls made one after another.\<close>

primrec next_handles :: "nat \<Rightarrow> 'z fsys_scheme \<Rightarrow> u64 list" where
  "next_handles 0 s = []"
| "next_handles (Suc n) s = (let (h, s) = getNextHandleId s in h # next_handles n s)"

lemma next_handles_eq: "next_handles n s = map (\<lambda>i. s_handleId s + word_of_nat (Suc i)) [0..<n]"
proof (induction n arbitrary: s)
  case 0
  then show ?case by simp
next
  case (Suc n)
  then show ?case
    by (simp add: getNextHandleId_def Atomic_inc_def Atomic_load_def upt_conv_Cons map_Suc_upt [symmetric]
        add.assoc del: upt_Suc)
qed

text \<open>
  C23. Inode numbers given out by calls made one after another are all different, for as many
  calls as there are 64-bit numbers, and each is one more than the one before.
\<close>

theorem handles_are_distinct:
  assumes "n \<le> 2 ^ 64"
  shows "distinct (next_handles n s) \<and> (\<forall>i < n. next_handles n s ! i = s_handleId s + word_of_nat (Suc i))"
proof -
  have "inj_on (\<lambda>i. s_handleId s + word_of_nat (Suc i)) (set [0..<n])"
  proof (rule inj_onI)
    fix i j
    assume "i \<in> set [0..<n]" "j \<in> set [0..<n]" "s_handleId s + word_of_nat (Suc i) = s_handleId s + word_of_nat (Suc j)"
    then have "(word_of_nat i :: u64) = word_of_nat j" "i < 2 ^ 64" "j < 2 ^ 64" using assms by auto
    then have "unat (word_of_nat i :: u64) = unat (word_of_nat j :: u64)" by simp
    then show "i = j" using \<open>i < 2 ^ 64\<close> \<open>j < 2 ^ 64\<close>
      by (simp add: unsigned_of_nat take_bit_nat_eq_self)
  qed
  then show ?thesis by (simp add: next_handles_eq distinct_map)
qed

theorem handles_are_distinct_witness:
  "distinct (next_handles 3 (new_FileSystemManager empty_kvs)) \<and>
   next_handles 3 (new_FileSystemManager empty_kvs) ! 2 = 4"
  using handles_are_distinct [of 3 "new_FileSystemManager empty_kvs"]
  by (simp add: new_FileSystemManager_def ROOT_HANDLE_def)

section \<open>Allocation by several threads\<close>

text \<open>
  Threads that call \<^verbatim>\<open>getNextHandleId\<close> at the same time: the locked increment and the load of
  the result are two steps, and other threads run between them.
\<close>

datatype alloc_pc = Idle | Incremented | Got u64

inductive alloc_step :: "u64 \<times> (nat \<Rightarrow> alloc_pc) \<Rightarrow> u64 \<times> (nat \<Rightarrow> alloc_pc) \<Rightarrow> bool" where
  inc: "pcs t = Idle \<Longrightarrow> alloc_step (v, pcs) (Atomic_inc v, pcs(t := Incremented))"
| load: "pcs t = Incremented \<Longrightarrow> alloc_step (v, pcs) (v, pcs(t := Got (Atomic_load v)))"

text \<open>
  C34. Two threads that allocate an inode number at the same time can be given the same number:
  both increments may come before both loads. From every value of the counter there is an
  interleaving in which both calls return the second number, and the first is lost.
\<close>

theorem concurrent_handles_collide:
  "\<exists>pcs. alloc_step\<^sup>*\<^sup>* (h, \<lambda>_. Idle) (h + 2, pcs) \<and> pcs 0 = Got (h + 2) \<and> pcs 1 = Got (h + 2)"
proof -
  let ?p1 = "(\<lambda>_. Idle)(0 := Incremented)"
  let ?p2 = "?p1(1 := Incremented)" let ?p3 = "?p2(0 := Got (h + 2))" let ?p4 = "?p3(1 := Got (h + 2))"
  have "alloc_step\<^sup>*\<^sup>* (h, \<lambda>_. Idle) (h + 1, ?p1)"
    using alloc_step.inc [of "\<lambda>_. Idle" 0 h] by (simp add: Atomic_inc_def r_into_rtranclp)
  also have "alloc_step (h + 1, ?p1) (h + 2, ?p2)"
    using alloc_step.inc [of ?p1 1 "h + 1"] by (simp add: Atomic_inc_def add.assoc)
  also have "alloc_step (h + 2, ?p2) (h + 2, ?p3)"
    using alloc_step.load [of ?p2 0 "h + 2"] by (simp add: Atomic_load_def)
  also have "alloc_step (h + 2, ?p3) (h + 2, ?p4)"
    using alloc_step.load [of ?p3 1 "h + 2"] by (simp add: Atomic_load_def)
  finally show ?thesis by (intro exI [of _ ?p4]) simp
qed

end
