(* ===== verification/Mount.thy ===== *)
theory Mount
  imports FSManager FileMeta
begin

unbundle bit_operations_syntax

text \<open>
  The mount (\<^verbatim>\<open>src/src/kvfs_mount.{h,cc}\<close>, \<^verbatim>\<open>src/src/dir_entry_adder.{h,cc}\<close>): the table of active
  inodes with their reference counts, and the file operations on an inode.

  The mount extends the state of the file system manager. An inode is a node of the table, known
  by its address; the table maps an inode number to the address of its node. Using an address
  whose node was freed is undefined behaviour (\<open>Undef\<close>).

  The FUSE library, the C library's allocator, the hash of a name, the tiering agent and what is
  in a \<^verbatim>\<open>struct stat\<close> that was not initialised are arguments, in \<open>fenv\<close>. A FUSE reply is the
  result of an operation; \<open>fe_reply\<close> is what sending it returns.
\<close>

section \<open>Inodes and the mount\<close>

datatype State = INVALID | CLEAN | DIRTY

record FuseKvfsInode =
  i_attr :: stat_buf
  i_file :: LogFSFile
  i_nlookup :: int
  i_state :: State

record Superblock =
  sb_magic :: int
  sb_filesystem_name :: string
  sb_cloud_uri :: string
  sb_next_inode :: int
  sb_next_xid :: int
  sb_fs_id :: int
  sb_dev :: int
  sb_chunk_size :: int

record KvfsMount = fsys +
  km_fs_id :: u64
  km_super :: Superblock
  km_inodes :: "nat \<Rightarrow> FuseKvfsInode option"
  km_next_addr :: nat
  km_inode_map :: "u64 \<Rightarrow> nat option"
  km_fuse_keep_cache :: bool
  km_fuse_direct_io :: bool
  km_fuse_attr_timeout :: int
  km_fuse_entry_timeout :: int

datatype reply =
    reply_err int
  | reply_attr stat_buf int
  | reply_entry u64 stat_buf int int
  | reply_create u64 stat_buf nat bool
  | reply_buf string
  | reply_write u64
  | reply_open nat bool bool
  | reply_none

record fenv =
  fe_env :: env
  fe_city :: "string \<Rightarrow> u64"
  fe_tier :: "u64 \<Rightarrow> TieredInFile option"
  fe_uninit :: stat_buf
  fe_malloc :: "u64 \<Rightarrow> bool"
  fe_direntry :: "string \<Rightarrow> stat_buf \<Rightarrow> int \<Rightarrow> string"
  fe_reply :: "reply \<Rightarrow> int"

definition new_FuseKvfsInode :: "fenv \<Rightarrow> u64 \<Rightarrow> u64 \<Rightarrow> FuseKvfsInode" where
  "new_FuseKvfsInode E fs_id ino =
     \<lparr>i_attr = (fe_uninit E)\<lparr>st_ino := ino, st_dev := 0\<rparr>, i_file = default_LogFSFile fs_id ino,
      i_nlookup = 0, i_state = INVALID\<rparr>"

definition get_inode :: "nat \<Rightarrow> KvfsMount \<Rightarrow> FuseKvfsInode outcome" where
  "get_inode a m = of_option (km_inodes m a)"

definition put_inode :: "nat \<Rightarrow> FuseKvfsInode \<Rightarrow> KvfsMount \<Rightarrow> KvfsMount" where
  "put_inode a i m = m\<lparr>km_inodes := (km_inodes m)(a := Some i)\<rparr>"

definition upd_inode :: "nat \<Rightarrow> (FuseKvfsInode \<Rightarrow> FuseKvfsInode) \<Rightarrow> KvfsMount \<Rightarrow> KvfsMount outcome" where
  "upd_inode a g m = obind (get_inode a m) (\<lambda>i. Val (put_inode a (g i) m))"

text \<open>A call on the file object of an inode, and a call on the file objects of several.\<close>

definition on_file :: "nat \<Rightarrow> (fstate \<Rightarrow> ('r \<times> fstate) outcome) \<Rightarrow> KvfsMount \<Rightarrow> ('r \<times> KvfsMount) outcome" where
  "on_file a call m =
     obind (get_inode a m) (\<lambda>i.
       obind (call (i_file i, s_kv m)) (\<lambda>(r, t, kv).
         Val (r, (put_inode a (i\<lparr>i_file := t\<rparr>) m)\<lparr>s_kv := kv\<rparr>)))"

definition file_at :: "KvfsMount \<Rightarrow> nat \<Rightarrow> LogFSFile" where
  "file_at m a = (case km_inodes m a of Some i \<Rightarrow> i_file i | None \<Rightarrow> default_LogFSFile 0 0)"

definition on_files :: "(nat hstate \<Rightarrow> ('r \<times> nat hstate) outcome) \<Rightarrow> KvfsMount \<Rightarrow> ('r \<times> KvfsMount) outcome" where
  "on_files call m =
     obind (call (file_at m, s_kv m)) (\<lambda>(r, objs, kv).
       Val (r, m\<lparr>km_inodes := \<lambda>a. map_option (\<lambda>i. i\<lparr>i_file := objs a\<rparr>) (km_inodes m a), s_kv := kv\<rparr>))"

section \<open>Reference counts\<close>

definition Hold :: "int \<Rightarrow> nat \<Rightarrow> KvfsMount \<Rightarrow> (int \<times> KvfsMount) outcome" where
  "Hold n a m =
     obind (get_inode a m) (\<lambda>i.
       let i = i\<lparr>i_nlookup := i_nlookup i + n\<rparr> in Val (i_nlookup i, put_inode a i m))"

definition Release :: "fenv \<Rightarrow> int \<Rightarrow> nat \<Rightarrow> KvfsMount \<Rightarrow> (int \<times> KvfsMount) outcome" where
  "Release E n a m =
     obind (get_inode a m) (\<lambda>i.
       let nlookup = (if n > i_nlookup i then 0 else i_nlookup i - n);
           m = put_inode a (i\<lparr>i_nlookup := nlookup\<rparr>) m
       in if nlookup = 0
          then obind (on_file a (file_close (fe_env E)) m) (\<lambda>(_, m). Val (nlookup, m))
          else Val (nlookup, m))"

text \<open>The address returned is \<open>None\<close> for a null pointer.\<close>

definition GetInode :: "fenv \<Rightarrow> u64 \<Rightarrow> bool \<Rightarrow> KvfsMount \<Rightarrow> (nat option \<times> KvfsMount) outcome" where
  "GetInode E ino create m =
     (let (inode, m) =
        (case km_inode_map m ino of
           Some a \<Rightarrow> (Some a, m)
         | None \<Rightarrow>
             if create
             then (Some (km_next_addr m),
                   m\<lparr>km_inodes := (km_inodes m)(km_next_addr m := Some (new_FuseKvfsInode E (km_fs_id m) ino)),
                     km_inode_map := (km_inode_map m)(ino := Some (km_next_addr m)),
                     km_next_addr := Suc (km_next_addr m)\<rparr>)
             else (None, m))
      in case inode of
           None \<Rightarrow> Val (None, m)
         | Some a \<Rightarrow> obind (Hold 1 a m) (\<lambda>(_, m). Val (Some a, m)))"

text \<open>\<^verbatim>\<open>inode_map.erase\<close> destroys the node the table has for the number.\<close>

definition FreeInode :: "nat \<Rightarrow> KvfsMount \<Rightarrow> KvfsMount outcome" where
  "FreeInode a m =
     obind (get_inode a m) (\<lambda>i.
       case km_inode_map m (st_ino (i_attr i)) of
         None \<Rightarrow> Val m
       | Some b \<Rightarrow> Val (m\<lparr>km_inodes := (km_inodes m)(b := None),
                          km_inode_map := (km_inode_map m)(st_ino (i_attr i) := None)\<rparr>))"

text \<open>The inode, created if it is not in the table; the code never asks for less.\<close>

definition get_or_create :: "fenv \<Rightarrow> u64 \<Rightarrow> KvfsMount \<Rightarrow> (nat \<times> KvfsMount) outcome" where
  "get_or_create E ino m =
     obind (GetInode E ino True m) (\<lambda>(p, m). obind (of_option p) (\<lambda>a. Val (a, m)))"

section \<open>Attributes\<close>

definition set_state :: "State \<Rightarrow> nat \<Rightarrow> KvfsMount \<Rightarrow> KvfsMount outcome" where
  "set_state st a = upd_inode a (\<lambda>i. i\<lparr>i_state := st\<rparr>)"

definition set_name :: "string \<Rightarrow> nat \<Rightarrow> KvfsMount \<Rightarrow> KvfsMount outcome" where
  "set_name n a = upd_inode a (\<lambda>i. i\<lparr>i_file := setName n (i_file i)\<rparr>)"

definition set_mode :: "u32 \<Rightarrow> nat \<Rightarrow> KvfsMount \<Rightarrow> KvfsMount outcome" where
  "set_mode mode a = upd_inode a (\<lambda>i.
     i\<lparr>i_file := (i_file i)\<lparr>f_mode := mode\<rparr>, i_attr := (i_attr i)\<lparr>st_mode := mode\<rparr>\<rparr>)"

definition set_file_xid :: "int \<Rightarrow> nat \<Rightarrow> KvfsMount \<Rightarrow> KvfsMount outcome" where
  "set_file_xid xid a = upd_inode a (\<lambda>i. i\<lparr>i_file := upd_meta (set_xid (word_of_int xid)) (i_file i)\<rparr>)"

definition set_path_info :: "u64 \<Rightarrow> string \<Rightarrow> nat \<Rightarrow> KvfsMount \<Rightarrow> KvfsMount outcome" where
  "set_path_info parent name a m =
     obind (get_inode a m) (\<lambda>i.
       obind (addPathInfo parent name (f_meta (i_file i))) (\<lambda>meta.
         Val (put_inode a (i\<lparr>i_file := (i_file i)\<lparr>f_meta := meta\<rparr>\<rparr>) m)))"

definition Refresh :: "nat \<Rightarrow> KvfsMount \<Rightarrow> (int \<times> KvfsMount) outcome" where
  "Refresh a m =
     obind (get_inode a m) (\<lambda>i.
       if i_state i = INVALID
       then obind (file_stat (i_attr i) (i_file i, s_kv m)) (\<lambda>(status, attr, t, kv).
              let err = StatusToErrno status;
                  i = i\<lparr>i_attr := attr, i_file := t\<rparr>;
                  i = (if err = 0 then i\<lparr>i_state := CLEAN\<rparr> else i)
              in Val (err, (put_inode a i m)\<lparr>s_kv := kv\<rparr>))
       else Val (0, m))"

definition Getattr :: "nat \<Rightarrow> KvfsMount \<Rightarrow> (reply \<times> KvfsMount) outcome" where
  "Getattr a m =
     obind (Refresh a m) (\<lambda>(err, m).
       if err \<noteq> 0 then Val (reply_err err, m)
       else obind (get_inode a m) (\<lambda>i. Val (reply_attr (i_attr i) (km_fuse_attr_timeout m), m)))"

definition zero_stat :: stat_buf where
  "zero_stat = \<lparr>st_dev = 0, st_ino = 0, st_mode = 0, st_nlink = 0, st_uid = 0, st_gid = 0, st_rdev = 0,
     st_size = 0, st_blksize = 0, st_blocks = 0, st_atime = 0, st_mtime = 0, st_ctime = 0\<rparr>"

definition Getattr_stat :: "nat \<Rightarrow> KvfsMount \<Rightarrow> (int \<times> stat_buf \<times> KvfsMount) outcome" where
  "Getattr_stat a m =
     obind (Refresh a m) (\<lambda>(err, m).
       if err = 0 then obind (get_inode a m) (\<lambda>i. Val (err, i_attr i, m)) else Val (err, zero_stat, m))"

definition Inode_Evict :: "fenv \<Rightarrow> nat \<Rightarrow> KvfsMount \<Rightarrow> (nat \<times> KvfsMount) outcome" where
  "Inode_Evict E a m =
     obind (Refresh a m) (\<lambda>(_, m).
       obind (on_file a (Evict (fe_uninit E)) m) (\<lambda>(status, m). Val (status_code status, m)))"

definition FUSE_SET_ATTR_MODE :: u32 where "FUSE_SET_ATTR_MODE = 1"
definition FUSE_SET_ATTR_UID :: u32 where "FUSE_SET_ATTR_UID = 2"
definition FUSE_SET_ATTR_GID :: u32 where "FUSE_SET_ATTR_GID = 4"
definition FUSE_SET_ATTR_SIZE :: u32 where "FUSE_SET_ATTR_SIZE = 8"
definition FUSE_SET_ATTR_ATIME :: u32 where "FUSE_SET_ATTR_ATIME = 0x10"
definition FUSE_SET_ATTR_MTIME :: u32 where "FUSE_SET_ATTR_MTIME = 0x20"
definition FUSE_SET_ATTR_ATIME_NOW :: u32 where "FUSE_SET_ATTR_ATIME_NOW = 0x80"
definition FUSE_SET_ATTR_MTIME_NOW :: u32 where "FUSE_SET_ATTR_MTIME_NOW = 0x100"

text \<open>The part of \<^verbatim>\<open>Setattr\<close> that sets the size: the new status.\<close>

definition setattr_size :: "fenv \<Rightarrow> int \<Rightarrow> int \<Rightarrow> nat \<Rightarrow> KvfsMount \<Rightarrow> (Status \<times> KvfsMount) outcome" where
  "setattr_size E xid new_size a m =
     obind (set_file_xid xid a m) (\<lambda>m.
       obind (on_file a (SetSize (fe_env E) new_size) m) (\<lambda>(status, m).
         obind (get_inode a m) (\<lambda>i.
           if st_size (i_attr i) \<noteq> new_size
           then obind (upd_inode a (\<lambda>i. i\<lparr>i_attr := (i_attr i)\<lparr>st_size := new_size\<rparr>\<rparr>) m) (\<lambda>m.
                  obind (set_state DIRTY a m) (\<lambda>m. Val (status, m)))
           else Val (status, m))))"

text \<open>The attributes asked for.\<close>

definition setattr_merge :: "fenv \<Rightarrow> u32 \<Rightarrow> stat_buf \<Rightarrow> stat_buf \<Rightarrow> stat_buf" where
  "setattr_merge E to_set set_attr new_attr =
     (let new_attr = (if to_set AND FUSE_SET_ATTR_MODE \<noteq> 0 then new_attr\<lparr>st_mode := st_mode set_attr\<rparr> else new_attr);
          new_attr = (if to_set AND FUSE_SET_ATTR_UID \<noteq> 0 then new_attr\<lparr>st_uid := st_uid set_attr\<rparr> else new_attr);
          new_attr = (if to_set AND FUSE_SET_ATTR_GID \<noteq> 0 then new_attr\<lparr>st_gid := st_gid set_attr\<rparr> else new_attr);
          new_attr = (if to_set AND FUSE_SET_ATTR_ATIME \<noteq> 0 then new_attr\<lparr>st_atime := st_atime set_attr\<rparr> else new_attr);
          new_attr = (if to_set AND FUSE_SET_ATTR_MTIME \<noteq> 0 then new_attr\<lparr>st_mtime := st_mtime set_attr\<rparr> else new_attr);
          new_attr = (if to_set AND FUSE_SET_ATTR_ATIME_NOW \<noteq> 0 then new_attr\<lparr>st_atime := now (fe_env E)\<rparr> else new_attr);
          new_attr = (if to_set AND FUSE_SET_ATTR_MTIME_NOW \<noteq> 0 then new_attr\<lparr>st_mtime := now (fe_env E)\<rparr> else new_attr)
      in new_attr)"

text \<open>The part that sets the others.\<close>

definition setattr_attrs :: "int \<Rightarrow> stat_buf \<Rightarrow> nat \<Rightarrow> KvfsMount \<Rightarrow> KvfsMount outcome" where
  "setattr_attrs xid new_attr a m =
     obind (set_file_xid xid a m) (\<lambda>m.
     obind (on_file a (SetAttr new_attr) m) (\<lambda>(_, m).
     obind (upd_inode a (\<lambda>i. i\<lparr>i_attr := new_attr\<rparr>) m) (\<lambda>m. set_state CLEAN a m)))"

definition Setattr :: "fenv \<Rightarrow> stat_buf \<Rightarrow> u32 \<Rightarrow> nat \<Rightarrow> KvfsMount \<Rightarrow> (reply \<times> KvfsMount) outcome" where
  "Setattr E set_attr to_set a m =
     obind (log_next_xid m) (\<lambda>(xid, m).
     obind (Refresh a m) (\<lambda>(err, m).
     obind (if to_set AND FUSE_SET_ATTR_SIZE \<noteq> 0
            then obind (setattr_size E xid (st_size set_attr) a m) (\<lambda>(status, m). Val (StatusToErrno status, m))
            else Val (err, m)) (\<lambda>(err, m).
     obind (get_inode a m) (\<lambda>i.
     obind (if err = 0 \<and> to_set AND NOT FUSE_SET_ATTR_SIZE \<noteq> 0
            then let new_attr = setattr_merge E to_set set_attr (i_attr i)
                 in obind (setattr_attrs xid new_attr a m) (\<lambda>m. Val (new_attr, m))
            else Val (i_attr i, m)) (\<lambda>(new_attr, m).
     if err \<noteq> 0 then Val (reply_err err, m)
     else obind (get_inode a m) (\<lambda>i.
          obind (log_append (new_entry\<lparr>e_xid := Some xid, e_operation := Some OP_SETATTR,
                   e_fs_id := Some (sint (km_fs_id m)), e_inode_num := Some (sint (st_ino (i_attr i))),
                   e_end_offset := Some (sint (m_fileTotalSize (f_meta (i_file i))))\<rparr>) m) (\<lambda>m.
          Val (reply_attr new_attr (km_fuse_attr_timeout m), m))))))))"

section \<open>Names\<close>

definition find_child :: "fenv \<Rightarrow> string \<Rightarrow> nat \<Rightarrow> KvfsMount \<Rightarrow> (u64 \<times> KvfsMount) outcome" where
  "find_child E name a = on_file a (findHandle (fe_city E) name)"

definition Lookup :: "fenv \<Rightarrow> string \<Rightarrow> nat \<Rightarrow> KvfsMount \<Rightarrow> (reply \<times> KvfsMount) outcome" where
  "Lookup E name a m =
     obind (find_child E name a m) (\<lambda>(child, m).
     obind (if child = 0 then Val (ENOENT, 0, zero_stat, m)
            else obind (get_or_create E child m) (\<lambda>(c, m).
                 obind (Refresh c m) (\<lambda>(err, m).
                 obind (get_inode c m) (\<lambda>i.
                 if i_state i \<noteq> INVALID
                 then obind (set_state CLEAN c m) (\<lambda>m. Val (err, st_ino (i_attr i), i_attr i, m))
                 else expect (err \<noteq> 0) (Val (err, 0, zero_stat, m)))))) (\<lambda>(err, ino, attr, m).
     let r = (if err \<noteq> 0 then reply_err err
              else reply_entry ino attr (km_fuse_attr_timeout m) (km_fuse_entry_timeout m))
     in expect (fe_reply E r = 0) (Val (r, m))))"

text \<open>The change-log entry of an operation on a child of \<open>parent\<close>.\<close>

definition child_entry :: "Operation \<Rightarrow> int option \<Rightarrow> string option \<Rightarrow> u64 \<Rightarrow> u64 \<Rightarrow> KvfsMount \<Rightarrow> ChangeLogEntry" where
  "child_entry oper xid name child parent m =
     new_entry\<lparr>e_xid := xid, e_operation := Some oper, e_fs_id := Some (sint (km_fs_id m)),
       e_inode_num := Some (sint child), e_parent_inode_num := Some (sint parent), e_new_name := name\<rparr>"

text \<open>
  What \<^verbatim>\<open>Create\<close> and \<^verbatim>\<open>Mkdir\<close> share: a new inode with its number, name, mode, path and transaction
  number, entered in the parent. The result: the new address, its number, the transaction
  number and the error.
\<close>

definition new_child ::
  "fenv \<Rightarrow> string \<Rightarrow> u32 \<Rightarrow> nat \<Rightarrow> KvfsMount \<Rightarrow> (nat \<times> u64 \<times> int \<times> int \<times> KvfsMount) outcome" where
  "new_child E name mode a m =
     obind (log_next_xid m) (\<lambda>(xid, m).
     let (child, m) = getNextHandleId m in
     obind (get_or_create E child m) (\<lambda>(c, m).
     obind (set_name name c m) (\<lambda>m.
     obind (set_mode mode c m) (\<lambda>m.
     obind (set_state INVALID c m) (\<lambda>m.
     obind (get_inode a m) (\<lambda>i.
     obind (set_path_info (st_ino (i_attr i)) name c m) (\<lambda>m.
     obind (set_file_xid xid c m) (\<lambda>m.
     obind (set_file_xid xid a m) (\<lambda>m.
     obind (on_files (file_create (fe_env E) (fe_city E) c a) m) (\<lambda>(status, m).
     Val (c, child, xid, StatusToErrno status, m)))))))))))"

definition Create :: "fenv \<Rightarrow> string \<Rightarrow> u32 \<Rightarrow> nat \<Rightarrow> KvfsMount \<Rightarrow> (reply \<times> KvfsMount) outcome" where
  "Create E name mode a m =
     obind (find_child E name a m) (\<lambda>(child, m).
     if child \<noteq> 0 then Val (reply_err EEXIST, m)
     else obind (new_child E name mode a m) (\<lambda>(c, child, xid, err, m).
          if err \<noteq> 0 then Val (reply_err err, m)
          else obind (get_inode a m) (\<lambda>i.
               obind (log_append (child_entry OP_CREAT (Some xid) (Some name) child (st_ino (i_attr i)) m) m) (\<lambda>m.
               obind (Refresh c m) (\<lambda>(err, m).
               expect (err = 0)
                 (obind (get_inode c m) (\<lambda>i. Val (reply_create child (i_attr i) c (km_fuse_keep_cache m), m))))))))"

definition Mkdir :: "fenv \<Rightarrow> string \<Rightarrow> u32 \<Rightarrow> nat \<Rightarrow> KvfsMount \<Rightarrow> (reply \<times> KvfsMount) outcome" where
  "Mkdir E name mode a m =
     obind (Refresh a m) (\<lambda>(_, m).
     obind (find_child E name a m) (\<lambda>(child, m).
     if child \<noteq> 0 then Val (reply_err EEXIST, m)
     else obind (new_child E name (S_IFDIR OR mode) a m) (\<lambda>(c, child, xid, err, m).
          if err \<noteq> 0 then obind (Release E 1 c m) (\<lambda>(_, m). Val (reply_err err, m))
          else obind (set_state INVALID a m) (\<lambda>m.
               obind (get_inode a m) (\<lambda>i.
               obind (log_append (child_entry OP_CREAT (Some xid) (Some name) child (st_ino (i_attr i)) m) m) (\<lambda>m.
               obind (Refresh c m) (\<lambda>(err, m).
               expect (err = 0)
                 (obind (get_inode c m) (\<lambda>i.
                    let r = reply_entry child (i_attr i) (km_fuse_attr_timeout m) (km_fuse_entry_timeout m)
                    in expect (fe_reply E r = 0) (Val (r, m)))))))))))"

definition Rmdir :: "fenv \<Rightarrow> string \<Rightarrow> nat \<Rightarrow> KvfsMount \<Rightarrow> (reply \<times> KvfsMount) outcome" where
  "Rmdir E name a m =
     obind (find_child E name a m) (\<lambda>(child, m).
     if child = 0 then Val (reply_err ENOENT, m)
     else obind (get_or_create E child m) (\<lambda>(c, m).
          obind (get_inode c m) (\<lambda>i.
          obind (if \<not> S_ISDIR (st_mode (i_attr i)) then Val (ENOTDIR, m)
                 else obind (log_next_xid m) (\<lambda>(xid, m).
                      obind (set_file_xid xid c m) (\<lambda>m.
                      obind (set_file_xid xid a m) (\<lambda>m.
                      obind (on_files (file_remove (fe_city E) c a name) m) (\<lambda>(status, m).
                      if StatusToErrno status \<noteq> 0 then Val (StatusToErrno status, m)
                      else obind (get_inode a m) (\<lambda>i.
                           obind (log_append (child_entry OP_RMDIR None (Some name) child (st_ino (i_attr i)) m) m)
                             (\<lambda>m. Val (0, m)))))))) (\<lambda>(err, m).
          obind (Release E 1 c m) (\<lambda>(_, m). Val (reply_err err, m))))))"

definition Unlink :: "fenv \<Rightarrow> string \<Rightarrow> nat \<Rightarrow> KvfsMount \<Rightarrow> (reply \<times> KvfsMount) outcome" where
  "Unlink E name a m =
     obind (find_child E name a m) (\<lambda>(child, m).
     if child = 0 then Val (reply_err ENOENT, m)
     else obind (get_or_create E child m) (\<lambda>(c, m).
          obind (on_files (file_remove (fe_city E) c a name) m) (\<lambda>(status, m).
          obind (Release E 1 c m) (\<lambda>(_, m).
          if StatusToErrno status \<noteq> 0 then Val (reply_err (StatusToErrno status), m)
          else obind (get_inode a m) (\<lambda>i.
               obind (log_append (child_entry OP_UNLINK None None child (st_ino (i_attr i)) m) m) (\<lambda>m.
               Val (reply_err 0, m)))))))"

definition Link :: "fenv \<Rightarrow> u64 \<Rightarrow> string \<Rightarrow> nat \<Rightarrow> KvfsMount \<Rightarrow> (reply \<times> KvfsMount) outcome" where
  "Link E ino name a m =
     obind (Refresh a m) (\<lambda>(_, m).
     obind (find_child E name a m) (\<lambda>(child, m).
     if child \<noteq> 0 then Val (reply_err EEXIST, m)
     else obind (get_or_create E ino m) (\<lambda>(c, m).
          obind (Refresh c m) (\<lambda>(_, m).
          obind (on_files (file_link (fe_env E) (fe_city E) a c name) m) (\<lambda>(status, m).
          obind (Release E 1 c m) (\<lambda>(_, m).
          obind (get_inode c m) (\<lambda>i.
          if StatusToErrno status \<noteq> 0 then Val (reply_err (StatusToErrno status), m)
          else obind (set_state INVALID c m) (\<lambda>m.
               obind (set_state INVALID a m) (\<lambda>m.
               obind (get_inode a m) (\<lambda>d.
               obind (log_append (child_entry OP_LINK None None ino (st_ino (i_attr d)) m) m) (\<lambda>m.
               let r = reply_entry (st_ino (i_attr i)) (i_attr i) (km_fuse_attr_timeout m) (km_fuse_entry_timeout m)
               in expect (fe_reply E r = 0) (Val (r, m)))))))))))))"

section \<open>Data\<close>

text \<open>
  \<^verbatim>\<open>Read\<close> allocates a buffer of the size asked for. Storing more than that in it, or replying
  with bytes that were never stored in it, is undefined.
\<close>

definition Inode_Read :: "fenv \<Rightarrow> u64 \<Rightarrow> int \<Rightarrow> nat \<Rightarrow> KvfsMount \<Rightarrow> (reply \<times> KvfsMount) outcome" where
  "Inode_Read E sz off a m =
     (if \<not> fe_malloc E sz then Val (reply_err ENOMEM, m)
      else obind (Refresh a m) (\<lambda>(error, m).
           if error \<noteq> 0 then Val (reply_err error, m)
           else obind (on_file a (\<lambda>st. obind (file_read (fe_env E) (fe_tier E) off sz True st)
                         (\<lambda>(status, actual_len, buf, st). Val ((status, actual_len, buf), st))) m)
                  (\<lambda>((status, actual_len, buf), m).
                if length buf > unat sz then Undef
                else if StatusToErrno status \<noteq> 0 then Val (reply_err (StatusToErrno status), m)
                else if unat actual_len > length buf then Undef
                else let r = reply_buf (take (unat actual_len) buf)
                     in expect (fe_reply E r = 0) (Val (r, m)))))"

definition Inode_Write :: "fenv \<Rightarrow> string \<Rightarrow> u64 \<Rightarrow> int \<Rightarrow> nat \<Rightarrow> KvfsMount \<Rightarrow> (reply \<times> KvfsMount) outcome" where
  "Inode_Write E buf sz off a m =
     obind (Refresh a m) (\<lambda>(_, m).
     obind (on_file a (\<lambda>st. obind (file_write (fe_env E) off sz (Some buf) True st)
              (\<lambda>(status, actual_len, st). Val ((status, actual_len), st))) m) (\<lambda>((status, actual_len), m).
     if status = STATUS_OK
     then obind (upd_inode a (\<lambda>i. i\<lparr>i_attr := (i_attr i)\<lparr>
                   st_size := max (st_size (i_attr i)) (sint (word_of_int off + actual_len)),
                   st_mtime := now (fe_env E)\<rparr>\<rparr>) m) (\<lambda>m.
          obind (set_state DIRTY a m) (\<lambda>m.
          obind (get_inode a m) (\<lambda>i.
          obind (log_append (new_entry\<lparr>e_operation := Some OP_COMMIT, e_fs_id := Some (sint (km_fs_id m)),
                   e_inode_num := Some (sint (st_ino (i_attr i))), e_begin_offset := Some off,
                   e_end_offset := Some (sint (word_of_int off + actual_len))\<rparr>) m) (\<lambda>m.
          Val (reply_write actual_len, m)))))
     else Val (reply_err (StatusToErrno status), m)))"

definition Inode_Flush :: "nat \<Rightarrow> KvfsMount \<Rightarrow> (reply \<times> KvfsMount) outcome" where
  "Inode_Flush a m =
     obind (get_inode a m) (\<lambda>i.
     expect (i_state i \<noteq> INVALID)
       (obind (on_file a (\<lambda>st. Val (file_flush st)) m) (\<lambda>(status, m). Val (reply_err (StatusToErrno status), m))))"

section \<open>Listing a directory\<close>

record DirEntryAdder =
  ad_mount :: KvfsMount
  ad_buf :: string
  ad_size :: nat
  ad_out_of_space :: bool

text \<open>
  \<^verbatim>\<open>fuse_add_direntry\<close> returns the space an entry needs and stores it when there is that much
  room; the bytes stored so far are \<open>ad_buf\<close>, whose length is \<^verbatim>\<open>total_bytes_added\<close>.
\<close>

definition DirEntryAdder_Add :: "fenv \<Rightarrow> DirEntryAdder adder" where
  "DirEntryAdder_Add E name ino next_offset ad =
     obind (GetInode E ino True (ad_mount ad)) (\<lambda>(p, m).
     case p of
       None \<Rightarrow> Val (True, ad\<lparr>ad_mount := m\<rparr>)
     | Some a \<Rightarrow>
         obind (get_inode a m) (\<lambda>i.
         expect (st_ino (i_attr i) = ino)
           (expect (S_ISREG (st_mode (i_attr i)) \<or> S_ISDIR (st_mode (i_attr i)))
             (let ent = fe_direntry E name (i_attr i) next_offset; bytes_needed = length ent
              in obind (Release E 1 a m) (\<lambda>(_, m).
                 if bytes_needed > ad_size ad
                 then Val (False, ad\<lparr>ad_mount := m, ad_out_of_space := True\<rparr>)
                 else Val (True, ad\<lparr>ad_mount := m, ad_buf := ad_buf ad @ ent, ad_size := ad_size ad - bytes_needed\<rparr>))))))"

text \<open>Listing changes only the partitions of the directory object.\<close>

definition Readdir :: "fenv \<Rightarrow> u64 \<Rightarrow> int \<Rightarrow> nat \<Rightarrow> KvfsMount \<Rightarrow> (reply \<times> KvfsMount) outcome" where
  "Readdir E sz offset a m =
     (if \<not> fe_malloc E sz then Val (reply_err ENOMEM, m)
      else obind (get_inode a m) (\<lambda>i.
           obind (listDirectory (DirEntryAdder_Add E) ad_out_of_space (\<lambda>ad. s_kv (ad_mount ad)) offset (i_file i)
                    \<lparr>ad_mount = m, ad_buf = [], ad_size = unat sz, ad_out_of_space = False\<rparr>)
             (\<lambda>(status, this, ad).
               obind (upd_inode a (\<lambda>i. i\<lparr>i_file := (i_file i)\<lparr>f_partitions := f_partitions this\<rparr>\<rparr>) (ad_mount ad)) (\<lambda>m.
               if StatusToErrno status = 0 then Val (reply_buf (ad_buf ad), m)
               else Val (reply_err (StatusToErrno status), m)))))"

end
