(* ===== verification/FuseOps.thy ===== *)
theory FuseOps
  imports Mount
begin

text \<open>
  The FUSE operations (\<^verbatim>\<open>src/src/fuse_kvfs_ops.cc\<close>): each finds the inode it is about, in the table
  or through the file handle the kernel was given when it opened the file, calls the operation
  of the inode and releases what it held. \<open>fk_oper\<close> is the table of operations that
  \<^verbatim>\<open>fk_init_oper\<close> fills in; a request the table has no entry for is not a value of \<open>request\<close>.

  A file handle is the address stored in \<^verbatim>\<open>fi->fh\<close>, \<open>None\<close> being 0.
\<close>

section \<open>Operations\<close>

definition fk_fi_to_inode :: "nat option \<Rightarrow> u64 \<Rightarrow> KvfsMount \<Rightarrow> nat outcome" where
  "fk_fi_to_inode fh ino m =
     (case fh of
        None \<Rightarrow> Abort
      | Some a \<Rightarrow> obind (get_inode a m) (\<lambda>i. expect (st_ino (i_attr i) = ino) (Val a)))"

text \<open>An operation on the inode with a number: hold, call, release.\<close>

definition with_inode ::
  "fenv \<Rightarrow> u64 \<Rightarrow> (nat \<Rightarrow> KvfsMount \<Rightarrow> (reply \<times> KvfsMount) outcome) \<Rightarrow> KvfsMount \<Rightarrow> (reply \<times> KvfsMount) outcome" where
  "with_inode E ino call m =
     obind (get_or_create E ino m) (\<lambda>(a, m).
     obind (call a m) (\<lambda>(r, m).
     obind (Release E 1 a m) (\<lambda>(_, m). Val (r, m))))"

definition fk_getattr :: "fenv \<Rightarrow> u64 \<Rightarrow> KvfsMount \<Rightarrow> (reply \<times> KvfsMount) outcome" where
  "fk_getattr E ino = with_inode E ino Getattr"

definition fk_setattr :: "fenv \<Rightarrow> u64 \<Rightarrow> stat_buf \<Rightarrow> u32 \<Rightarrow> KvfsMount \<Rightarrow> (reply \<times> KvfsMount) outcome" where
  "fk_setattr E ino attr to_set = with_inode E ino (Setattr E attr to_set)"

definition fk_lookup :: "fenv \<Rightarrow> u64 \<Rightarrow> string \<Rightarrow> KvfsMount \<Rightarrow> (reply \<times> KvfsMount) outcome" where
  "fk_lookup E parent name = with_inode E parent (Lookup E name)"

definition fk_forget :: "fenv \<Rightarrow> u64 \<Rightarrow> u64 \<Rightarrow> KvfsMount \<Rightarrow> (reply \<times> KvfsMount) outcome" where
  "fk_forget E ino nlookup m =
     obind (get_or_create E ino m) (\<lambda>(a, m).
     let nlookup = (if nlookup > 1000 then 0 else nlookup)
     in obind (Release E (uint nlookup + 1) a m) (\<lambda>(n, m).
        if n = 0 then obind (FreeInode a m) (\<lambda>m. Val (reply_none, m)) else Val (reply_none, m)))"

definition fk_readlink :: "KvfsMount \<Rightarrow> (reply \<times> KvfsMount) outcome" where
  "fk_readlink m = Val (reply_err ENOTSUP, m)"

definition fk_opendir :: "fenv \<Rightarrow> u64 \<Rightarrow> KvfsMount \<Rightarrow> (reply \<times> KvfsMount) outcome" where
  "fk_opendir E ino m = obind (get_or_create E ino m) (\<lambda>(a, m). Val (reply_open a False False, m))"

definition fk_readdir :: "fenv \<Rightarrow> u64 \<Rightarrow> u64 \<Rightarrow> int \<Rightarrow> nat option \<Rightarrow> KvfsMount \<Rightarrow> (reply \<times> KvfsMount) outcome" where
  "fk_readdir E ino sz offset fh m = obind (fk_fi_to_inode fh ino m) (\<lambda>a. Readdir E sz offset a m)"

definition fk_releasedir :: "fenv \<Rightarrow> u64 \<Rightarrow> nat option \<Rightarrow> KvfsMount \<Rightarrow> (reply \<times> KvfsMount) outcome" where
  "fk_releasedir E ino fh m =
     obind (fk_fi_to_inode fh ino m) (\<lambda>a. obind (Release E 1 a m) (\<lambda>(_, m). Val (reply_err 0, m)))"

definition fk_open :: "fenv \<Rightarrow> u64 \<Rightarrow> KvfsMount \<Rightarrow> (reply \<times> KvfsMount) outcome" where
  "fk_open E ino m =
     obind (get_or_create E ino m) (\<lambda>(a, m). Val (reply_open a (km_fuse_keep_cache m) (km_fuse_direct_io m), m))"

definition fk_read :: "fenv \<Rightarrow> u64 \<Rightarrow> u64 \<Rightarrow> int \<Rightarrow> nat option \<Rightarrow> KvfsMount \<Rightarrow> (reply \<times> KvfsMount) outcome" where
  "fk_read E ino sz off fh m = obind (fk_fi_to_inode fh ino m) (\<lambda>a. Inode_Read E sz off a m)"

definition fk_write :: "fenv \<Rightarrow> u64 \<Rightarrow> string \<Rightarrow> u64 \<Rightarrow> int \<Rightarrow> nat option \<Rightarrow> KvfsMount \<Rightarrow> (reply \<times> KvfsMount) outcome" where
  "fk_write E ino buf sz off fh m = obind (fk_fi_to_inode fh ino m) (\<lambda>a. Inode_Write E buf sz off a m)"

definition fk_flush :: "u64 \<Rightarrow> nat option \<Rightarrow> KvfsMount \<Rightarrow> (reply \<times> KvfsMount) outcome" where
  "fk_flush ino fh m = obind (fk_fi_to_inode fh ino m) (\<lambda>a. Inode_Flush a m)"

definition fk_create :: "fenv \<Rightarrow> u64 \<Rightarrow> string \<Rightarrow> u32 \<Rightarrow> KvfsMount \<Rightarrow> (reply \<times> KvfsMount) outcome" where
  "fk_create E parent name mode = with_inode E parent (Create E name mode)"

definition fk_mkdir :: "fenv \<Rightarrow> u64 \<Rightarrow> string \<Rightarrow> u32 \<Rightarrow> KvfsMount \<Rightarrow> (reply \<times> KvfsMount) outcome" where
  "fk_mkdir E parent name mode = with_inode E parent (Mkdir E name mode)"

definition fk_rmdir :: "fenv \<Rightarrow> u64 \<Rightarrow> string \<Rightarrow> KvfsMount \<Rightarrow> (reply \<times> KvfsMount) outcome" where
  "fk_rmdir E parent name = with_inode E parent (Rmdir E name)"

definition fk_unlink :: "fenv \<Rightarrow> u64 \<Rightarrow> string \<Rightarrow> KvfsMount \<Rightarrow> (reply \<times> KvfsMount) outcome" where
  "fk_unlink E parent name = with_inode E parent (Unlink E name)"

definition fk_link :: "fenv \<Rightarrow> u64 \<Rightarrow> u64 \<Rightarrow> string \<Rightarrow> KvfsMount \<Rightarrow> (reply \<times> KvfsMount) outcome" where
  "fk_link E ino newparent newname = with_inode E newparent (Link E ino newname)"

definition fk_mknod :: "KvfsMount \<Rightarrow> (reply \<times> KvfsMount) outcome" where
  "fk_mknod m = Val (reply_err ENOTSUP, m)"

definition fk_release :: "fenv \<Rightarrow> u64 \<Rightarrow> nat option \<Rightarrow> KvfsMount \<Rightarrow> (reply \<times> KvfsMount) outcome" where
  "fk_release E ino fh m =
     obind (fk_fi_to_inode fh ino m) (\<lambda>a. obind (Release E 1 a m) (\<lambda>(_, m). Val (reply_err 0, m)))"

datatype request =
    Req_create u64 string u32 | Req_forget u64 u64 | Req_getattr u64 | Req_setattr u64 stat_buf u32
  | Req_lookup u64 string | Req_mkdir u64 string u32 | Req_rmdir u64 string | Req_unlink u64 string
  | Req_link u64 u64 string | Req_mknod u64 string u32 | Req_opendir u64 | Req_open u64
  | Req_read u64 u64 int "nat option" | Req_write u64 string u64 int "nat option" | Req_flush u64 "nat option"
  | Req_readdir u64 u64 int "nat option" | Req_readlink u64 | Req_releasedir u64 "nat option" | Req_release u64 "nat option"

primrec fk_oper :: "fenv \<Rightarrow> request \<Rightarrow> KvfsMount \<Rightarrow> (reply \<times> KvfsMount) outcome" where
  "fk_oper E (Req_create parent name mode) = fk_create E parent name mode"
| "fk_oper E (Req_forget ino nlookup) = fk_forget E ino nlookup"
| "fk_oper E (Req_getattr ino) = fk_getattr E ino"
| "fk_oper E (Req_setattr ino attr to_set) = fk_setattr E ino attr to_set"
| "fk_oper E (Req_lookup parent name) = fk_lookup E parent name"
| "fk_oper E (Req_mkdir parent name mode) = fk_mkdir E parent name mode"
| "fk_oper E (Req_rmdir parent name) = fk_rmdir E parent name"
| "fk_oper E (Req_unlink parent name) = fk_unlink E parent name"
| "fk_oper E (Req_link ino newparent newname) = fk_link E ino newparent newname"
| "fk_oper E (Req_mknod parent name mode) = fk_mknod"
| "fk_oper E (Req_opendir ino) = fk_opendir E ino"
| "fk_oper E (Req_open ino) = fk_open E ino"
| "fk_oper E (Req_read ino sz off fh) = fk_read E ino sz off fh"
| "fk_oper E (Req_write ino buf sz off fh) = fk_write E ino buf sz off fh"
| "fk_oper E (Req_flush ino fh) = fk_flush ino fh"
| "fk_oper E (Req_readdir ino sz offset fh) = fk_readdir E ino sz offset fh"
| "fk_oper E (Req_readlink ino) = fk_readlink"
| "fk_oper E (Req_releasedir ino fh) = fk_releasedir E ino fh"
| "fk_oper E (Req_release ino fh) = fk_release E ino fh"

end
