(* ===== verification/MountInv.thy ===== *)
theory MountInv
  imports FuseOps
begin

text \<open>
  The invariant of the mount: the table of inodes is consistent, reference counts are not
  negative and the change log is numbered in order. Every FUSE operation keeps it, whatever the
  store and the library answer.
\<close>

section \<open>File objects keep their identity\<close>

definition same_id :: "LogFSFile \<Rightarrow> LogFSFile \<Rightarrow> bool" where
  "same_id a b \<longleftrightarrow> f_handle b = f_handle a \<and> f_fsId b = f_fsId a"

definition keeps_id :: "(fstate \<Rightarrow> ('r \<times> fstate) outcome) \<Rightarrow> bool" where
  "keeps_id call \<longleftrightarrow> (\<forall>this kv. wpo (\<lambda>(_, t, _). same_id this t) (call (this, kv)))"

definition keeps_ids :: "('o hstate \<Rightarrow> ('r \<times> 'o hstate) outcome) \<Rightarrow> bool" where
  "keeps_ids call \<longleftrightarrow> (\<forall>objs kv. wpo (\<lambda>(_, objs', _). \<forall>x. same_id (objs x) (objs' x)) (call (objs, kv)))"

lemma same_id_refl [simp]: "same_id a a"
  by (simp add: same_id_def)

lemma same_id_trans: "same_id a b \<Longrightarrow> same_id b c \<Longrightarrow> same_id a c"
  by (simp add: same_id_def)

lemma same_id_upd [simp]:
  "same_id a (upd_meta g b) = same_id a b" "same_id a (b\<lparr>f_meta := mm\<rparr>) = same_id a b"
  "same_id a (b\<lparr>f_metaDirty := d\<rparr>) = same_id a b" "same_id a (b\<lparr>f_mode := md\<rparr>) = same_id a b"
  "same_id a (b\<lparr>f_partitions := ps\<rparr>) = same_id a b" "same_id a (b\<lparr>f_data_hold_count := c\<rparr>) = same_id a b"
  "same_id a (NLinkAdjust n b) = same_id a b" "same_id a (initMeta env b) = same_id a b"
  "same_id a (setName nm b) = same_id a b" "same_id a (ReleaseData b) = same_id a b"
  "same_id a (UpdateMTime t b) = same_id a b" "same_id a (UpdateCTime t b) = same_id a b"
  "same_id a (setProtectionFromMode b) = same_id a b"
  by (simp_all add: same_id_def upd_meta_def NLinkAdjust_def initMeta_def setName_def ReleaseData_def
      UpdateMTime_def UpdateCTime_def setProtectionFromMode_def setTypeFromMode_def Let_def)

lemma same_id_hold: "same_id (a\<lparr>f_data_hold_count := c\<rparr>) b = same_id a b"
  by (simp add: same_id_def)

lemma flush_id [simp]: "same_id a (fst (snd (file_flush (t, kv)))) = same_id a t"
  by (simp add: file_flush_def split: prod.splits bool.splits)

lemma writeToLog_id [simp]: "fst (snd (writeToLog (t, kv))) = t"
  by (simp add: writeToLog_def split: prod.splits bool.splits)

lemma keeps_idD:
  "keeps_id call \<Longrightarrow> (\<And>r t' kv'. same_id t t' \<Longrightarrow> Q (r, t', kv')) \<Longrightarrow> wpo Q (call (t, kv))"
  unfolding keeps_id_def wpo_iff by fastforce

lemma keeps_idI: "(\<And>this kv. wpo (\<lambda>(_, t, _). same_id this t) (call (this, kv))) \<Longrightarrow> keeps_id call"
  by (simp add: keeps_id_def)

lemma on_partition_id: "keeps_id (on_partition p call)"
  by (auto simp: keeps_id_def on_partition_def wpo_iff outcome_simps GetPartition_def set_partition_def Let_def
      split: if_splits)

lemma findHandle_id: "keeps_id (findHandle city n)"
  by (auto simp: findHandle_def intro!: keeps_idI keeps_idD [OF on_partition_id])

lemma insertEntry_id: "keeps_id (insertEntry city h n)"
  by (auto simp: insertEntry_def intro!: keeps_idI keeps_idD [OF on_partition_id])

lemma removeEntry_id: "keeps_id (removeEntry city h n)"
  by (auto simp: removeEntry_def intro!: keeps_idI keeps_idD [OF on_partition_id])

lemma file_open_id: "keeps_id file_open"
  by (auto simp: file_open_def intro!: keeps_idI split: prod.splits Status.splits)

lemma ResizeData_id: "keeps_id (ResizeData n o1 c i)"
  by (auto simp: ResizeData_def Let_def intro!: keeps_idI split: prod.splits)

lemma SetSize_id: "keeps_id (SetSize env n)"
  by (auto simp: SetSize_def Let_def case_prod_unfold same_id_trans
      intro!: keeps_idI keeps_idD [OF file_open_id] keeps_idD [OF ResizeData_id])

lemma file_close_id: "keeps_id (file_close env)"
  by (auto simp: file_close_def RemoveInodeFromKvs_def intro!: keeps_idI keeps_idD [OF SetSize_id])

lemma SetAttr_id: "keeps_id (SetAttr attr)"
  by (auto simp: SetAttr_def Let_def intro!: keeps_idI split: prod.splits Status.splits)

lemma file_stat_wp:
  "(\<And>s b' t'. same_id t t' \<Longrightarrow> st_ino b' = (if s = STATUS_OK then f_handle t else st_ino b) \<Longrightarrow> Q (s, b', t', kv)) \<Longrightarrow>
   wpo Q (file_stat b (t, kv))"
  by (auto simp: file_stat_def stat_of_meta_def split: prod.splits Status.splits)

lemma Evict_id: "keeps_id (Evict u)"
  by (auto simp: Evict_def Let_def case_prod_unfold same_id_trans
      intro!: keeps_idI file_stat_wp keeps_idD [OF ResizeData_id])

lemma wpo_all: "(\<And>v. P v) \<Longrightarrow> wpo P x"
  by (simp add: wpo_iff)

lemma file_write_id: "wpo (\<lambda>(_, _, t', _). same_id t t') (file_write env off len buf um (t, kv))"
  by (auto simp: file_write_def Let_def case_prod_unfold intro!: wpo_all split: option.splits)

lemma file_write_wp:
  "(\<And>s n t' kv'. same_id t t' \<Longrightarrow> Q (s, n, t', kv')) \<Longrightarrow> wpo Q (file_write env off len buf um (t, kv))"
  using file_write_id by (rule wpo_mono) auto

lemma unevict_loop_id: "wpo (\<lambda>(_, _, t', _). same_id t t') (unevict_loop env tf off t kv)"
proof (induction env tf off t kv rule: unevict_loop.induct)
  case (1 env tf off t kv)
  obtain n buf where rd: "TieredInFile_Read tf off 8192 = (n, buf)" by force
  have "wpo (\<lambda>(_, _, t', _). same_id t t')
      (if n = 0 then Val (STATUS_OK, off, t, kv)
       else obind (file_write env off n (Some buf) False (t, kv)) (\<lambda>(ws, k, t1, kv1).
         if ws \<noteq> STATUS_OK then Val (ws, off, t1, kv1)
         else expect (k = n) (unevict_loop env tf (off + uint n) t1 kv1)))"
  proof (cases "file_write env off n (Some buf) False (t, kv)")
    case (Val v)
    obtain ws k t1 kv1 where v: "v = (ws, k, t1, kv1)" by (cases v)
    have "same_id t t1" using file_write_wp [of t "\<lambda>(_, _, t', _). same_id t t'"] Val v by (force simp: wpo_iff)
    moreover have "wpo (\<lambda>(_, _, t', _). same_id t1 t') (unevict_loop env tf (off + uint n) t1 kv1)"
      if "n \<noteq> 0" "ws = STATUS_OK" "k = n"
      using "1.IH" [OF rd [symmetric] refl that(1)] Val v that by auto
    ultimately show ?thesis using Val v by (auto elim!: wpo_mono intro: same_id_trans)
  qed auto
  then show ?case by (subst unevict_loop.simps) (simp add: rd)
qed

lemma unevict_loop_wp:
  "(\<And>s o1 t' kv'. same_id t t' \<Longrightarrow> Q (s, o1, t', kv')) \<Longrightarrow> wpo Q (unevict_loop env tf off t kv)"
  using unevict_loop_id by (rule wpo_mono) auto

lemma HoldData_id: "wpo (\<lambda>(t', _). same_id t t') (HoldData env tier (t, kv))"
  by (auto simp: HoldData_def UnEvict_def Let_def case_prod_unfold same_id_hold
      intro!: unevict_loop_wp split: option.splits)

lemma file_read_id: "wpo (\<lambda>(_, _, _, t', _). same_id t t') (file_read env tier off len b (t, kv))"
  by (simp add: file_read_def Let_def case_prod_unfold,
      intro conjI impI wpo_mono [OF HoldData_id]; auto simp: case_prod_unfold intro!: wpo_all)

lemma file_read_wp:
  "(\<And>s n d t' kv'. same_id t t' \<Longrightarrow> Q (s, n, d, t', kv')) \<Longrightarrow> wpo Q (file_read env tier off len b (t, kv))"
  using file_read_id by (rule wpo_mono) auto

section \<open>Operations on two objects\<close>

definition same_ids :: "'o hstate \<Rightarrow> 'o hstate \<Rightarrow> bool" where
  "same_ids s t \<longleftrightarrow> (\<forall>x. same_id (fst s x) (fst t x))"

lemma same_ids_refl [simp]: "same_ids s s"
  by (simp add: same_ids_def)

lemma same_ids_trans: "same_ids s t \<Longrightarrow> same_ids t u \<Longrightarrow> same_ids s u"
  unfolding same_ids_def using same_id_trans by blast

lemma on_obj_wp:
  "keeps_id call \<Longrightarrow> (\<And>r s'. same_ids s s' \<Longrightarrow> Q (r, s')) \<Longrightarrow> wpo Q (on_obj o1 call s)"
  by (cases s) (auto simp: on_obj_def same_ids_def intro!: keeps_idD)

lemma upd_obj_ids [simp]:
  "(\<And>x. same_id x (g x)) \<Longrightarrow> same_ids s (upd_obj o1 g t) = same_ids s t"
  "(\<And>x. same_id x (g x)) \<Longrightarrow> same_ids (upd_obj o1 g s) t = same_ids s t"
  by (cases s; cases t; auto simp: same_ids_def upd_obj_def same_id_def)+

lemma log_obj_ids [simp]:
  "same_ids s (snd (log_obj o1 t)) = same_ids s t" "same_ids (snd (log_obj o1 s)) t = same_ids s t"
  by (cases s; cases t; auto simp: same_ids_def log_obj_def Let_def case_prod_unfold)+

lemma log_obj_wp: "(\<And>r s'. same_ids s s' \<Longrightarrow> Q (r, s')) \<Longrightarrow> same_ids s t \<Longrightarrow> Q (log_obj o1 t)"
  by (metis log_obj_ids(1) prod.collapse)

lemma connectDots_wp:
  assumes "\<And>r s'. same_ids s s' \<Longrightarrow> Q (r, s')"
  shows "wpo Q (connectDots city this dot dotdot s)"
  by (auto simp: connectDots_def Let_def intro!: on_obj_wp insertEntry_id assms) (blast intro: same_ids_trans)+

lemma file_create_wp:
  assumes "\<And>r s'. same_ids s s' \<Longrightarrow> Q (r, s')"
  shows "wpo Q (file_create env city this parent s)"
  by (auto simp: file_create_def Let_def case_prod_unfold
      intro!: on_obj_wp insertEntry_id connectDots_wp assms log_obj_wp [of s Q, OF assms] intro: same_ids_trans)

lemma file_remove_wp:
  assumes "\<And>r s'. same_ids s s' \<Longrightarrow> Q (r, s')"
  shows "wpo Q (file_remove city this parent name s)"
  by (auto simp: file_remove_def intro!: on_obj_wp removeEntry_id assms)

lemma file_link_wp:
  assumes "\<And>r s'. same_ids s s' \<Longrightarrow> Q (r, s')"
  shows "wpo Q (file_link env city this file name s)"
  by (auto simp: file_link_def Let_def case_prod_unfold intro!: on_obj_wp insertEntry_id assms)

section \<open>The invariant\<close>

text \<open>
  Every node is in the table under its own number, every number in the table leads to a node,
  and a node's file object is the file of that number. A number is fresh in the log when it was
  given out after every number in it.
\<close>

definition inode_ok :: "u64 \<Rightarrow> FuseKvfsInode \<Rightarrow> bool" where
  "inode_ok fs i \<longleftrightarrow> f_handle (i_file i) = st_ino (i_attr i) \<and> f_fsId (i_file i) = fs \<and> 0 \<le> i_nlookup i"

definition table_ok :: "KvfsMount \<Rightarrow> bool" where
  "table_ok m \<longleftrightarrow>
     (\<forall>ino a. km_inode_map m ino = Some a \<longrightarrow> (\<exists>i. km_inodes m a = Some i \<and> st_ino (i_attr i) = ino)) \<and>
     (\<forall>a i. km_inodes m a = Some i \<longrightarrow> a < km_next_addr m \<and> inode_ok (km_fs_id m) i \<and>
        km_inode_map m (st_ino (i_attr i)) = Some a)"

definition log_inv :: "KvfsMount \<Rightarrow> bool" where
  "log_inv m \<longleftrightarrow> (\<forall>l. s_change_log m = Some l \<longrightarrow> log_ordered l)"

definition fresh_xid :: "int \<Rightarrow> FsChangeLog option \<Rightarrow> bool" where
  "fresh_xid x log \<longleftrightarrow> (\<forall>l. log = Some l \<longrightarrow> x < l_next_xid l \<and> (\<forall>e \<in> set (l_log_deque l). entry_xid e < x))"

definition mount_inv :: "KvfsMount \<Rightarrow> bool" where
  "mount_inv m \<longleftrightarrow> table_ok m \<and> log_inv m"

lemma table_ok_put:
  "table_ok m \<Longrightarrow> km_inodes m a = Some i \<Longrightarrow> inode_ok (km_fs_id m) j \<Longrightarrow> st_ino (i_attr j) = st_ino (i_attr i) \<Longrightarrow>
   table_ok (put_inode a j m)"
  unfolding table_ok_def put_inode_def
  by (intro conjI allI impI) (auto split: if_splits, (metis option.inject)+)

lemma mount_inv_put:
  "mount_inv m \<Longrightarrow> km_inodes m a = Some i \<Longrightarrow> inode_ok (km_fs_id m) j \<Longrightarrow> st_ino (i_attr j) = st_ino (i_attr i) \<Longrightarrow>
   mount_inv (put_inode a j m)"
  using table_ok_put by (auto simp: mount_inv_def log_inv_def put_inode_def)

lemma mount_inv_kv [simp]:
  "mount_inv (m\<lparr>s_kv := kv\<rparr>) = mount_inv m"
  "mount_inv (m\<lparr>s_kv := kv, km_inodes := f\<rparr>) = mount_inv (m\<lparr>km_inodes := f\<rparr>)"
  by (simp_all add: mount_inv_def log_inv_def table_ok_def)

lemma mount_inv_inode: "mount_inv m \<Longrightarrow> km_inodes m a = Some i \<Longrightarrow> inode_ok (km_fs_id m) i"
  by (simp add: mount_inv_def table_ok_def)

lemma mount_inv_upd:
  assumes "mount_inv m" "km_inodes m a = Some i"
    and "inode_ok (km_fs_id m) i \<Longrightarrow> inode_ok (km_fs_id m) j \<and> st_ino (i_attr j) = st_ino (i_attr i)"
  shows "mount_inv (put_inode a j m)"
  using mount_inv_put [OF assms(1,2)] assms(3) mount_inv_inode [OF assms(1,2)] by blast

lemma put_inode_log [simp]: "s_change_log (put_inode a j m) = s_change_log m"
  by (simp add: put_inode_def)

lemma get_inode_wp [wp]: "(\<And>i. km_inodes m a = Some i \<Longrightarrow> Q i) \<Longrightarrow> wpo Q (get_inode a m)"
  by (simp add: get_inode_def)

lemma upd_inode_wp:
  assumes "mount_inv m" "\<And>m'. mount_inv m' \<Longrightarrow> s_change_log m' = s_change_log m \<Longrightarrow> Q m'"
    and "\<And>i. inode_ok (km_fs_id m) i \<Longrightarrow> inode_ok (km_fs_id m) (g i) \<and> st_ino (i_attr (g i)) = st_ino (i_attr i)"
  shows "wpo Q (upd_inode a g m)"
  using assms(1,3) mount_inv_inode [OF assms(1)]
  by (auto simp: upd_inode_def intro!: wp assms(2) intro: mount_inv_put)

lemma on_file_wp:
  assumes "mount_inv m" "keeps_id call" "\<And>r m'. mount_inv m' \<Longrightarrow> s_change_log m' = s_change_log m \<Longrightarrow> Q (r, m')"
  shows "wpo Q (on_file a call m)"
proof -
  have "mount_inv (put_inode a (i\<lparr>i_file := t\<rparr>) m)" if i: "km_inodes m a = Some i" and t: "same_id (i_file i) t" for i t
    using mount_inv_put [OF assms(1) i, of "i\<lparr>i_file := t\<rparr>"] mount_inv_inode [OF assms(1) i] t
    by (simp add: inode_ok_def same_id_def)
  then show ?thesis by (auto simp: on_file_def intro!: get_inode_wp keeps_idD [OF assms(2)] assms(3))
qed

lemma on_files_wp:
  assumes "mount_inv m" "\<And>Q. (\<And>r s'. same_ids (file_at m, s_kv m) s' \<Longrightarrow> Q (r, s')) \<Longrightarrow> wpo Q (call (file_at m, s_kv m))"
    and "\<And>r m'. mount_inv m' \<Longrightarrow> s_change_log m' = s_change_log m \<Longrightarrow> Q (r, m')"
  shows "wpo Q (on_files call m)"
proof -
  have "mount_inv (m\<lparr>km_inodes := \<lambda>a. map_option (\<lambda>i. i\<lparr>i_file := objs a\<rparr>) (km_inodes m a), s_kv := kv\<rparr>)"
    if "same_ids (file_at m, s_kv m) (objs, kv)" for objs kv
    using that assms(1)
    by (force simp: mount_inv_def log_inv_def table_ok_def same_ids_def file_at_def inode_ok_def same_id_def split: option.splits)
  then show ?thesis by (auto simp: on_files_def intro!: assms(2,3))
qed

lemmas file_ids = findHandle_id SetSize_id file_close_id SetAttr_id Evict_id

section \<open>The operations of the mount keep it\<close>

lemma Hold_wp:
  "mount_inv m \<Longrightarrow> 0 \<le> n \<Longrightarrow> (\<And>r m'. mount_inv m' \<Longrightarrow> s_change_log m' = s_change_log m \<Longrightarrow> Q (r, m')) \<Longrightarrow> wpo Q (Hold n a m)"
  using mount_inv_upd [of m a _ "_\<lparr>i_nlookup := _\<rparr>"]
  by (auto simp: Hold_def Let_def inode_ok_def intro!: get_inode_wp)

lemma Release_wp [wp]:
  assumes "mount_inv m" "\<And>r m'. mount_inv m' \<Longrightarrow> s_change_log m' = s_change_log m \<Longrightarrow> Q (r, m')"
  shows "wpo Q (Release E n a m)"
proof -
  have "mount_inv (put_inode a (i\<lparr>i_nlookup := k\<rparr>) m)" if i: "km_inodes m a = Some i" and "0 \<le> k" for i k
    using mount_inv_put [OF assms(1) i, of "i\<lparr>i_nlookup := k\<rparr>"] mount_inv_inode [OF assms(1) i] that
    by (simp add: inode_ok_def)
  then show ?thesis
    by (auto simp: Release_def Let_def intro!: get_inode_wp on_file_wp file_close_id assms(2))
qed

lemma new_node_ok:
  assumes "mount_inv m" "km_inode_map m ino = None"
  shows "mount_inv (m\<lparr>km_inodes := (km_inodes m)(km_next_addr m := Some (new_FuseKvfsInode E (km_fs_id m) ino)),
    km_inode_map := (km_inode_map m)(ino := Some (km_next_addr m)), km_next_addr := Suc (km_next_addr m)\<rparr>)"
proof -
  have "inode_ok (km_fs_id m) (new_FuseKvfsInode E (km_fs_id m) ino)"
    "st_ino (i_attr (new_FuseKvfsInode E (km_fs_id m) ino)) = ino"
    by (simp_all add: inode_ok_def new_FuseKvfsInode_def new_LogFSFile_def)
  then show ?thesis
    using assms unfolding mount_inv_def log_inv_def table_ok_def
    by (auto simp: less_Suc_eq)
qed

lemma GetInode_wp:
  assumes "mount_inv m" "\<And>p m'. mount_inv m' \<Longrightarrow> s_change_log m' = s_change_log m \<Longrightarrow> Q (p, m')"
  shows "wpo Q (GetInode E ino True m)"
  using assms new_node_ok [OF assms(1)]
  by (auto simp: GetInode_def Let_def intro!: Hold_wp split: option.splits)

lemma get_or_create_wp [wp]:
  assumes "mount_inv m" "\<And>a m'. mount_inv m' \<Longrightarrow> s_change_log m' = s_change_log m \<Longrightarrow> Q (a, m')"
  shows "wpo Q (get_or_create E ino m)"
  using assms by (auto simp: get_or_create_def intro!: GetInode_wp)

lemma FreeInode_wp:
  assumes "mount_inv m" "\<And>m'. mount_inv m' \<Longrightarrow> s_change_log m' = s_change_log m \<Longrightarrow> Q m'"
  shows "wpo Q (FreeInode a m)"
proof -
  have "mount_inv (m\<lparr>km_inodes := (km_inodes m)(b := None), km_inode_map := (km_inode_map m)(ino := None)\<rparr>)"
    if "km_inode_map m ino = Some b" for ino b
    using assms(1) that unfolding mount_inv_def log_inv_def table_ok_def by (auto; metis option.inject)
  then show ?thesis
    using assms by (auto simp: FreeInode_def intro!: get_inode_wp split: option.splits)
qed

lemma setters_wp [wp]:
  assumes "mount_inv m" "\<And>m'. mount_inv m' \<Longrightarrow> s_change_log m' = s_change_log m \<Longrightarrow> Q m'"
  shows "wpo Q (set_state st a m)" "wpo Q (set_name n a m)" "wpo Q (set_mode mode a m)" "wpo Q (set_file_xid x a m)"
  unfolding set_state_def set_name_def set_mode_def set_file_xid_def
  by (rule upd_inode_wp [OF assms]; simp add: inode_ok_def setName_def upd_meta_def)+

lemma set_path_info_wp [wp]:
  assumes "mount_inv m" "\<And>m'. mount_inv m' \<Longrightarrow> s_change_log m' = s_change_log m \<Longrightarrow> Q m'"
  shows "wpo Q (set_path_info par n a m)"
proof -
  have "mount_inv (put_inode a (i\<lparr>i_file := (i_file i)\<lparr>f_meta := meta\<rparr>\<rparr>) m)" if i: "km_inodes m a = Some i" for i meta
    using mount_inv_put [OF assms(1) i, of "i\<lparr>i_file := (i_file i)\<lparr>f_meta := meta\<rparr>\<rparr>"] mount_inv_inode [OF assms(1) i]
    by (simp add: inode_ok_def)
  then show ?thesis by (auto simp: set_path_info_def get_inode_def intro!: wpo_all assms(2))
qed

lemma Refresh_wp [wp]:
  assumes "mount_inv m" "\<And>r m'. mount_inv m' \<Longrightarrow> s_change_log m' = s_change_log m \<Longrightarrow> Q (r, m')"
  shows "wpo Q (Refresh a m)"
  using assms(1)
  by (auto simp: Refresh_def Let_def intro!: get_inode_wp file_stat_wp assms(2))
    (erule (1) mount_inv_upd, auto simp: inode_ok_def same_id_def)+

lemma log_next_xid_wp [wp]:
  assumes "mount_inv m" "\<And>x m'. mount_inv m' \<Longrightarrow> fresh_xid x (s_change_log m') \<Longrightarrow> Q (x, m')"
  shows "wpo Q (log_next_xid m)"
proof -
  have "mount_inv (m\<lparr>s_change_log := Some (snd (NextXid l))\<rparr>) \<and> fresh_xid (fst (NextXid l)) (Some (snd (NextXid l)))"
    if "s_change_log m = Some l" for l
    using assms(1) that log_ordered_NextXid [of l]
    by (auto simp: mount_inv_def table_ok_def log_inv_def NextXid_def log_ordered_def fresh_xid_def)
  then show ?thesis by (auto simp: log_next_xid_def intro!: assms(2) split: option.splits)
qed

lemma log_append_wp [wp]:
  assumes "mount_inv m" "\<And>x. e_xid e = Some x \<Longrightarrow> fresh_xid x (s_change_log m)" "\<And>m'. mount_inv m' \<Longrightarrow> Q m'"
  shows "wpo Q (log_append e m)"
proof -
  have "mount_inv (m\<lparr>s_change_log := Some (snd (Append e l))\<rparr>)" if l: "s_change_log m = Some l" for l
  proof -
    have ord: "log_ordered l" using assms(1) l by (simp add: mount_inv_def log_inv_def)
    have "log_ordered (snd (Append e l))"
    proof (cases "e_xid e")
      case None
      then show ?thesis by (rule log_ordered_Append_fresh [OF ord])
    next
      case (Some x)
      then show ?thesis
        using assms(2) l by (intro log_ordered_Append_next [OF ord Some]) (simp_all add: fresh_xid_def)
    qed
    then show ?thesis using assms(1) by (simp add: mount_inv_def table_ok_def log_inv_def)
  qed
  then show ?thesis by (auto simp: log_append_def intro!: assms(3) split: option.splits)
qed

lemma getNextHandleId_inv [simp]:
  "mount_inv (snd (getNextHandleId m)) = mount_inv m" "s_change_log (snd (getNextHandleId m)) = s_change_log m"
  by (simp_all add: getNextHandleId_def mount_inv_def table_ok_def log_inv_def)

lemma find_child_wp [wp]:
  "mount_inv m \<Longrightarrow> (\<And>r m'. mount_inv m' \<Longrightarrow> s_change_log m' = s_change_log m \<Longrightarrow> Q (r, m')) \<Longrightarrow> wpo Q (find_child E n a m)"
  unfolding find_child_def by (rule on_file_wp [OF _ findHandle_id])

abbreviation keeps_inv :: "(KvfsMount \<Rightarrow> ('r \<times> KvfsMount) outcome) \<Rightarrow> bool" where
  "keeps_inv call \<equiv> (\<forall>m. mount_inv m \<longrightarrow> wpo (\<lambda>(_, m'). mount_inv m') (call m))"

lemma Getattr_inv: "keeps_inv (Getattr a)"
  by (auto simp: Getattr_def intro!: wp)

lemma setattr_size_wp [wp]:
  assumes "mount_inv m" "\<And>r m'. mount_inv m' \<Longrightarrow> s_change_log m' = s_change_log m \<Longrightarrow> Q (r, m')"
  shows "wpo Q (setattr_size E xid n a m)"
  unfolding setattr_size_def
  by (auto intro!: wp assms(2) on_file_wp SetSize_id upd_inode_wp assms(1) simp: inode_ok_def)

lemma setattr_merge_ino [simp]: "st_ino (setattr_merge E ts sa na) = st_ino na"
  by (simp add: setattr_merge_def Let_def)

lemma setattr_attrs_wp [wp]:
  assumes inv: "mount_inv m" and ino: "\<And>i. km_inodes m a = Some i \<Longrightarrow> st_ino na = st_ino (i_attr i)"
    and Q: "\<And>m'. mount_inv m' \<Longrightarrow> s_change_log m' = s_change_log m \<Longrightarrow> Q m'"
  shows "wpo Q (setattr_attrs xid na a m)"
proof (cases "km_inodes m a")
  case None
  then show ?thesis by (simp add: setattr_attrs_def set_file_xid_def upd_inode_def get_inode_def)
next
  case i: (Some i)
  let ?t = "upd_meta (set_xid (word_of_int xid)) (i_file i)" and ?i = "\<lambda>t. i\<lparr>i_file := t, i_attr := na, i_state := CLEAN\<rparr>"
  have "mount_inv (put_inode a (?i t) m)" if "same_id ?t t" for t
    using mount_inv_upd [OF inv i, of "?i t"] that ino [OF i] by (auto simp: inode_ok_def same_id_def upd_meta_def)
  then have ok: "Q (m\<lparr>s_kv := kv, km_inodes := (km_inodes m)(a \<mapsto> ?i t)\<rparr>)" if "same_id ?t t" for t kv
    using that by (intro Q) (simp_all add: put_inode_def)
  show ?thesis
    by (simp add: setattr_attrs_def set_file_xid_def upd_inode_def get_inode_def i put_inode_def on_file_def set_state_def)
      (rule keeps_idD [OF SetAttr_id], simp add: ok)
qed

lemma Setattr_inv: "keeps_inv (Setattr E sa ts a)"
  unfolding Setattr_def Let_def
  by (auto simp: new_entry_def intro!: wp)

lemma Lookup_inv: "keeps_inv (Lookup E n a)"
  unfolding Lookup_def Let_def by (auto intro!: wp)

lemma new_child_wp [wp]:
  assumes "mount_inv m" "\<And>c h x e m'. mount_inv m' \<Longrightarrow> fresh_xid x (s_change_log m') \<Longrightarrow> Q (c, h, x, e, m')"
  shows "wpo Q (new_child E n mode a m)"
  unfolding new_child_def Let_def case_prod_unfold
  by (auto intro!: wp assms(2) on_files_wp file_create_wp assms(1))

lemma child_entry_xid [simp]: "e_xid (child_entry oper x n c par m) = x"
  by (simp add: child_entry_def)

lemma Create_inv: "keeps_inv (Create E n mode a)"
  unfolding Create_def by (auto intro!: wp)

lemma Mkdir_inv: "keeps_inv (Mkdir E n mode a)"
  unfolding Mkdir_def Let_def by (auto intro!: wp)

lemma Unlink_inv: "keeps_inv (Unlink E n a)"
  unfolding Unlink_def by (auto intro!: wp on_files_wp file_remove_wp)

lemma Link_inv: "keeps_inv (Link E ino n a)"
  unfolding Link_def Let_def by (auto intro!: wp on_files_wp file_link_wp)

lemma Inode_Flush_inv: "keeps_inv (Inode_Flush a)"
  unfolding Inode_Flush_def by (auto intro!: wp on_file_wp simp: keeps_id_def case_prod_unfold)

lemma Rmdir_inv: "keeps_inv (Rmdir E n a)"
  unfolding Rmdir_def by (auto intro!: wp on_files_wp file_remove_wp)

lemma read_call_id:
  "keeps_id (\<lambda>st. obind (file_read env tier off n b st) (\<lambda>(status, len, buf, st). Val ((status, len, buf), st)))"
  by (rule keeps_idI) (auto intro!: file_read_wp)

lemma write_call_id:
  "keeps_id (\<lambda>st. obind (file_write env off n buf um st) (\<lambda>(status, len, st). Val ((status, len), st)))"
  by (rule keeps_idI) (auto intro!: file_write_wp)

lemma Inode_Read_inv: "keeps_inv (Inode_Read E sz off a)"
  unfolding Inode_Read_def Let_def by (auto intro!: wp on_file_wp [OF _ read_call_id])

lemma Inode_Write_inv: "keeps_inv (Inode_Write E buf sz off a)"
  unfolding Inode_Write_def
  by (auto simp: new_entry_def inode_ok_def intro!: wp on_file_wp [OF _ write_call_id] upd_inode_wp)

section \<open>Listing keeps it\<close>

lemma list_loop_inv:
  assumes "\<And>n i o1 a. I a \<Longrightarrow> wpo (\<lambda>(_, a'). I a') (add n i o1 a)"
  shows "I a \<Longrightarrow> wpo I (list_loop add by_name es off a)"
proof (induction es arbitrary: off a)
  case Nil
  then show ?case by simp
next
  case (Cons e es)
  then show ?case by (auto intro!: wpo_mono [OF assms])
qed

lemma listEntries_inv:
  assumes "\<And>n i o1 a. I a \<Longrightarrow> wpo (\<lambda>(_, a'). I a') (add n i o1 a)" "I a"
  shows "wpo (\<lambda>(_, _, a'). I a') (listEntries add off base p kv a)"
proof (cases "dp_Refresh p kv")
  case (Val v)
  then show ?thesis
    using assms(2) by (cases v) (auto simp: listEntries_def Let_def intro!: wpo_mono [OF list_loop_inv [of I add, OF assms]])
qed (simp_all add: listEntries_def)

lemma list_partitions_inv:
  assumes add: "\<And>n i o1 a. I a \<Longrightarrow> wpo (\<lambda>(_, a'). I a') (add n i o1 a)"
  shows "I a \<Longrightarrow> wpo (\<lambda>(_, a'). I a') (list_partitions add oos kv_of n i off t a)"
proof (induction "n - i" arbitrary: i off t a)
  case 0
  then show ?case by (subst list_partitions.simps) simp
next
  case (Suc k)
  then have IH: "I a' \<Longrightarrow> wpo (\<lambda>(_, a'). I a') (list_partitions add oos kv_of n (Suc i) off' t' a')" for off' t' a'
    by simp
  show ?case
  proof (cases "GetPartition i t")
    case (Val v)
    then show ?thesis
      using Suc.prems by (subst list_partitions.simps) (cases v, auto simp: Let_def intro!: wpo_mono [OF listEntries_inv [OF add]] IH)
  qed (use Suc.prems in \<open>(subst list_partitions.simps, simp add: Let_def)+\<close>)
qed

lemma listDirectory_inv:
  assumes "\<And>n i o1 a. I a \<Longrightarrow> wpo (\<lambda>(_, a'). I a') (add n i o1 a)" "I a"
  shows "wpo (\<lambda>(_, _, a'). I a') (listDirectory add oos kv_of off t a)"
proof (cases "exists_in_log (t, kv_of a)")
  case (Val b)
  then show ?thesis
    using assms(2) by (auto simp: listDirectory_def intro!: wpo_mono [OF list_partitions_inv [of I add, OF assms]])
qed (simp_all add: listDirectory_def)

lemma Add_inv: "mount_inv (ad_mount ad) \<Longrightarrow> wpo (\<lambda>(_, ad'). mount_inv (ad_mount ad')) (DirEntryAdder_Add E n ino off ad)"
  unfolding DirEntryAdder_Add_def Let_def
  by (auto intro!: GetInode_wp wp split: option.splits)

lemma Readdir_inv: "keeps_inv (Readdir E sz off a)"
  unfolding Readdir_def
  by (auto simp: inode_ok_def intro!: get_inode_wp upd_inode_wp wpo_mono [OF listDirectory_inv [of "\<lambda>ad. mount_inv (ad_mount ad)", OF Add_inv]])

section \<open>Every request keeps it\<close>

lemma with_inode_inv:
  assumes "\<And>a. keeps_inv (call a)"
  shows "keeps_inv (with_inode E ino call)"
proof -
  have "wpo (\<lambda>v. wpo (\<lambda>(_, m'). mount_inv m') (case v of (r, m) \<Rightarrow> obind (Release E 1 a m) (\<lambda>(_, m). Val (r, m)))) (call a m)"
    if "mount_inv m" for a m
    using assms [of a, rule_format, OF that] by (rule wpo_mono) (auto intro!: Release_wp)
  then show ?thesis by (auto simp: with_inode_def intro!: get_or_create_wp)
qed

lemma fk_fi_to_inode_wp: "(\<And>a. Q a) \<Longrightarrow> wpo Q (fk_fi_to_inode fh ino m)"
  by (rule wpo_all)

lemma fk_forget_inv: "keeps_inv (fk_forget E ino n)"
  unfolding fk_forget_def Let_def by (auto intro!: wp FreeInode_wp)

lemma fk_open_inv: "keeps_inv (fk_open E ino)" "keeps_inv (fk_opendir E ino)"
  unfolding fk_open_def fk_opendir_def by (auto intro!: wp)

lemmas inode_invs = Getattr_inv Setattr_inv Lookup_inv Create_inv Mkdir_inv Rmdir_inv Unlink_inv Link_inv
  Readdir_inv Inode_Read_inv Inode_Write_inv Inode_Flush_inv fk_forget_inv fk_open_inv

lemmas fk_defs = fk_getattr_def fk_setattr_def fk_lookup_def fk_create_def fk_mkdir_def fk_rmdir_def fk_unlink_def
  fk_link_def fk_readdir_def fk_releasedir_def fk_read_def fk_write_def fk_flush_def fk_release_def

lemma oper_inv: "mount_inv m \<Longrightarrow> wpo (\<lambda>(_, m'). mount_inv m') (fk_oper E req m)"
  by (cases req) (auto simp: fk_defs inode_invs fk_readlink_def fk_mknod_def
      intro!: with_inode_inv [rule_format] fk_fi_to_inode_wp Release_wp)

end
