(* ===== verification/Superblock.thy ===== *)
theory Superblock
  imports Mount
begin

text \<open>
  Starting and stopping a mount (\<^verbatim>\<open>KvfsMount::Init\<close>, \<^verbatim>\<open>Shutdown\<close>, \<^verbatim>\<open>ReadSuperblock\<close> and
  \<^verbatim>\<open>WriteSuperblock\<close> of \<^verbatim>\<open>src/src/kvfs_mount.cc\<close>, and the cloud proxy of
  \<^verbatim>\<open>src/src/tiering/cloud_proxy.{h,cc}\<close> they call). The text format of protocol buffers is a
  library: printing and merging a superblock are arguments. So are opening the store, \<^verbatim>\<open>system\<close>,
  \<^verbatim>\<open>errno\<close> and the value of \<^verbatim>\<open>WEB_SERVER_PORT\<close>.
\<close>

section \<open>The cloud proxy\<close>

record CloudProxy =
  cp_local_dir :: string
  cp_s3_base_uri :: string

definition new_CloudProxy :: "string \<Rightarrow> string \<Rightarrow> CloudProxy" where
  "new_CloudProxy local_dir s3_base_uri = \<lparr>cp_local_dir = local_dir @ ''/'', cp_s3_base_uri = s3_base_uri @ ''/''\<rparr>"

definition LocalPath :: "string \<Rightarrow> CloudProxy \<Rightarrow> string" where
  "LocalPath sub_path cp = cp_local_dir cp @ sub_path"

definition CloudUri :: "string \<Rightarrow> CloudProxy \<Rightarrow> string" where
  "CloudUri sub_path cp = cp_s3_base_uri cp @ sub_path"

datatype SyncDirection = SYNC_OUT | SYNC_IN

text \<open>The command line; its effect is outside the program.\<close>

definition proxy_Init_cmd :: "CloudProxy \<Rightarrow> string" where
  "proxy_Init_cmd cp = ''mkdir --parents  --verbose '' @ [CHR 0x27] @ cp_local_dir cp @ [CHR 0x27]"

definition proxy_Sync_cmd :: "SyncDirection \<Rightarrow> CloudProxy \<Rightarrow> string" where
  "proxy_Sync_cmd direction cp =
     ''rclone -v sync '' @
     (case direction of
        SYNC_OUT \<Rightarrow> cp_local_dir cp @ '' '' @ cp_s3_base_uri cp
      | SYNC_IN \<Rightarrow> cp_s3_base_uri cp @ '' '' @ cp_local_dir cp)"

definition proxy_PinFile_cmd :: "string \<Rightarrow> CloudProxy \<Rightarrow> string" where
  "proxy_PinFile_cmd file_path cp = proxy_Sync_cmd SYNC_IN cp"

section \<open>The superblock\<close>

record super_codec =
  sc_print :: "Superblock \<Rightarrow> string option"
  sc_merge :: "string \<Rightarrow> Superblock \<Rightarrow> Superblock option"
  sc_errno :: int

definition no_super :: Superblock where
  "no_super = \<lparr>sb_magic = 0, sb_filesystem_name = [], sb_cloud_uri = [], sb_next_inode = 0, sb_next_xid = 0,
     sb_fs_id = 0, sb_dev = 0, sb_chunk_size = 0\<rparr>"

definition DEFAULT_FUSE_TIMEOUT :: int where
  "DEFAULT_FUSE_TIMEOUT = 20"

definition new_KvfsMount :: "fsys \<Rightarrow> u64 \<Rightarrow> KvfsMount" where
  "new_KvfsMount fm fs_id =
     \<lparr>s_kv = s_kv fm, s_handleId = s_handleId fm, s_change_log = s_change_log fm,
      km_fs_id = fs_id, km_super = no_super, km_inodes = (\<lambda>_. None), km_next_addr = 0, km_inode_map = (\<lambda>_. None),
      km_fuse_keep_cache = True, km_fuse_direct_io = False,
      km_fuse_attr_timeout = DEFAULT_FUSE_TIMEOUT, km_fuse_entry_timeout = DEFAULT_FUSE_TIMEOUT\<rparr>"

definition io_error :: "super_codec \<Rightarrow> int" where
  "io_error C = (if sc_errno C \<noteq> 0 then sc_errno C else EIO)"

definition WriteSuperblock :: "super_codec \<Rightarrow> KvfsMount \<Rightarrow> int \<times> KvfsMount" where
  "WriteSuperblock C m =
     (let m = m\<lparr>km_super := (km_super m)\<lparr>sb_next_inode := sint (GetCurrentInode m + 1000)\<rparr>\<rparr>
      in case sc_print C (km_super m) of
           None \<Rightarrow> (io_error C, m)
         | Some super_value \<Rightarrow>
             let (ok, kv) = kv_put (super_key (km_fs_id m)) super_value (s_kv m)
             in (if ok then 0 else EIO, m\<lparr>s_kv := kv\<rparr>))"

text \<open>A merge that fails leaves in the message what it read until then; here, what was there.\<close>

definition ReadSuperblock :: "super_codec \<Rightarrow> CloudProxy \<Rightarrow> KvfsMount \<Rightarrow> int \<times> KvfsMount" where
  "ReadSuperblock C cp m =
     (case kv_get (super_key (km_fs_id m)) (s_kv m) of
        None \<Rightarrow>
          (0, snd (WriteSuperblock C (m\<lparr>km_super := (km_super m)\<lparr>sb_magic := 17, sb_filesystem_name := ''PQFS_test'',
             sb_cloud_uri := CloudUri [] cp, sb_next_inode := sint ROOT_HANDLE + 1, sb_next_xid := 1,
             sb_fs_id := sint (km_fs_id m), sb_dev := 0, sb_chunk_size := 4096\<rparr>\<rparr>)))
      | Some super_value \<Rightarrow>
          (let (err, m) = (case sc_merge C super_value (km_super m) of
                             Some super \<Rightarrow> (0, m\<lparr>km_super := super\<rparr>)
                           | None \<Rightarrow> (io_error C, m))
           in (err, SetNextInode (word_of_int (sb_next_inode (km_super m))) m)))"

text \<open>\<open>store_opens\<close>: what \<^verbatim>\<open>store->open\<close> returns; \<open>port\<close>: the number in \<^verbatim>\<open>WEB_SERVER_PORT\<close>, if it is set.\<close>

definition Mount_Init ::
  "super_codec \<Rightarrow> CloudProxy \<Rightarrow> bool \<Rightarrow> int option \<Rightarrow> KvfsMount \<Rightarrow> (int \<times> KvfsMount) outcome" where
  "Mount_Init C cp store_opens port m =
     expect store_opens
       (let (err, m) = ReadSuperblock C cp m
        in expect (err = 0)
             (let change_log = (new_FsChangeLog (cp_local_dir cp) 0)\<lparr>l_next_xid := sb_next_xid (km_super m)\<rparr>;
                  (ok, m) = mountFileSystem (Some change_log) m
              in expect ok
                   (case port of
                      None \<Rightarrow> Abort
                    | Some port_num \<Rightarrow> expect (port_num > 1024) (Val (err, m)))))"

definition Mount_Shutdown ::
  "super_codec \<Rightarrow> (ChangeLogEntry \<Rightarrow> string) \<Rightarrow> KvfsMount \<Rightarrow> log_host \<Rightarrow> (KvfsMount \<times> log_host) outcome" where
  "Mount_Shutdown C serialize m h =
     (let (_, m) = WriteSuperblock C m
      in case s_change_log m of
           None \<Rightarrow> Undef
         | Some l \<Rightarrow> obind (FsChangeLog_Flush serialize l h) (\<lambda>h. Val (m, h)))"

text \<open>
  The lines that \<^verbatim>\<open>DumpInodeMap\<close> logs. \<open>order\<close> is the order in which the table is walked, that of an
  \<^verbatim>\<open>unordered_map\<close>; \<^verbatim>\<open>Hold(0)\<close> reads the count and changes nothing.
\<close>

definition DumpInode :: "nat \<Rightarrow> KvfsMount \<Rightarrow> string outcome" where
  "DumpInode a m =
     obind (get_inode a m) (\<lambda>i. obind (Hold 0 a m) (\<lambda>(n, _).
       Val (''ino '' @ show_lu (st_ino (i_attr i)) @ '' name '' @ f_nameString (i_file i) @
            '' xid '' @ show_int (sint (get_xid (f_meta (i_file i)))) @ '' nlookup '' @ show_int n)))"

primrec DumpInodes :: "nat list \<Rightarrow> KvfsMount \<Rightarrow> string list outcome" where
  "DumpInodes [] m = Val []"
| "DumpInodes (a # order) m = obind (DumpInode a m) (\<lambda>line. obind (DumpInodes order m) (\<lambda>lines. Val (line # lines)))"

definition DumpInodeMap :: "nat list \<Rightarrow> KvfsMount \<Rightarrow> string list outcome" where
  "DumpInodeMap order m =
     obind (DumpInodes order m) (\<lambda>lines. Val ((''DumpInodeMap: size '' @ show_nat (length order)) # lines))"

section \<open>Inode numbers across restarts\<close>

text \<open>The text format reads back the superblock it printed.\<close>

definition reads_back :: "super_codec \<Rightarrow> Superblock \<Rightarrow> bool" where
  "reads_back C sb \<longleftrightarrow> (\<exists>v. sc_print C sb = Some v \<and> (\<forall>old. sc_merge C v old = Some sb))"

text \<open>A new process on the same store.\<close>

definition restarted :: "KvfsMount \<Rightarrow> KvfsMount" where
  "restarted m = new_KvfsMount (new_FileSystemManager (s_kv m)) (km_fs_id m)"

lemma SetNextInode_simps [simp]:
  "s_handleId (SetNextInode h m) = h" "s_change_log (SetNextInode h m) = s_change_log m"
  "km_super (SetNextInode h m) = km_super m" "s_kv (SetNextInode h m) = s_kv m" "km_fs_id (SetNextInode h m) = km_fs_id m"
  "km_inodes (SetNextInode h m) = km_inodes m" "km_inode_map (SetNextInode h m) = km_inode_map m" for m :: KvfsMount
  by (simp_all add: SetNextInode_def Atomic_store_def)

lemma Init_with_superblock:
  assumes "reliable (s_kv fm)" "kv_data (s_kv fm) (super_key fs) = Some v" "sc_merge C v no_super = Some sb" "1024 < port"
  obtains m where "Mount_Init C cp True (Some port) (new_KvfsMount fm fs) = Val (0, m)"
    "s_handleId m = word_of_int (sb_next_inode sb)"
    "s_change_log m = Some ((new_FsChangeLog (cp_local_dir cp) 0)\<lparr>l_next_xid := sb_next_xid sb\<rparr>)"
    "s_kv m = s_kv fm" "km_fs_id m = fs" "km_inodes m = (\<lambda>_. None)" "km_inode_map m = (\<lambda>_. None)"
  using assms
  by (simp add: Mount_Init_def ReadSuperblock_def new_KvfsMount_def kv_simps mountFileSystem_def)

text \<open>
  C20. After a clean shutdown the next mount hands out inode numbers a thousand above every number
  handed out before, so none is used twice. The transaction numbers start again at the number
  the superblock was created with, because no mount ever advances it.
\<close>

theorem restart_after_shutdown:
  assumes "\<And>n. reads_back C ((km_super m)\<lparr>sb_next_inode := n\<rparr>)" "reliable (s_kv m)" "1024 < port"
  shows "\<exists>m' l. Mount_Init C cp True (Some port) (restarted (snd (WriteSuperblock C m))) = Val (0, m') \<and>
    s_handleId m' = s_handleId m + 1000 \<and>
    s_change_log m' = Some l \<and> l_log_deque l = [] \<and> l_next_xid l = sb_next_xid (km_super m)"
proof -
  let ?sb = "(km_super m)\<lparr>sb_next_inode := sint (GetCurrentInode m + 1000)\<rparr>"
  obtain v where v: "sc_print C ?sb = Some v" "sc_merge C v no_super = Some ?sb"
    using assms(1) [of "sint (GetCurrentInode m + 1000)"] by (auto simp: reads_back_def)
  let ?m = "snd (WriteSuperblock C m)"
  have "GetCurrentInode (m\<lparr>km_super := x\<rparr>) = GetCurrentInode m" for x
    by (simp add: GetCurrentInode_def)
  then have put: "reliable (s_kv ?m)" "kv_data (s_kv ?m) (super_key (km_fs_id m)) = Some v" "km_fs_id ?m = km_fs_id m"
    using assms(2) v(1) by (simp_all add: WriteSuperblock_def Let_def kv_simps)
  obtain m' where m': "Mount_Init C cp True (Some port) (restarted ?m) = Val (0, m')"
    "s_handleId m' = word_of_int (sb_next_inode ?sb)"
    "s_change_log m' = Some ((new_FsChangeLog (cp_local_dir cp) 0)\<lparr>l_next_xid := sb_next_xid ?sb\<rparr>)"
    using put v(2) assms(3) Init_with_superblock [of "new_FileSystemManager (s_kv ?m)" "km_fs_id m" v C ?sb port cp]
    by (auto simp: restarted_def new_FileSystemManager_def)
  then show ?thesis by (auto simp: GetCurrentInode_def Atomic_load_def new_FsChangeLog_def)
qed

text \<open>A codec that keeps the counter of inode numbers.\<close>

definition read_int :: "string \<Rightarrow> int" where
  "read_int s = (case s of c # cs \<Rightarrow> if c = CHR ''-'' then - int (read_nat cs) else int (read_nat s) | [] \<Rightarrow> 0)"

lemma show_nat_not_minus: "show_nat n = c # cs \<Longrightarrow> c \<noteq> CHR ''-''"
  using set_show_nat [of c n] by auto

lemma read_show_int: "read_int (show_int n) = n"
proof (cases "n < 0")
  case False
  obtain c cs where s: "show_nat (nat n) = c # cs"
    by (cases "show_nat (nat n)") (simp_all add: show_nat.simps [of "nat n"] split: if_splits)
  show ?thesis
    using False s show_nat_not_minus [OF s] read_show_nat [of "nat n"] by (simp add: read_int_def show_int_def)
qed (simp add: read_int_def show_int_def)

definition sample_codec :: super_codec where
  "sample_codec = \<lparr>sc_print = (\<lambda>sb. Some (show_int (sb_next_inode sb))),
     sc_merge = (\<lambda>v old. Some (no_super\<lparr>sb_next_inode := read_int v\<rparr>)), sc_errno = 0\<rparr>"

lemma sample_codec_reads_back: "reads_back sample_codec (no_super\<lparr>sb_next_inode := n\<rparr>)"
  by (simp add: reads_back_def sample_codec_def read_show_int)

theorem restart_after_shutdown_witness:
  "\<exists>m' l. Mount_Init sample_codec (new_CloudProxy ''/p'' ''s3'') True (Some 8080)
      (restarted (snd (WriteSuperblock sample_codec (new_KvfsMount (new_FileSystemManager empty_kvs) 0)))) = Val (0, m') \<and>
    s_handleId m' = 1001 \<and> s_change_log m' = Some l \<and> l_next_xid l = 0"
proof -
  let ?m = "new_KvfsMount (new_FileSystemManager empty_kvs) 0"
  have "km_super ?m = no_super" "s_kv ?m = empty_kvs" "s_handleId ?m = 1"
    by (simp_all add: new_KvfsMount_def new_FileSystemManager_def ROOT_HANDLE_def)
  moreover have "sb_next_xid no_super = 0" by (simp add: no_super_def)
  ultimately show ?thesis
    using restart_after_shutdown [of sample_codec ?m 8080 "new_CloudProxy ''/p'' ''s3''"] sample_codec_reads_back
    by auto
qed

end
