(* ===== verification/MountNames.thy ===== *)
theory MountNames
  imports MountInv Superblock
begin

text \<open>
  Names through the mount: creating a file and looking it up, and what looking a name up in a
  directory that is not in the table of inodes does to that directory.
\<close>

section \<open>Creating a file\<close>

lemma inode_steps [simp]:
  "km_inodes m a = Some i \<Longrightarrow> get_inode a m = Val i"
  "km_inodes m a = Some i \<Longrightarrow> upd_inode a g m = Val (put_inode a (g i) m)"
  "km_inodes (put_inode a i m) = (km_inodes m)(a := Some i)"
  "s_kv (put_inode a i m) = s_kv m" "km_inode_map (put_inode a i m) = km_inode_map m"
  "km_fs_id (put_inode a i m) = km_fs_id m" "s_handleId (put_inode a i m) = s_handleId m"
  "km_next_addr (put_inode a i m) = km_next_addr m"
  by (simp_all add: get_inode_def upd_inode_def put_inode_def)

text \<open>What the new inode's file object is when \<^verbatim>\<open>LogFSFile::create\<close> is called on it.\<close>

definition child_file :: "u64 \<Rightarrow> u64 \<Rightarrow> u64 \<Rightarrow> string \<Rightarrow> u32 \<Rightarrow> int \<Rightarrow> LogFSFile" where
  "child_file fs h parent name mode xid =
     upd_meta (set_xid (word_of_int xid))
       ((setName name (default_LogFSFile fs h))\<lparr>f_mode := mode,
          f_meta := (new_LogFSMetaData DEFAULT_FILE_INITIAL_SIZE DEFAULT_FILE_CHUNK_SIZE)\<lparr>m_parentHandle := parent,
             m_name := strncpy_into (NAME_MAX - 1) name (m_name (new_LogFSMetaData DEFAULT_FILE_INITIAL_SIZE DEFAULT_FILE_CHUNK_SIZE))\<rparr>\<rparr>)"

lemma child_file_simps [simp]:
  "f_handle (child_file fs h par n mode x) = h" "f_fsId (child_file fs h par n mode x) = fs"
  "f_nameString (child_file fs h par n mode x) = n" "f_mode (child_file fs h par n mode x) = mode"
  "m_type (f_meta (child_file fs h par n mode x)) = LOGFS_INVAL"
  by (simp_all add: child_file_def setName_def upd_meta_def new_LogFSFile_def set_xid_def new_LogFSMetaData_def)

lemma child_file_wf: "meta_wf (f_meta (child_file fs h par n mode x))"
  using addPathInfo_wf [of par n "new_LogFSMetaData DEFAULT_FILE_INITIAL_SIZE DEFAULT_FILE_CHUNK_SIZE"]
  by (simp add: child_file_def setName_def upd_meta_def set_xid_def meta_wf_def strncpy_into_def new_LogFSMetaData_def NAME_MAX_def)

lemma new_child_reduces:
  assumes "km_inodes m a = Some i" "a \<noteq> km_next_addr m" "s_change_log m = Some l"
    and "km_inode_map m (s_handleId m + 1) = None" "length name < NAME_MAX"
  obtains mB where
    "new_child E name mode a m = obind (on_files (file_create (fe_env E) (fe_city E) (km_next_addr m) a) mB)
       (\<lambda>(status, m'). Val (km_next_addr m, s_handleId m + 1, l_next_xid l, StatusToErrno status, m'))"
    "km_inodes mB (km_next_addr m) = Some \<lparr>i_attr = (fe_uninit E)\<lparr>st_ino := s_handleId m + 1, st_dev := 0, st_mode := mode\<rparr>,
       i_file = child_file (km_fs_id m) (s_handleId m + 1) (st_ino (i_attr i)) name mode (l_next_xid l), i_nlookup = 1, i_state = INVALID\<rparr>"
    "km_inodes mB a = Some (i\<lparr>i_file := upd_meta (set_xid (word_of_int (l_next_xid l))) (i_file i)\<rparr>)"
    "s_kv mB = s_kv m" "s_change_log mB = Some (snd (NextXid l))" "km_inode_map mB = (km_inode_map m)(s_handleId m + 1 := Some (km_next_addr m))"
    "km_fs_id mB = km_fs_id m"
  using assms that
  by (simp add: new_child_def log_next_xid_def NextXid_def getNextHandleId_def Atomic_inc_def Atomic_load_def
      get_or_create_def GetInode_def Hold_def set_name_def set_mode_def set_state_def set_path_info_def addPathInfo_def
      set_file_xid_def new_FuseKvfsInode_def child_file_def new_LogFSFile_def setName_def upd_meta_def)

lemma file_stat_stored:
  "inode_inv (t, kv) \<Longrightarrow> reliable kv \<Longrightarrow> file_stat b (t, kv) = Val (STATUS_OK, stat_of_meta (f_meta t), t, kv)"
  by (simp add: inode_inv_def file_stat_def readFromLog_def kv_simps codec_simps)

lemma find_child_ok:
  assumes "km_inodes m a = Some i" "dir_inv (i_file i, s_kv m)"
  obtains t where "find_child E name a m = Val (case dir_lookup (fe_city E) (i_file i, s_kv m) name of None \<Rightarrow> 0 | Some h \<Rightarrow> h,
      put_inode a (i\<lparr>i_file := t\<rparr>) m)"
    "dir_inv (t, s_kv m)" "dir_lookup (fe_city E) (t, s_kv m) = dir_lookup (fe_city E) (i_file i, s_kv m)" "same_file (i_file i) t"
proof -
  obtain t where t: "findHandle (fe_city E) name (i_file i, s_kv m) =
      Val (case dir_lookup (fe_city E) (i_file i, s_kv m) name of None \<Rightarrow> 0 | Some h \<Rightarrow> h, t, s_kv m)"
    "dir_inv (t, s_kv m)" "dir_lookup (fe_city E) (t, s_kv m) = dir_lookup (fe_city E) (i_file i, s_kv m)" "same_file (i_file i) t"
    using findHandle_spec [OF assms(2)] .
  have "(put_inode a (i\<lparr>i_file := t\<rparr>) m)\<lparr>s_kv := s_kv m\<rparr> = put_inode a (i\<lparr>i_file := t\<rparr>) m"
    by (simp add: put_inode_def)
  then show thesis using t assms(1) by (intro that) (simp_all add: find_child_def on_file_def)
qed

text \<open>The directory at an address, and a name that can be created in it.\<close>

definition dir_at :: "KvfsMount \<Rightarrow> nat \<Rightarrow> FuseKvfsInode \<Rightarrow> bool" where
  "dir_at m a i \<longleftrightarrow> km_inodes m a = Some i \<and> dir_inv (i_file i, s_kv m)"

definition creatable :: "fenv \<Rightarrow> string \<Rightarrow> u32 \<Rightarrow> FuseKvfsInode \<Rightarrow> KvfsMount \<Rightarrow> bool" where
  "creatable E name mode i m \<longleftrightarrow> name_ok name \<and> length name < NAME_MAX \<and> S_ISREG mode \<and>
     dir_lookup (fe_city E) (i_file i, s_kv m) name = None \<and>
     km_inode_map m (s_handleId m + 1) = None \<and> s_change_log m \<noteq> None"

lemma regular_type: "S_ISREG mode \<Longrightarrow> typeFromMode mode t \<noteq> LOGFS_IFDIR"
  by (auto simp: S_ISREG_def S_ISDIR_def typeFromMode_def ifmt_defs)

lemma on_files_two:
  assumes "call (file_at m, s_kv m) = Val (r, (file_at m)(c := fc, a := fa), kv)" "km_inodes m c = Some ic" "km_inodes m a = Some ia" "c \<noteq> a"
  obtains m' where "on_files call m = Val (r, m')" "km_inodes m' c = Some (ic\<lparr>i_file := fc\<rparr>)"
    "km_inodes m' a = Some (ia\<lparr>i_file := fa\<rparr>)" "s_kv m' = kv" "s_change_log m' = s_change_log m"
    "km_inode_map m' = km_inode_map m" "km_fs_id m' = km_fs_id m" "km_fuse_keep_cache m' = km_fuse_keep_cache m"
  using assms that by (simp add: on_files_def)

lemma new_child_ok:
  assumes "dir_at m a i" "creatable E name mode i m" "a \<noteq> km_next_addr m"
  obtains x m' ia ic where
    "new_child E name mode a m = Val (km_next_addr m, s_handleId m + 1, x, 0, m')"
    "dir_at m' a ia" "i_attr ia = i_attr i"
    "dir_lookup (fe_city E) (i_file ia, s_kv m') = (dir_lookup (fe_city E) (i_file i, s_kv m))(name := Some (s_handleId m + 1))"
    "km_inodes m' (km_next_addr m) = Some ic" "i_state ic = INVALID" "inode_inv (i_file ic, s_kv m')" "f_handle (i_file ic) = s_handleId m + 1"
    "km_inode_map m' (s_handleId m + 1) = Some (km_next_addr m)" "s_change_log m' \<noteq> None"
    "km_fs_id m' = km_fs_id m" "f_handle (i_file ia) = f_handle (i_file i)" "f_fsId (i_file ia) = f_fsId (i_file i)"
    "\<forall>fs. kv_data (s_kv m') (super_key fs) = kv_data (s_kv m) (super_key fs)"
proof -
  let ?c = "km_next_addr m" and ?h = "s_handleId m + 1"
  obtain l where l: "s_change_log m = Some l" using assms(2) by (auto simp: creatable_def)
  let ?fc = "child_file (km_fs_id m) ?h (st_ino (i_attr i)) name mode (l_next_xid l)"
  let ?fa = "upd_meta (set_xid (word_of_int (l_next_xid l))) (i_file i)"
  note h = assms(1,2) [unfolded dir_at_def creatable_def]
  obtain mB where mB: "new_child E name mode a m = obind (on_files (file_create (fe_env E) (fe_city E) ?c a) mB)
       (\<lambda>(status, m'). Val (?c, ?h, l_next_xid l, StatusToErrno status, m'))"
    "km_inodes mB ?c = Some \<lparr>i_attr = (fe_uninit E)\<lparr>st_ino := ?h, st_dev := 0, st_mode := mode\<rparr>,
       i_file = ?fc, i_nlookup = 1, i_state = INVALID\<rparr>"
    "km_inodes mB a = Some (i\<lparr>i_file := ?fa\<rparr>)" "s_kv mB = s_kv m" "s_change_log mB = Some (snd (NextXid l))"
    "km_inode_map mB = (km_inode_map m)(?h := Some ?c)" "km_fs_id mB = km_fs_id m"
    using new_child_reduces [of m a i l name E mode] h l assms(3) by blast
  have objs: "file_at mB ?c = ?fc" "file_at mB a = ?fa" using mB(2,3) by (simp_all add: file_at_def)
  have dir: "dir_inv (file_at mB a, s_kv mB)"
    "dir_lookup (fe_city E) (file_at mB a, s_kv mB) = dir_lookup (fe_city E) (i_file i, s_kv m)"
    using h same_dir_inv [OF same_dir_upd(1)] by (simp_all add: objs mB(4))
  obtain p1 kv' where f: "file_create (fe_env E) (fe_city E) ?c a (file_at mB, s_kv mB) =
      Val (STATUS_OK, (file_at mB)(?c := NLinkAdjust 1 (initMeta (fe_env E) ?fc), a := p1), kv')"
    "inode_inv (NLinkAdjust 1 (initMeta (fe_env E) ?fc), kv')" "dir_inv (p1, kv')"
    "dir_lookup (fe_city E) (p1, kv') = (dir_lookup (fe_city E) (i_file i, s_kv m))(name := Some ?h)"
    "f_handle p1 = f_handle (i_file i)" "f_fsId p1 = f_fsId (i_file i)"
    "\<forall>fs. kv_data kv' (super_key fs) = kv_data (s_kv m) (super_key fs)"
    by (rule create_file_new [of ?c a "file_at mB" "s_kv mB" "fe_city E" "fe_env E"])
      (use h assms(3) dir objs child_file_wf regular_type mB(4) in \<open>auto simp: same_file_def upd_meta_def\<close>)
  obtain m' where m': "on_files (file_create (fe_env E) (fe_city E) ?c a) mB = Val (STATUS_OK, m')"
    "km_inodes m' ?c = Some (\<lparr>i_attr = (fe_uninit E)\<lparr>st_ino := ?h, st_dev := 0, st_mode := mode\<rparr>,
       i_file = ?fc, i_nlookup = 1, i_state = INVALID\<rparr>\<lparr>i_file := NLinkAdjust 1 (initMeta (fe_env E) ?fc)\<rparr>)"
    "km_inodes m' a = Some (i\<lparr>i_file := ?fa\<rparr>\<lparr>i_file := p1\<rparr>)" "s_kv m' = kv'" "s_change_log m' = s_change_log mB"
    "km_inode_map m' = km_inode_map mB" "km_fs_id m' = km_fs_id mB"
    using on_files_two [of "file_create (fe_env E) (fe_city E) ?c a" mB STATUS_OK ?c
        "NLinkAdjust 1 (initMeta (fe_env E) ?fc)" a p1 kv', OF f(1) mB(2,3)] assms(3) by metis
  have "f_handle (NLinkAdjust 1 (initMeta (fe_env E) ?fc)) = ?h" by simp
  then show thesis
    using mB(1,5-7) m' f(2-7)
    by (intro that [of "l_next_xid l" m' "i\<lparr>i_file := p1\<rparr>"
          "\<lparr>i_attr = (fe_uninit E)\<lparr>st_ino := ?h, st_dev := 0, st_mode := mode\<rparr>,
            i_file = NLinkAdjust 1 (initMeta (fe_env E) ?fc), i_nlookup = 1, i_state = INVALID\<rparr>"])
      (simp_all add: dir_at_def)
qed

lemma log_append_ok:
  assumes "s_change_log m \<noteq> None"
  obtains l where "log_append e m = Val (m\<lparr>s_change_log := Some l\<rparr>)"
  using assms by (auto simp: log_append_def)

lemma Refresh_stored:
  assumes "km_inodes m c = Some i" "i_state i = INVALID" "inode_inv (i_file i, s_kv m)" "reliable (s_kv m)"
  shows "Refresh c m = Val (0, put_inode c (i\<lparr>i_attr := stat_of_meta (f_meta (i_file i)), i_state := CLEAN\<rparr>) m)"
  using assms by (simp add: Refresh_def file_stat_stored put_inode_def)

lemma Create_ok:
  assumes "mount_inv m" "dir_at m a i" "creatable E name mode i m"
  obtains attr ia ic m' where
    "Create E name mode a m = Val (reply_create (s_handleId m + 1) attr (km_next_addr m) (km_fuse_keep_cache m'), m')"
    "dir_at m' a ia" "dir_lookup (fe_city E) (i_file ia, s_kv m') name = Some (s_handleId m + 1)"
    "km_inode_map m' (s_handleId m + 1) = Some (km_next_addr m)" "km_inodes m' (km_next_addr m) = Some ic"
    "i_attr ic = attr" "i_state ic = CLEAN" "st_ino attr = s_handleId m + 1" "a \<noteq> km_next_addr m"
    "inode_inv (i_file ic, s_kv m')" "attr = stat_of_meta (f_meta (i_file ic))"
    "dir_lookup (fe_city E) (i_file ia, s_kv m') = (dir_lookup (fe_city E) (i_file i, s_kv m))(name := Some (s_handleId m + 1))"
    "km_fs_id m' = km_fs_id m" "f_handle (i_file ia) = f_handle (i_file i)" "f_fsId (i_file ia) = f_fsId (i_file i)"
    "\<forall>fs. kv_data (s_kv m') (super_key fs) = kv_data (s_kv m) (super_key fs)"
proof -
  let ?c = "km_next_addr m" and ?h = "s_handleId m + 1"
  have ac: "a \<noteq> ?c" using assms(1,2) by (auto simp: mount_inv_def table_ok_def dir_at_def)
  note d = assms(2) [unfolded dir_at_def] and n = assms(3) [unfolded creatable_def]
  obtain t where t: "find_child E name a m = Val (0, put_inode a (i\<lparr>i_file := t\<rparr>) m)"
    "dir_inv (t, s_kv m)" "dir_lookup (fe_city E) (t, s_kv m) = dir_lookup (fe_city E) (i_file i, s_kv m)"
    "f_handle t = f_handle (i_file i)" "f_fsId t = f_fsId (i_file i)"
    using find_child_ok [of m a i E name] d n by (auto simp: same_file_def)
  let ?m = "put_inode a (i\<lparr>i_file := t\<rparr>) m"
  have "dir_at ?m a (i\<lparr>i_file := t\<rparr>)" "creatable E name mode (i\<lparr>i_file := t\<rparr>) ?m" "a \<noteq> km_next_addr ?m"
    using t n ac by (simp_all add: dir_at_def creatable_def)
  then obtain x m1 ia ic where k: "new_child E name mode a ?m = Val (km_next_addr ?m, s_handleId ?m + 1, x, 0, m1)"
    "dir_at m1 a ia" "i_attr ia = i_attr (i\<lparr>i_file := t\<rparr>)"
    "dir_lookup (fe_city E) (i_file ia, s_kv m1) =
       (dir_lookup (fe_city E) (i_file (i\<lparr>i_file := t\<rparr>), s_kv ?m))(name := Some (s_handleId ?m + 1))"
    "km_inodes m1 (km_next_addr ?m) = Some ic" "i_state ic = INVALID" "inode_inv (i_file ic, s_kv m1)"
    "f_handle (i_file ic) = s_handleId ?m + 1"
    "km_inode_map m1 (s_handleId ?m + 1) = Some (km_next_addr ?m)" "s_change_log m1 \<noteq> None"
    "km_fs_id m1 = km_fs_id ?m" "f_handle (i_file ia) = f_handle (i_file (i\<lparr>i_file := t\<rparr>))"
    "f_fsId (i_file ia) = f_fsId (i_file (i\<lparr>i_file := t\<rparr>))"
    "\<forall>fs. kv_data (s_kv m1) (super_key fs) = kv_data (s_kv ?m) (super_key fs)"
    by (rule new_child_ok)
  obtain l where l: "log_append (child_entry OP_CREAT (Some x) (Some name) ?h (st_ino (i_attr ia)) m1) m1 = Val (m1\<lparr>s_change_log := Some l\<rparr>)"
    using log_append_ok [OF k(10)] .
  let ?m2 = "m1\<lparr>s_change_log := Some l\<rparr>" and ?ic = "ic\<lparr>i_attr := stat_of_meta (f_meta (i_file ic)), i_state := CLEAN\<rparr>"
  have "reliable (s_kv m1)" using k(2) dir_inv_reliable by (auto simp: dir_at_def)
  then have r: "Refresh ?c ?m2 = Val (0, put_inode ?c ?ic ?m2)"
    using k(5-7) by (intro Refresh_stored) simp_all
  have "Create E name mode a m = Val (reply_create ?h (i_attr ?ic) ?c (km_fuse_keep_cache ?m2), put_inode ?c ?ic ?m2)"
    using t(1) k(1,2) l r by (simp add: Create_def dir_at_def) (simp add: put_inode_def)
  moreover have "st_ino (i_attr ?ic) = ?h" using k(7,8) by (simp add: stat_of_meta_def inode_inv_def)
  ultimately show thesis
    using k ac t(3-5) by (intro that [of "i_attr ?ic" "put_inode ?c ?ic ?m2" ia ?ic]) (simp_all add: dir_at_def put_inode_def)
qed

text \<open>
  C7. A file created in a directory is found by name: \<^verbatim>\<open>Create\<close> of a name the directory does not
  have replies with the next inode number, and a following \<^verbatim>\<open>Lookup\<close> of the name replies with the
  same number and the same attributes, which are those of the metadata stored for the file under
  its number. It is so for a directory in the inode table, over a store whose calls succeed, for a
  name that can be stored (\<open>name_ok\<close>: no separator, no NUL) and is shorter than \<^verbatim>\<open>NAME_MAX\<close>, the mode of
  a regular file, a next number that is not 0 and not in the table, a mount with a change log, and
  replies that the kernel takes (\<open>creatable\<close> and the other hypotheses).
\<close>

theorem create_then_lookup:
  assumes "mount_inv m" "dir_at m a i" "creatable E name mode i m" "s_handleId m + 1 \<noteq> 0" "\<And>r. fe_reply E r = 0"
  shows "\<exists>attr c kc m' t1 t2 m''. Create E name mode a m = Val (reply_create (s_handleId m + 1) attr c kc, m') \<and>
    st_ino attr = s_handleId m + 1 \<and>
    (\<exists>meta. kv_data (s_kv m') (inode_key (s_handleId m + 1)) = Some (meta_encode meta) \<and> meta_wf meta \<and> attr = stat_of_meta meta) \<and>
    Lookup E name a m' = Val (reply_entry (s_handleId m + 1) attr t1 t2, m'')"
proof -
  let ?c = "km_next_addr m" and ?h = "s_handleId m + 1"
  obtain attr ia ic m' where c: "Create E name mode a m = Val (reply_create ?h attr ?c (km_fuse_keep_cache m'), m')"
    "dir_at m' a ia" "dir_lookup (fe_city E) (i_file ia, s_kv m') name = Some ?h"
    "km_inode_map m' ?h = Some ?c" "km_inodes m' ?c = Some ic"
    "i_attr ic = attr" "i_state ic = CLEAN" "st_ino attr = ?h" "a \<noteq> ?c"
    "inode_inv (i_file ic, s_kv m')" "attr = stat_of_meta (f_meta (i_file ic))"
    using Create_ok [OF assms(1-3)] by metis
  obtain t where t: "find_child E name a m' = Val (?h, put_inode a (ia\<lparr>i_file := t\<rparr>) m')"
    using find_child_ok [of m' a ia E name] c(2,3) by (auto simp: dir_at_def)
  have "\<exists>t1 t2 m''. Lookup E name a m' = Val (reply_entry ?h attr t1 t2, m'')"
    using t c(4-9) assms(4,5)
    by (simp add: Lookup_def get_or_create_def GetInode_def Hold_def Refresh_def set_state_def)
  moreover have "kv_data (s_kv m') (inode_key ?h) = Some (meta_encode (f_meta (i_file ic)))" "meta_wf (f_meta (i_file ic))"
    using c(8,10,11) by (auto simp: inode_inv_def stat_of_meta_def)
  ultimately show ?thesis using c(1,8,11) by blast
qed

definition sample_fenv :: fenv where
  "sample_fenv = \<lparr>fe_env = sample_env, fe_city = const_city, fe_tier = no_tier, fe_uninit = zero_stat,
     fe_malloc = (\<lambda>_. True), fe_direntry = (\<lambda>n _ _. n), fe_reply = (\<lambda>_. 0)\<rparr>"

lemma mount_inv_new: "(\<And>l. s_change_log fm = Some l \<Longrightarrow> log_ordered l) \<Longrightarrow> mount_inv (new_KvfsMount fm fs)"
  by (simp add: mount_inv_def table_ok_def log_inv_def new_KvfsMount_def)

lemma new_directory_opened:
  assumes "s_kv fm = empty_kvs"
  obtains m i where "fk_open E ino (new_KvfsMount fm fs) = Val (reply_open 0 True False, m)"
    "dir_at m 0 i" "dir_lookup (fe_city E) (i_file i, s_kv m) = (\<lambda>_. None)"
    "km_inode_map m = [ino \<mapsto> 0]" "s_handleId m = s_handleId fm" "s_change_log m = s_change_log fm"
proof -
  let ?i = "(new_FuseKvfsInode E fs ino)\<lparr>i_nlookup := 1\<rparr>" and ?m = "new_KvfsMount fm fs"
  let ?m' = "?m\<lparr>km_inodes := [0 \<mapsto> ?i], km_inode_map := [ino \<mapsto> 0], km_next_addr := 1\<rparr>"
  have new: "kv_data empty_kvs k = None" for k by (simp add: empty_kvs_def)
  have "fk_open E ino ?m = Val (reply_open 0 True False, ?m')"
    by (simp add: fk_open_def get_or_create_def GetInode_def Hold_def new_KvfsMount_def new_FuseKvfsInode_def put_inode_def)
  then show thesis
    using dir_inv_new [OF reliable_empty new] assms
    by (intro that [of ?m' ?i]) (simp_all add: dir_at_def new_KvfsMount_def new_FuseKvfsInode_def)
qed

theorem create_then_lookup_witness:
  "\<exists>m attr c kc m' t1 t2 m''.
    fk_open sample_fenv 1 (new_KvfsMount ((new_FileSystemManager empty_kvs)\<lparr>s_change_log := Some (new_FsChangeLog ''/p'' 1)\<rparr>) 0) =
      Val (reply_open 0 True False, m) \<and>
    Create sample_fenv ''notes'' 0x81A4 0 m = Val (reply_create 2 attr c kc, m') \<and>
    (\<exists>meta. kv_data (s_kv m') (inode_key 2) = Some (meta_encode meta) \<and> attr = stat_of_meta meta) \<and>
    Lookup sample_fenv ''notes'' 0 m' = Val (reply_entry 2 attr t1 t2, m'')"
proof -
  let ?fm = "(new_FileSystemManager empty_kvs)\<lparr>s_change_log := Some (new_FsChangeLog ''/p'' 1)\<rparr>"
  have fm: "s_kv ?fm = empty_kvs" "s_handleId ?fm = 1" "s_change_log ?fm = Some (new_FsChangeLog ''/p'' 1)"
    by (simp_all add: new_FileSystemManager_def ROOT_HANDLE_def)
  obtain m i where m: "fk_open sample_fenv 1 (new_KvfsMount ?fm 0) = Val (reply_open 0 True False, m)"
    "dir_at m 0 i" "dir_lookup (fe_city sample_fenv) (i_file i, s_kv m) = (\<lambda>_. None)"
    "km_inode_map m = [1 \<mapsto> 0]" "s_handleId m = s_handleId ?fm" "s_change_log m = s_change_log ?fm"
    using new_directory_opened [OF fm(1)] .
  have "mount_inv m"
    using fk_open_inv(1) [rule_format, OF mount_inv_new, of ?fm sample_fenv 1 0] m(1) fm(3) by simp
  moreover have "creatable sample_fenv ''notes'' 0x81A4 i m"
    using m(3-6) fm(2,3) by (simp add: creatable_def name_ok_def null_termination_def NAME_MAX_def S_ISREG_def ifmt_defs)
  moreover have "fe_reply sample_fenv r = 0" for r by (simp add: sample_fenv_def)
  ultimately show ?thesis
    using create_then_lookup [of m 0 i sample_fenv "''notes''" "0x81A4"] m(1,2,5) fm(2) by auto
qed

section \<open>Looking up in a directory that is not in the table\<close>

lemma close_unopened:
  assumes "m_nLink (f_meta t) = 0" "reliable kv" "kv_data kv (inode_key (f_handle t)) = Some (meta_encode meta)"
    and "meta_wf meta" "m_fsId meta = f_fsId t" "m_handle meta = f_handle t" "m_fileTotalSize meta = 0"
  obtains t' kv' where "file_close env (t, kv) = Val (STATUS_OK, t', kv')" "kv_data kv' (inode_key (f_handle t)) = None"
proof -
  let ?t = "t\<lparr>f_meta := meta\<rparr>"
  have "file_open (t, kv) = Val (True, ?t, kv)"
    using assms by (simp add: file_open_def readFromLog_def kv_simps codec_simps)
  then obtain t' kv' where "SetSize env 0 (t, kv) = Val (STATUS_OK, t', kv')" "f_handle t' = f_handle t" "reliable kv'"
    using assms by (simp add: SetSize_def ResizeData_def file_flush_def kv_simps upd_meta_def)
  then show thesis using assms(1) that by (simp add: file_close_def RemoveInodeFromKvs_def kv_simps)
qed

text \<open>
  C29. Looking a name up in a directory whose inode is not in the table of active inodes deletes the
  directory: the operation works on a new file object whose link count is 0 because it was never
  read from the store, and releasing it closes the file as if it had no links left. The kernel is
  told only that the name does not exist.
\<close>

theorem lookup_in_uncached_directory_deletes_it:
  assumes "km_inode_map m p = None" "reliable (s_kv m)" "\<And>r. fe_reply E r = 0"
    and "kv_data (s_kv m) (inode_key p) = Some (meta_encode meta)" "meta_wf meta" "m_fsId meta = km_fs_id m" "m_handle meta = p"
    and "m_fileTotalSize meta = 0"
    and "dir_inv (default_LogFSFile (km_fs_id m) p, s_kv m)" "dir_lookup (fe_city E) (default_LogFSFile (km_fs_id m) p, s_kv m) name = None"
  shows "\<exists>m'. fk_lookup E p name m = Val (reply_err ENOENT, m') \<and> kv_data (s_kv m') (inode_key p) = None"
proof -
  let ?c = "km_next_addr m" and ?i = "(new_FuseKvfsInode E (km_fs_id m) p)\<lparr>i_nlookup := 1\<rparr>"
  let ?m1 = "m\<lparr>km_inodes := (km_inodes m)(?c := Some ?i), km_inode_map := (km_inode_map m)(p := Some ?c), km_next_addr := Suc ?c\<rparr>"
  have get: "get_or_create E p m = Val (?c, ?m1)"
    using assms(1) by (simp add: get_or_create_def GetInode_def Hold_def new_FuseKvfsInode_def put_inode_def)
  have i: "km_inodes ?m1 ?c = Some ?i" "i_file ?i = default_LogFSFile (km_fs_id m) p" by (simp_all add: new_FuseKvfsInode_def)
  then obtain t where t: "find_child E name ?c ?m1 = Val (0, put_inode ?c (?i\<lparr>i_file := t\<rparr>) ?m1)"
    "same_file (default_LogFSFile (km_fs_id m) p) t"
    using find_child_ok [OF i(1), of E name] assms(9,10) by auto
  let ?m2 = "put_inode ?c (?i\<lparr>i_file := t\<rparr>) ?m1"
  have look: "Lookup E name ?c ?m1 = Val (reply_err ENOENT, ?m2)"
    using t(1) assms(3) by (simp add: Lookup_def ENOENT_def)
  have ft: "m_nLink (f_meta t) = 0" "f_handle t = p" "f_fsId t = km_fs_id m"
    using t(2) by (simp_all add: same_file_def new_LogFSFile_def new_LogFSMetaData_def)
  obtain t' kv' where cl: "file_close (fe_env E) (t, s_kv m) = Val (STATUS_OK, t', kv')" "kv_data kv' (inode_key p) = None"
    using close_unopened [of t "s_kv m" meta "fe_env E"] ft assms(2,4-8) by metis
  have "Release E 1 ?c ?m2 = Val (0, (put_inode ?c (?i\<lparr>i_file := t', i_nlookup := 0\<rparr>) ?m2)\<lparr>s_kv := kv'\<rparr>)"
    using cl(1) by (simp add: Release_def on_file_def put_inode_def new_FuseKvfsInode_def)
  then show ?thesis using get look cl(2) by (simp add: fk_lookup_def with_inode_def)
qed

definition stored_dir :: LogFSMetaData where
  "stored_dir = (new_LogFSMetaData 0 8192)\<lparr>m_handle := 1, m_type := LOGFS_IFDIR, m_nLink := 2\<rparr>"

definition stored_dir_kvs :: kvs where
  "stored_dir_kvs = empty_kvs\<lparr>kv_data := [inode_key 1 \<mapsto> meta_encode stored_dir]\<rparr>"

theorem lookup_in_uncached_directory_deletes_it_witness:
  "kv_data stored_dir_kvs (inode_key 1) \<noteq> None \<and>
   (\<exists>m'. fk_lookup sample_fenv 1 ''notes'' (new_KvfsMount (new_FileSystemManager stored_dir_kvs) 0) = Val (reply_err ENOENT, m') \<and>
     kv_data (s_kv m') (inode_key 1) = None)"
proof -
  let ?m = "new_KvfsMount (new_FileSystemManager stored_dir_kvs) 0"
  have m: "km_inode_map ?m 1 = None" "s_kv ?m = stored_dir_kvs" "km_fs_id ?m = 0"
    by (simp_all add: new_KvfsMount_def new_FileSystemManager_def)
  have kv: "reliable stored_dir_kvs" "kv_data stored_dir_kvs (inode_key 1) = Some (meta_encode stored_dir)"
    "kv_data stored_dir_kvs (partition_key 1 q) = None" for q
    by (simp_all add: stored_dir_kvs_def key_simps)
  have "meta_wf (new_LogFSMetaData 0 8192)" by simp
  then have "meta_wf stored_dir" "m_fsId stored_dir = 0" "m_handle stored_dir = 1" "m_fileTotalSize stored_dir = 0"
    by (simp_all add: stored_dir_def meta_wf_def new_LogFSMetaData_def)
  moreover have "fe_reply sample_fenv r = 0" for r by (simp add: sample_fenv_def)
  ultimately show ?thesis
    using lookup_in_uncached_directory_deletes_it [of ?m 1 sample_fenv stored_dir "''notes''"] m kv
      dir_inv_new [OF kv(1,3)] by simp
qed

end
