(* ===== verification/Listing.thy ===== *)
theory Listing
  imports MountNames
begin

text \<open>
  What a program sees of a directory: \<^verbatim>\<open>Readdir\<close> of \<^verbatim>\<open>src/src/kvfs_mount.cc\<close> with the adder of
  \<^verbatim>\<open>src/src/dir_entry_adder.cc\<close>, over \<^verbatim>\<open>listDirectory\<close> of \<^verbatim>\<open>src/src/KVFSFile.cc\<close> and \<^verbatim>\<open>listEntries\<close> of
  \<^verbatim>\<open>src/src/KVFSDirectoryPartition.cc\<close>.
\<close>

section \<open>The adder\<close>

text \<open>
  An inode that the adder can report: it is in the inode table, held, with the attributes of a regular
  file or a directory. The adder neither reads attributes nor keeps a hold.
\<close>

definition listable :: "KvfsMount \<Rightarrow> u64 \<Rightarrow> bool" where
  "listable m h \<longleftrightarrow> (\<exists>b j. km_inode_map m h = Some b \<and> km_inodes m b = Some j \<and> st_ino (i_attr j) = h \<and>
     0 < i_nlookup j \<and> (S_ISREG (st_mode (i_attr j)) \<or> S_ISDIR (st_mode (i_attr j))))"

definition cached_attr :: "KvfsMount \<Rightarrow> u64 \<Rightarrow> stat_buf" where
  "cached_attr m h = i_attr (the (km_inodes m (the (km_inode_map m h))))"

definition entry_bytes :: "fenv \<Rightarrow> KvfsMount \<Rightarrow> string \<times> u64 \<times> int \<Rightarrow> string" where
  "entry_bytes E m = (\<lambda>(n, h, off). fe_direntry E n (cached_attr m h) off)"

text \<open>The entries that fit into a buffer: all before the first that does not.\<close>

fun prefix_fit :: "nat \<Rightarrow> string list \<Rightarrow> string list" where
  "prefix_fit sz [] = []"
| "prefix_fit sz (x # xs) = (if length x > sz then [] else x # prefix_fit (sz - length x) xs)"

definition filled :: "fenv \<Rightarrow> (string \<times> u64 \<times> int) list \<Rightarrow> DirEntryAdder \<Rightarrow> DirEntryAdder" where
  "filled E out ad =
     (let bs = map (entry_bytes E (ad_mount ad)) out; fit = prefix_fit (ad_size ad) bs
      in ad\<lparr>ad_buf := ad_buf ad @ concat fit, ad_size := ad_size ad - length (concat fit), ad_out_of_space := (fit \<noteq> bs)\<rparr>)"

lemma prefix_fit_append:
  "prefix_fit sz (xs @ ys) =
   (if prefix_fit sz xs = xs then xs @ prefix_fit (sz - length (concat xs)) ys else prefix_fit sz xs)"
  by (induction sz xs rule: prefix_fit.induct) auto

lemma filled_append:
  "filled E (out @ out') ad = (if ad_out_of_space (filled E out ad) then filled E out ad else filled E out' (filled E out ad))"
proof -
  have len: "length (prefix_fit sz xs) \<le> length xs" for sz xs by (induction sz xs rule: prefix_fit.induct) auto
  have "prefix_fit sz xs = xs" if "prefix_fit sz xs = xs @ ys" for sz xs ys using len [of sz xs] that by simp
  then have "prefix_fit sz xs \<noteq> xs \<Longrightarrow> prefix_fit sz xs \<noteq> xs @ ys" for sz xs ys by blast
  then show ?thesis by (simp add: filled_def Let_def prefix_fit_append)
qed

lemma filled_simps [simp]: "ad_mount (filled E out ad) = ad_mount ad" "\<not> ad_out_of_space ad \<Longrightarrow> filled E [] ad = ad"
  by (simp_all add: filled_def Let_def)

lemma put_inode_same: "km_inodes m b = Some j \<Longrightarrow> put_inode b j m = m"
  by (simp add: put_inode_def fun_upd_idem)

lemma Add_listable:
  assumes "listable (ad_mount ad) h" "\<not> ad_out_of_space ad"
  shows "DirEntryAdder_Add E n h off ad = Val (\<not> ad_out_of_space (filled E [(n, h, off)] ad), filled E [(n, h, off)] ad)"
proof -
  let ?m = "ad_mount ad"
  obtain b j where j: "km_inode_map ?m h = Some b" "km_inodes ?m b = Some j" "st_ino (i_attr j) = h" "0 < i_nlookup j"
    "S_ISREG (st_mode (i_attr j)) \<or> S_ISDIR (st_mode (i_attr j))" using assms(1) by (auto simp: listable_def)
  let ?j = "j\<lparr>i_nlookup := i_nlookup j + 1\<rparr>"
  have hold: "GetInode E h True ?m = Val (Some b, put_inode b ?j ?m)" using j(1,2) by (simp add: GetInode_def Hold_def)
  have "put_inode b j (put_inode b ?j ?m) = ?m" using j(2) by (simp add: put_inode_def fun_upd_idem)
  then have rel: "Release E 1 b (put_inode b ?j ?m) = Val (i_nlookup j, ?m)"
    using j(4) by (simp add: Release_def put_inode_def)
  have attr: "cached_attr ?m h = i_attr j" using j(1,2) by (simp add: cached_attr_def)
  show ?thesis
    using hold rel j(3,5) assms(2)
    by (simp add: DirEntryAdder_Add_def filled_def entry_bytes_def attr Let_def)
qed

lemma list_loop_filled:
  "\<forall>(n, h, off) \<in> set (live_from t es off). listable (ad_mount ad) h \<Longrightarrow> \<not> ad_out_of_space ad \<Longrightarrow>
   list_loop (DirEntryAdder_Add E) t es off ad = Val (filled E (live_from t es off) ad)"
proof (induction es arbitrary: off ad)
  case (Cons e es)
  show ?case
  proof (cases "entry_live t e")
    case True
    let ?x = "(c_str (fst e), snd e, off)"
    have "live_from t (e # es) off = [?x] @ live_from t es (off + 1)" using True by simp
    then show ?thesis
      using Cons.IH [of "off + 1" "filled E [?x] ad"] Cons.prems True Add_listable [of ad "snd e" E "c_str (fst e)" off]
      by (auto simp only: filled_append) simp_all
  next
    case False
    with Cons show ?thesis by simp
  qed
qed simp

section \<open>A partition\<close>

lemma listEntries_filled:
  assumes "dp_inv t (p, kv)" "distinct (dp_entries p)"
  shows "\<exists>p' out. (\<forall>ad. (\<forall>e \<in> set t. listable (ad_mount ad) (snd e)) \<longrightarrow> \<not> ad_out_of_space ad \<longrightarrow>
      listEntries (DirEntryAdder_Add E) base base p kv ad = Val (0, p', filled E out ad)) \<and>
    mset (map (\<lambda>(n, h, _). (n, h)) out) = mset t"
proof -
  obtain p' where p': "dp_Refresh p kv = Val (0, p')" "dp_by_name p' = t" "dp_inv t (p', kv)"
    "dp_entries p' = (if dp_state p = dp_state_t.INVALID then t else dp_entries p)"
    using Refresh_entries [OF assms(1)] by blast
  let ?out = "live_from t (dp_entries p') (base + 1)"
  have "smap_ok t" "distinct t" using assms(1) smap_ok_distinct by (auto simp: dp_inv_def distinct_map)
  then have "distinct (dp_entries p')" "set t \<subseteq> set (dp_entries p')"
    using p'(4) assms by (auto simp: dp_inv_def)
  then have mset: "mset (map (\<lambda>(n, h, _). (n, h)) ?out) = mset t" using live_entries [OF p'(3,2)] by blast
  then have set: "set (map (\<lambda>(n, h, _). (n, h)) ?out) = set t" by (metis set_mset_mset)
  have "listEntries (DirEntryAdder_Add E) base base p kv ad = Val (0, p', filled E ?out ad)"
    if "\<forall>e \<in> set t. listable (ad_mount ad) (snd e)" "\<not> ad_out_of_space ad" for ad
  proof -
    have "\<forall>(n, h, off) \<in> set ?out. listable (ad_mount ad) h" using that(1) set by force
    from list_loop_filled [OF this that(2)] show ?thesis by (simp add: listEntries_def p'(1,2))
  qed
  then show ?thesis using mset by blast
qed

section \<open>A directory\<close>

text \<open>Every name is in the partition that its hash says.\<close>

definition dir_placed :: "(string \<Rightarrow> u64) \<Rightarrow> fstate \<Rightarrow> bool" where
  "dir_placed city = (\<lambda>(this, kv). \<forall>p < get_num_partitions this. \<forall>n.
     dp_lookup (dir_part p this, kv) n \<noteq> None \<longrightarrow> partition_of city n this = p)"

text \<open>No partition object has an entry in its vector twice; so it is with an object that was just made.\<close>

definition dir_entries_distinct :: "LogFSFile \<Rightarrow> bool" where
  "dir_entries_distinct this \<longleftrightarrow> (\<forall>p < get_num_partitions this. distinct (dp_entries (dir_part p this)))"

lemma GetPartition_part:
  "p < get_num_partitions this \<Longrightarrow> GetPartition p this = Val (dir_part p this, put_part p (dir_part p this) this)"
  "set_partition p part (put_part p x this) = put_part p part this"
  by (auto simp: GetPartition_def get_num_partitions_def dir_part_def put_part_def set_partition_def Let_def split: option.splits)

lemma placed_tables:
  assumes "dir_placed city (this, kv)" "get_num_partitions this = 2" "dp_inv t0 (dir_part 0 this, kv)" "dp_inv t1 (dir_part 1 this, kv)"
  shows "distinct (map fst (t0 @ t1))" "(n, h) \<in> set (t0 @ t1) \<longleftrightarrow> dir_lookup city (this, kv) n = Some h"
proof -
  have ok: "smap_ok t0" "smap_ok t1" using assms(3,4) by (simp_all add: dp_inv_def)
  have placed: "partition_of city n this = p" if "p < 2" "dp_lookup (dir_part p this, kv) n = Some h" for p n h
    using assms(1,2) that by (simp add: dir_placed_def)
  have p: "partition_of city n this = 0" if "(n, h) \<in> set t0" for n h
    using placed [of 0 n h] dp_lookup_inv [OF assms(3)] that ok(1) by (simp add: smap_find_mem)
  moreover have p1: "partition_of city n this = 1" if "(n, h) \<in> set t1" for n h
    using placed [of 1 n h] dp_lookup_inv [OF assms(4)] that ok(2) by (simp add: smap_find_mem)
  ultimately have "fst ` set t0 \<inter> fst ` set t1 = {}" by fastforce
  then show "distinct (map fst (t0 @ t1))" using ok smap_ok_distinct by auto
  have "partition_of city n this < 2" using partition_of_less [of this city n] assms(2) by simp
  then consider "partition_of city n this = 0" | "partition_of city n this = 1" by linarith
  then show "(n, h) \<in> set (t0 @ t1) \<longleftrightarrow> dir_lookup city (this, kv) n = Some h"
    using p [of n h] p1 [of n h] dp_lookup_inv [OF assms(3)] dp_lookup_inv [OF assms(4)] ok
    by cases (auto simp: dir_lookup_def smap_find_mem)
qed

lemma list_two_partitions:
  assumes "get_num_partitions this = 2" "\<not> oos ad"
    and "listEntries add 0 0 (dir_part 0 this) (kv_of ad) ad = Val (0, p0, ad0)"
    and "\<not> oos ad0 \<Longrightarrow> listEntries add MAX_ENTRIES_PER_PARTITION MAX_ENTRIES_PER_PARTITION (dir_part 1 this) (kv_of ad0) ad0 = Val (0, p1, ad1)"
  shows "\<exists>this'. list_partitions add oos kv_of 2 0 0 this ad = Val (this', if oos ad0 then ad0 else ad1)"
proof -
  let ?dir = "put_part 0 p0 this"
  have part: "dir_part 1 ?dir = dir_part 1 this" "GetPartition 0 this = Val (dir_part 0 this, put_part 0 (dir_part 0 this) this)"
    "GetPartition 1 ?dir = Val (dir_part 1 ?dir, put_part 1 (dir_part 1 ?dir) ?dir)"
    using assms(1) by (simp_all add: GetPartition_part)
  have zero: "list_partitions add oos kv_of 2 0 0 this ad = list_partitions add oos kv_of 2 1 0 ?dir ad0"
    by (subst list_partitions.simps) (simp add: assms(2,3) part(2) GetPartition_part(2))
  have last: "list_partitions add oos kv_of 2 2 c t a = Val (t, a)" for c t a by (subst list_partitions.simps) simp
  show ?thesis
  proof (cases "oos ad0")
    case True
    then show ?thesis unfolding zero by (subst list_partitions.simps) simp
  next
    case False
    then show ?thesis unfolding zero
      by (subst list_partitions.simps)
        (simp add: assms(4) [unfolded MAX_ENTRIES_PER_PARTITION_def One_nat_def] part [unfolded One_nat_def] last MAX_ENTRIES_PER_PARTITION_def
          numeral_2_eq_2 [symmetric])
  qed
qed

text \<open>The operations keep names where their hashes say, and a new directory has none.\<close>

lemma dir_placed_step:
  assumes "dir_inv (this, kv)" "dir_placed city (this, kv)" "p < get_num_partitions this" "dp_inv t' (part', kv')"
    and "\<And>k. k \<noteq> dp_key (dir_part p this) \<Longrightarrow> kv_data kv' k = kv_data kv k"
    and "\<And>n. smap_find t' n \<noteq> None \<Longrightarrow> partition_of city n this = p"
  shows "dir_placed city (put_part p part' this, kv')"
proof -
  have "partition_of city n this = q" if q: "q < get_num_partitions this" "dp_lookup (dir_part q (put_part p part' this), kv') n \<noteq> None" for q n
  proof (cases "q = p")
    case True
    then show ?thesis using q assms(3,6) dp_lookup_inv [OF assms(4)] by simp
  next
    case False
    obtain t where t: "dp_inv t (dir_part q this, kv)" using assms(1) q(1) by (auto simp: dir_inv_def)
    have "dp_inv t (dir_part q this, kv')"
      using dp_inv_frame [OF t] assms(5) dir_key_distinct [OF assms(1,3) q(1)] False dp_inv_reliable [OF assms(4)] by metis
    then show ?thesis using q False assms(2,3) dp_lookup_inv [OF t] dp_lookup_inv by (simp add: dir_placed_def)
  qed
  then show ?thesis by (simp add: dir_placed_def)
qed

lemma dir_placed_found:
  "dir_placed city (this, kv) \<Longrightarrow> p < get_num_partitions this \<Longrightarrow> dp_inv t (dir_part p this, kv) \<Longrightarrow>
   smap_find t n \<noteq> None \<Longrightarrow> partition_of city n this = p"
  using dp_lookup_inv [of t "(dir_part p this, kv)"] by (simp add: dir_placed_def)

lemma insertEntry_placed:
  assumes "dir_inv (this, kv)" "dir_placed city (this, kv)" "name_ok n" "insertEntry city h n (this, kv) = Val (e, st')"
  shows "dir_placed city st'"
proof -
  let ?p = "partition_of city n this"
  obtain t where t: "dp_inv t (dir_part ?p this, kv)" "?p < get_num_partitions this" using dir_tables [OF assms(1)] by metis
  note found = dir_placed_found [OF assms(2) t(2,1)]
  show ?thesis
  proof (cases "smap_find t n")
    case None
    with insertEntry_inv [OF t(1) assms(3), of h] obtain p' kv' where
      ins: "dp_insertEntry h n (dir_part ?p this, kv) = Val (0, p', kv')" "dp_inv (smap_insert n h t) (p', kv')"
      "\<forall>k. k \<noteq> dp_key (dir_part ?p this) \<longrightarrow> kv_data kv' k = kv_data kv k" by auto
    have "partition_of city x this = ?p" if "smap_find (smap_insert n h t) x \<noteq> None" for x
      using that found [of x] t(1) by (auto simp: dp_inv_def smap_find_insert split: if_splits)
    then have "dir_placed city (put_part ?p p' this, kv')" using ins by (intro dir_placed_step [OF assms(1,2) t(2) ins(2)]) auto
    then show ?thesis using assms(4) by (auto simp: insertEntry_def on_partition_eq [OF t(2)] ins(1))
  next
    case (Some g)
    with insertEntry_inv [OF t(1) assms(3), of h] obtain p' where
      ins: "dp_insertEntry h n (dir_part ?p this, kv) = Val (EEXIST, p', kv)" "dp_inv t (p', kv)" by auto
    have "dir_placed city (put_part ?p p' this, kv)" using found by (intro dir_placed_step [OF assms(1,2) t(2) ins(2)]) auto
    then show ?thesis using assms(4) by (auto simp: insertEntry_def on_partition_eq [OF t(2)] ins(1))
  qed
qed

lemma removeEntry_placed:
  assumes "dir_inv (this, kv)" "dir_placed city (this, kv)" "removeEntry city h n (this, kv) = Val (e, st')"
  shows "dir_placed city st'"
proof -
  let ?p = "partition_of city n this"
  obtain t where t: "dp_inv t (dir_part ?p this, kv)" "?p < get_num_partitions this" using dir_tables [OF assms(1)] by metis
  note found = dir_placed_found [OF assms(2) t(2,1)]
  have "\<exists>err p' kv' t'. dp_removeEntry h n (dir_part ?p this, kv) = Val (err, p', kv') \<and> dp_inv t' (p', kv') \<and>
      (\<forall>k. k \<noteq> dp_key (dir_part ?p this) \<longrightarrow> kv_data kv' k = kv_data kv k) \<and> (\<forall>x. smap_find t' x \<noteq> None \<longrightarrow> smap_find t x \<noteq> None)"
    using removeEntry_inv [OF t(1), of h n] by (cases "smap_find t n") (fastforce simp: smap_find_erase split: if_splits)+
  then obtain err p' kv' t' where rem: "dp_removeEntry h n (dir_part ?p this, kv) = Val (err, p', kv')" "dp_inv t' (p', kv')"
    "\<forall>k. k \<noteq> dp_key (dir_part ?p this) \<longrightarrow> kv_data kv' k = kv_data kv k" "\<forall>x. smap_find t' x \<noteq> None \<longrightarrow> smap_find t x \<noteq> None" by blast
  then have "dir_placed city (put_part ?p p' this, kv')" using found by (intro dir_placed_step [OF assms(1,2) t(2) rem(2)]) blast+
  then show ?thesis using assms(3) by (auto simp: removeEntry_def on_partition_eq [OF t(2)] rem(1))
qed

lemma dir_placed_new:
  assumes "reliable kv" "\<And>p. kv_data kv (partition_key h p) = None"
  shows "dir_placed city (new_LogFSFile fs n h mode i c, kv)" "dir_entries_distinct (new_LogFSFile fs n h mode i c)"
proof -
  have "dir_part p (new_LogFSFile fs n h mode i c) = new_LogFSDirectoryPartition (word_of_nat p) fs h" for p
    by (simp add: dir_part_def new_LogFSFile_def)
  moreover have "dp_lookup (new_LogFSDirectoryPartition (word_of_nat p) fs h, kv) x = None" for p x
    using dp_lookup_inv [OF dp_inv_new [OF assms]] by simp
  ultimately show "dir_placed city (new_LogFSFile fs n h mode i c, kv)" "dir_entries_distinct (new_LogFSFile fs n h mode i c)"
    by (simp_all add: dir_placed_def dir_entries_distinct_def new_LogFSDirectoryPartition_def)
qed

text \<open>
  C18. Listing a directory shows it as it is: there is one list of its entries, with every name that the
  directory finds and its inode number exactly once and no other name, such that reading the
  directory from the start replies, whatever the size of the buffer, with the entries of that list up
  to the first that does not fit, as the FUSE library writes them. It is so for a directory in the
  inode table that exists in the store, whose names are in the partitions of their hashes and whose
  partition objects have no entry twice in their vectors (an entry that was removed and entered again
  with its old number is listed twice), when every inode it names is held in the table as a regular
  file or a directory.
\<close>

theorem readdir_lists_directory:
  assumes "dir_at m a i" "exists_in_log (i_file i, s_kv m) = Val True" "dir_placed (fe_city E) (i_file i, s_kv m)"
    and "dir_entries_distinct (i_file i)" "\<forall>n h. dir_lookup (fe_city E) (i_file i, s_kv m) n = Some h \<longrightarrow> listable m h"
  shows "\<exists>out. distinct (map fst out) \<and>
    (\<forall>n h. (\<exists>off. (n, h, off) \<in> set out) \<longleftrightarrow> dir_lookup (fe_city E) (i_file i, s_kv m) n = Some h) \<and>
    (\<forall>sz. fe_malloc E sz \<longrightarrow>
       (\<exists>m'. Readdir E sz 0 a m = Val (reply_buf (concat (prefix_fit (unat sz) (map (entry_bytes E m) out))), m')))"
proof -
  let ?dir = "i_file i" and ?kv = "s_kv m"
  have i: "km_inodes m a = Some i" "dir_inv (?dir, ?kv)" using assms(1) by (simp_all add: dir_at_def)
  have two: "get_num_partitions ?dir = 2" using i(2) by (simp add: dir_inv_def DEFAULT_PARTITIONS_PER_DIRECTORY_def)
  have "\<exists>t. dp_inv t (dir_part p ?dir, ?kv)" if "p < 2" for p using i(2) two that by (simp add: dir_inv_def)
  then obtain t0 t1 where t: "dp_inv t0 (dir_part 0 ?dir, ?kv)" "dp_inv t1 (dir_part 1 ?dir, ?kv)"
    by (meson one_less_numeral_iff semiring_norm(76) zero_less_numeral)
  have d: "distinct (dp_entries (dir_part 0 ?dir))" "distinct (dp_entries (dir_part 1 ?dir))"
    using assms(4) two by (simp_all add: dir_entries_distinct_def)
  note tab = placed_tables [OF assms(3) two t]
  have can: "\<forall>e \<in> set t0. listable m (snd e)" "\<forall>e \<in> set t1. listable m (snd e)" using assms(5) tab(2) by force+
  obtain p0 out0 where l0: "\<forall>ad. (\<forall>e \<in> set t0. listable (ad_mount ad) (snd e)) \<longrightarrow> \<not> ad_out_of_space ad \<longrightarrow>
      listEntries (DirEntryAdder_Add E) 0 0 (dir_part 0 ?dir) ?kv ad = Val (0, p0, filled E out0 ad)"
    "mset (map (\<lambda>(n, h, _). (n, h)) out0) = mset t0"
    using listEntries_filled [OF t(1) d(1), of E 0] by blast
  obtain p1 out1 where l1: "\<forall>ad. (\<forall>e \<in> set t1. listable (ad_mount ad) (snd e)) \<longrightarrow> \<not> ad_out_of_space ad \<longrightarrow>
      listEntries (DirEntryAdder_Add E) MAX_ENTRIES_PER_PARTITION MAX_ENTRIES_PER_PARTITION (dir_part 1 ?dir) ?kv ad = Val (0, p1, filled E out1 ad)"
    "mset (map (\<lambda>(n, h, _). (n, h)) out1) = mset t1"
    using listEntries_filled [OF t(2) d(2), of E MAX_ENTRIES_PER_PARTITION] by blast
  let ?out = "out0 @ out1" and ?nh = "\<lambda>(n, h, _). (n, h)"
  have ms: "mset (map ?nh ?out) = mset (t0 @ t1)" using l0(2) l1(2) by simp
  have "mset (map fst (map ?nh ?out)) = mset (map fst (t0 @ t1))" unfolding mset_map [of fst] ms ..
  then have "distinct (map fst (map ?nh ?out))" using tab(1) mset_eq_imp_distinct_iff by blast
  then have dist: "distinct (map fst ?out)" by (simp add: case_prod_unfold comp_def)
  have "set (map ?nh ?out) = set (t0 @ t1)" by (rule mset_eq_setD [OF ms])
  moreover have "(\<exists>off. (n, h, off) \<in> set ?out) \<longleftrightarrow> (n, h) \<in> set (map ?nh ?out)" for n h by force
  ultimately have members: "(\<exists>off. (n, h, off) \<in> set ?out) \<longleftrightarrow> dir_lookup (fe_city E) (?dir, ?kv) n = Some h" for n h
    using tab(2) by blast
  have "\<exists>m'. Readdir E sz 0 a m = Val (reply_buf (concat (prefix_fit (unat sz) (map (entry_bytes E m) ?out))), m')"
    if "fe_malloc E sz" for sz
  proof -
    let ?ad = "\<lparr>ad_mount = m, ad_buf = [], ad_size = unat sz, ad_out_of_space = False\<rparr>"
    obtain this' where "list_partitions (DirEntryAdder_Add E) ad_out_of_space (\<lambda>ad. s_kv (ad_mount ad)) 2 0 0 ?dir ?ad =
        Val (this', filled E ?out ?ad)"
      using list_two_partitions [OF two, of ad_out_of_space ?ad "DirEntryAdder_Add E" "\<lambda>ad. s_kv (ad_mount ad)" p0 "filled E out0 ?ad"
          p1 "filled E out1 (filled E out0 ?ad)"] l0(1) [rule_format, of ?ad] l1(1) [rule_format, of "filled E out0 ?ad"] can
      by (auto simp: filled_append)
    then have "listDirectory (DirEntryAdder_Add E) ad_out_of_space (\<lambda>ad. s_kv (ad_mount ad)) 0 ?dir ?ad =
        Val (STATUS_OK, this', filled E ?out ?ad)"
      using assms(2) two by (simp add: listDirectory_def cquot_def)
    then show ?thesis using i(1) that by (simp add: Readdir_def filled_def Let_def)
  qed
  then show ?thesis using dist members by (intro exI [of _ ?out]) blast
qed

section \<open>A directory with a file\<close>

text \<open>Directory 2 of file system 7 with its dot and one file, both held in the inode table.\<close>

definition listed_meta :: LogFSMetaData where
  "listed_meta = (new_LogFSMetaData 0 8192)\<lparr>m_fsId := 7, m_handle := 2\<rparr>"

definition listed_store :: kvs where
  "listed_store = sample_store\<lparr>kv_data := (kv_data sample_store)(inode_key 2 \<mapsto> meta_encode listed_meta)\<rparr>"

definition held_inode :: "u64 \<Rightarrow> u32 \<Rightarrow> FuseKvfsInode" where
  "held_inode h mode = \<lparr>i_attr = zero_stat\<lparr>st_ino := h, st_mode := mode\<rparr>, i_file = default_LogFSFile 7 h, i_nlookup = 1, i_state = CLEAN\<rparr>"

definition listed_mount :: KvfsMount where
  "listed_mount = (new_KvfsMount (new_FileSystemManager listed_store) 7)\<lparr>km_inode_map := [2 \<mapsto> 0, 5 \<mapsto> 1],
     km_inodes := [0 \<mapsto> held_inode 2 S_IFDIR, 1 \<mapsto> held_inode 5 S_IFREG], km_next_addr := 2\<rparr>"

lemma listed_tables:
  "dp_inv [] (dir_part 0 (default_LogFSFile 7 2), listed_store)"
  "dp_inv [(''.'', 2), (''a'', 5)] (dir_part 1 (default_LogFSFile 7 2), listed_store)"
proof -
  have part: "dir_part p (default_LogFSFile 7 2) = new_LogFSDirectoryPartition (word_of_nat p) 7 2" for p
    by (simp add: dir_part_def new_LogFSFile_def)
  have key: "dp_key sample_partition = partition_key 2 1"
    by (simp add: sample_partition_def new_LogFSDirectoryPartition_def dp_key_def)
  have rel: "reliable listed_store" by (simp add: listed_store_def sample_store_def)
  have "(0 :: u16) \<noteq> 1" by simp
  then have "kv_data listed_store (partition_key 2 0) = None"
    by (simp add: listed_store_def sample_store_def key key_simps partition_key_inject)
  from dp_inv_new [OF rel this, of 7] show "dp_inv [] (dir_part 0 (default_LogFSFile 7 2), listed_store)" by (simp add: part)
  have "dp_inv [(''.'', 2), (''a'', 5)] (new_LogFSDirectoryPartition 1 7 2, sample_store)"
    using dp_inv_reopen [OF sample_inv] by (simp add: sample_partition_def new_LogFSDirectoryPartition_def)
  then have "dp_inv [(''.'', 2), (''a'', 5)] (new_LogFSDirectoryPartition 1 7 2, listed_store)"
    by (rule dp_inv_frame) (simp_all add: rel, simp add: listed_store_def new_LogFSDirectoryPartition_def dp_key_def key_simps)
  then show "dp_inv [(''.'', 2), (''a'', 5)] (dir_part 1 (default_LogFSFile 7 2), listed_store)" by (simp add: part)
qed

lemma listed_directory:
  "dir_inv (default_LogFSFile 7 2, listed_store)" "dir_placed const_city (default_LogFSFile 7 2, listed_store)"
  "dir_entries_distinct (default_LogFSFile 7 2)" "exists_in_log (default_LogFSFile 7 2, listed_store) = Val True"
  "dir_lookup const_city (default_LogFSFile 7 2, listed_store) = [''.'' \<mapsto> 2, ''a'' \<mapsto> 5]"
proof -
  let ?f = "default_LogFSFile 7 2"
  have num: "get_num_partitions ?f = 2" by (simp add: get_num_partitions_def new_LogFSFile_def DEFAULT_PARTITIONS_PER_DIRECTORY_def)
  have part: "dir_part p ?f = new_LogFSDirectoryPartition (word_of_nat p) 7 2" for p by (simp add: dir_part_def new_LogFSFile_def)
  have look: "dp_lookup (dir_part 0 ?f, listed_store) = smap_find []"
    "dp_lookup (dir_part 1 ?f, listed_store) = smap_find [(''.'', 2), (''a'', 5)]"
    using listed_tables by (simp_all only: dp_lookup_inv)
  have two: "(\<forall>p < (2 :: nat). P p) \<longleftrightarrow> P 0 \<and> P 1" for P by (auto simp: less_2_cases_iff)
  have handle: "f_handle ?f = 2" "f_fsId ?f = 7" by (simp_all add: new_LogFSFile_def)
  show "dir_inv (?f, listed_store)"
    using listed_tables by (simp add: dir_inv_def num two DEFAULT_PARTITIONS_PER_DIRECTORY_def handle)
      (auto simp: part dp_id_def new_LogFSDirectoryPartition_def)
  show "dir_placed const_city (?f, listed_store)"
    using look by (auto simp: dir_placed_def num two partition_of_def const_city_def smap_find_def)
  show "dir_entries_distinct ?f" by (simp add: dir_entries_distinct_def part new_LogFSDirectoryPartition_def)
  have at: "partition_of const_city n ?f = 1" if "n = ''.'' \<or> n = ''a''" for n
    using that by (auto simp: partition_of_def num const_city_def)
  have "dir_lookup const_city (?f, listed_store) n = [''.'' \<mapsto> 2, ''a'' \<mapsto> 5] n" for n
  proof (cases "n = ''.'' \<or> n = ''a''")
    case True
    then show ?thesis using at [OF True] look(2) by (auto simp: dir_lookup_def smap_find_def)
  next
    case False
    have "partition_of const_city n ?f < 2" using partition_of_less [of ?f const_city n] num by simp
    then consider "partition_of const_city n ?f = 0" | "partition_of const_city n ?f = 1" by linarith
    then show ?thesis using False look by cases (auto simp: dir_lookup_def smap_find_def)
  qed
  then show "dir_lookup const_city (?f, listed_store) = [''.'' \<mapsto> 2, ''a'' \<mapsto> 5]" by blast
  have "reliable listed_store" "kv_data listed_store (inode_key 2) = Some (meta_encode listed_meta)"
    by (simp_all add: listed_store_def sample_store_def)
  then show "exists_in_log (?f, listed_store) = Val True"
    using meta_wf_new by (simp add: exists_in_log_def readFromLog_def kv_simps handle listed_meta_def meta_decode_encode meta_wf_def)
qed

lemma listed_listable: "listable listed_mount 2" "listable listed_mount 5"
  by (simp_all add: listable_def listed_mount_def held_inode_def S_ISREG_def S_ISDIR_def ifmt_defs)

theorem readdir_lists_directory_witness:
  "\<exists>out m'. Readdir sample_fenv 4096 0 0 listed_mount =
      Val (reply_buf (concat (prefix_fit 4096 (map (entry_bytes sample_fenv listed_mount) out))), m') \<and>
    distinct (map fst out) \<and> (\<forall>n h. (\<exists>off. (n, h, off) \<in> set out) \<longleftrightarrow> [''.'' \<mapsto> 2, ''a'' \<mapsto> 5] n = Some h)"
proof -
  let ?i = "held_inode 2 S_IFDIR"
  have i: "i_file ?i = default_LogFSFile 7 2" "s_kv listed_mount = listed_store" "km_inodes listed_mount 0 = Some ?i"
    by (simp_all add: held_inode_def listed_mount_def new_KvfsMount_def new_FileSystemManager_def)
  have E: "fe_city sample_fenv = const_city" "fe_malloc sample_fenv 4096" by (simp_all add: sample_fenv_def)
  have "\<forall>n h. dir_lookup (fe_city sample_fenv) (i_file ?i, s_kv listed_mount) n = Some h \<longrightarrow> listable listed_mount h"
    by (simp add: E i listed_directory(5) listed_listable)
  note can = this
  have at: "dir_at listed_mount 0 ?i" using listed_directory(1) i by (simp add: dir_at_def)
  have inv: "dir_placed (fe_city sample_fenv) (i_file ?i, s_kv listed_mount)" "dir_entries_distinct (i_file ?i)"
    "exists_in_log (i_file ?i, s_kv listed_mount) = Val True"
    using listed_directory(2-4) by (simp_all add: i E)
  obtain out where out: "distinct (map fst out)"
    "\<forall>n h. (\<exists>off. (n, h, off) \<in> set out) \<longleftrightarrow> dir_lookup (fe_city sample_fenv) (i_file ?i, s_kv listed_mount) n = Some h"
    "\<forall>sz. fe_malloc sample_fenv sz \<longrightarrow> (\<exists>m'. Readdir sample_fenv sz 0 0 listed_mount =
       Val (reply_buf (concat (prefix_fit (unat sz) (map (entry_bytes sample_fenv listed_mount) out))), m'))"
    using readdir_lists_directory [OF at inv(3,1,2) can] by (elim exE conjE)
  have "unat (4096 :: u64) = 4096" by simp
  with out(3) E(2) obtain m' where "Readdir sample_fenv 4096 0 0 listed_mount =
      Val (reply_buf (concat (prefix_fit 4096 (map (entry_bytes sample_fenv listed_mount) out))), m')" by metis
  moreover have "\<forall>n h. (\<exists>off. (n, h, off) \<in> set out) \<longleftrightarrow> [''.'' \<mapsto> 2, ''a'' \<mapsto> 5] n = Some h"
    using out(2) unfolding E(1) i(1,2) listed_directory(5) .
  ultimately show ?thesis using out(1) by (intro exI conjI)
qed

section \<open>An entry that was taken out and put back\<close>

lemma writeToLog_entries: "dp_entries (fst (snd (dp_writeToLog p kv))) = dp_entries p"
  by (simp add: dp_writeToLog_def split: prod.split bool.split)

lemma removeEntry_entries:
  "dp_removeEntry h n (p, kv) = Val (0, p', kv') \<Longrightarrow> dp_Refresh p kv = Val (0, p0) \<Longrightarrow> dp_entries p' = dp_entries p0"
  using writeToLog_entries [of "p0\<lparr>dp_by_name := smap_erase n (dp_by_name p0), dp_state := dp_state_t.DIRTY\<rparr>" kv]
  by (auto simp: dp_removeEntry_def Let_def ENOENT_def split: if_splits prod.splits)

lemma insertEntry_entries:
  "dp_insertEntry h n (p, kv) = Val (0, p', kv') \<Longrightarrow> dp_Refresh p kv = Val (0, p0) \<Longrightarrow> dp_entries p' = dp_entries p0 @ [(n, h)]"
  using writeToLog_entries [of "p0\<lparr>dp_entries := dp_entries p0 @ [(n, h)], dp_by_name := smap_insert n h (dp_by_name p0),
      dp_state := dp_state_t.DIRTY\<rparr>" kv]
  by (auto simp: dp_insertEntry_def expect_def Let_def EEXIST_def split: if_splits prod.splits)

lemma changed_entry_valid:
  "dp_insertEntry h n (p, kv) = Val (0, p', kv') \<Longrightarrow> dp_Refresh p kv = Val (0, p0) \<Longrightarrow> dp_state p' \<noteq> dp_state_t.INVALID"
  "dp_removeEntry h n (p, kv) = Val (0, p', kv') \<Longrightarrow> dp_Refresh p kv = Val (0, p0) \<Longrightarrow> dp_state p' \<noteq> dp_state_t.INVALID"
  by (auto simp: dp_insertEntry_def dp_removeEntry_def dp_writeToLog_def expect_def Let_def ENOENT_def EEXIST_def
      split: if_splits prod.splits bool.splits)

lemma Refresh_valid: "dp_state p \<noteq> dp_state_t.INVALID \<Longrightarrow> dp_Refresh p kv = Val (0, p)"
  by (simp add: dp_Refresh_def)

text \<open>
  C36. An entry that is taken out of a partition and put back under its old name and number, as by a
  rename and a rename back, is listed at least twice from then on by that partition object: the vector
  of entries keeps the old one, and the test for deleted entries compares the name and the number
  alone. It is so for a partition that holds its table over a store that works, while the inodes of
  its entries are held in the inode table.
\<close>

theorem renamed_back_entry_listed_twice:
  assumes "dp_inv t (p, kv)" "smap_find t n = Some h" "\<forall>e \<in> set t. listable (ad_mount ad) (snd e)" "\<not> ad_out_of_space ad"
  shows "\<exists>p1 kv1 p2 kv2 out. dp_removeEntry h n (p, kv) = Val (0, p1, kv1) \<and> dp_insertEntry h n (p1, kv1) = Val (0, p2, kv2) \<and>
    listEntries (DirEntryAdder_Add E) base base p2 kv2 ad = Val (0, p2, filled E out ad) \<and>
    2 \<le> count (mset (map (\<lambda>(n, h, _). (n, h)) out)) (n, h)"
proof -
  have t: "smap_ok t" "(n, h) \<in> set t" "name_ok n" using assms(1,2) by (auto simp: dp_inv_def smap_find_mem)
  obtain p0 where p0: "dp_Refresh p kv = Val (0, p0)" "dp_inv t (p0, kv)" "dp_state p0 = dp_state_t.CLEAN"
    using Refresh_inv [OF assms(1)] by metis
  then have old: "(n, h) \<in> set (dp_entries p0)" using t(2) by (auto simp: dp_inv_def)
  obtain p1 kv1 where rem: "dp_removeEntry h n (p, kv) = Val (0, p1, kv1)" "dp_inv (smap_erase n t) (p1, kv1)"
    using removeEntry_inv [OF assms(1), of h n] assms(2) by auto
  have "smap_find (smap_erase n t) n = None" by (simp add: smap_find_erase)
  then obtain p2 kv2 where ins: "dp_insertEntry h n (p1, kv1) = Val (0, p2, kv2)" "dp_inv (smap_insert n h (smap_erase n t)) (p2, kv2)"
    using insertEntry_inv [OF rem(2) t(3), of h] by auto
  let ?t = "smap_insert n h (smap_erase n t)"
  have valid: "dp_Refresh p1 kv1 = Val (0, p1)" by (rule Refresh_valid [OF changed_entry_valid(2) [OF rem(1) p0(1)]])
  note valid2 = changed_entry_valid(1) [OF ins(1) valid]
  have entries: "dp_entries p2 = dp_entries p0 @ [(n, h)]"
    using insertEntry_entries [OF ins(1) valid] removeEntry_entries [OF rem(1) p0(1)] by simp
  have find: "smap_find ?t x = (if x = n then Some h else smap_find t x)" for x
    using smap_ok_erase [OF t(1)] by (simp add: smap_find_insert smap_find_erase)
  have by_name: "dp_by_name p2 = ?t" using ins(2) valid2 by (simp add: dp_inv_def)
  let ?out = "live_from ?t (dp_entries p2) (base + 1)"
  have "listable (ad_mount ad) g" if "(x, g, off) \<in> set ?out" for x g off
  proof -
    have "(x, g) \<in> (\<lambda>(n, i, _). (n, i)) ` set ?out" using that by force
    then obtain y where "entry_live ?t (y, g)" unfolding live_from_set by auto
    then have "smap_find t y = Some g" using assms(2) by (simp add: entry_live_def find split: if_splits)
    then show ?thesis using assms(3) t(1) by (force simp: smap_find_mem)
  qed
  then have "listEntries (DirEntryAdder_Add E) base base p2 kv2 ad = Val (0, p2, filled E ?out ad)"
    using list_loop_filled [of ?t "dp_entries p2" "base + 1" ad E] assms(4) by (fastforce simp: listEntries_def Refresh_valid [OF valid2] by_name)
  moreover have "2 \<le> count (mset (map (\<lambda>(n, h, _). (n, h)) ?out)) (n, h)"
  proof -
    have live: "entry_live ?t (n, h)" "c_str n = n" using t(3) by (simp_all add: entry_live_def find name_ok_def c_str_id)
    obtain xs ys where "dp_entries p0 = xs @ (n, h) # ys" using old by (meson split_list)
    then show ?thesis using live by (simp add: live_from_filter entries)
  qed
  ultimately show ?thesis using rem(1) ins(1) by blast
qed

theorem renamed_back_entry_listed_twice_witness:
  "\<exists>p1 kv1 p2 kv2 out. dp_removeEntry 5 ''a'' (dir_part 1 (default_LogFSFile 7 2), listed_store) = Val (0, p1, kv1) \<and>
    dp_insertEntry 5 ''a'' (p1, kv1) = Val (0, p2, kv2) \<and>
    listEntries (DirEntryAdder_Add sample_fenv) 0 0 p2 kv2 \<lparr>ad_mount = listed_mount, ad_buf = [], ad_size = 4096, ad_out_of_space = False\<rparr> =
      Val (0, p2, filled sample_fenv out \<lparr>ad_mount = listed_mount, ad_buf = [], ad_size = 4096, ad_out_of_space = False\<rparr>) \<and>
    2 \<le> count (mset (map (\<lambda>(n, h, _). (n, h)) out)) (''a'', 5)"
  by (rule renamed_back_entry_listed_twice [OF listed_tables(2)])
    (simp_all add: smap_find_def listed_listable)

end
