(* ===== verification/Crash.thy ===== *)
theory Crash
  imports MountNames
begin

text \<open>
  Two sessions on one store with a crash in between: the process ends without \<^verbatim>\<open>Shutdown\<close>, and the next
  one starts on what the store holds (\<^verbatim>\<open>Init\<close>, \<^verbatim>\<open>ReadSuperblock\<close> and \<^verbatim>\<open>Create\<close> of
  \<^verbatim>\<open>src/src/kvfs_mount.cc\<close>, \<^verbatim>\<open>getNextHandleId\<close> of \<^verbatim>\<open>src/src/FileSystemManager.h\<close>).
\<close>

section \<open>One session\<close>

text \<open>What a session needs to create a file: a store with a superblock and a directory without the name.\<close>

definition session_store ::
  "super_codec \<Rightarrow> (string \<Rightarrow> u64) \<Rightarrow> u64 \<Rightarrow> u64 \<Rightarrow> Superblock \<Rightarrow> (string \<Rightarrow> u64 option) \<Rightarrow> kvs \<Rightarrow> bool" where
  "session_store C city fs p sb table kv \<longleftrightarrow> reliable kv \<and>
     (\<exists>v. kv_data kv (super_key fs) = Some v \<and> sc_merge C v no_super = Some sb) \<and>
     dir_inv (default_LogFSFile fs p, kv) \<and> dir_lookup city (default_LogFSFile fs p, kv) = table"

lemma opendir_new:
  assumes "km_inode_map m p = None"
  obtains i m' where "fk_opendir E p m = Val (reply_open (km_next_addr m) False False, m')"
    "km_inodes m' (km_next_addr m) = Some i" "i_file i = default_LogFSFile (km_fs_id m) p"
    "s_kv m' = s_kv m" "km_fs_id m' = km_fs_id m" "km_inode_map m' = (km_inode_map m)(p \<mapsto> km_next_addr m)"
    "s_handleId m' = s_handleId m" "s_change_log m' = s_change_log m"
  using assms that
  by (simp add: fk_opendir_def get_or_create_def GetInode_def Hold_def new_FuseKvfsInode_def put_inode_def)

lemma session_creates:
  assumes "session_store C (fe_city E) fs p sb table kv" "1024 < port"
    and "name_ok name" "length name < NAME_MAX" "S_ISREG mode" "table name = None" "word_of_int (sb_next_inode sb) + 1 \<noteq> p"
  obtains m0 a m1 attr c kc m2 meta where
    "Mount_Init C cp True (Some port) (new_KvfsMount (new_FileSystemManager kv) fs) = Val (0, m0)"
    "fk_opendir E p m0 = Val (reply_open a False False, m1)"
    "Create E name mode a m1 = Val (reply_create (word_of_int (sb_next_inode sb) + 1) attr c kc, m2)"
    "kv_data (s_kv m2) (inode_key (word_of_int (sb_next_inode sb) + 1)) = Some (meta_encode meta)" "attr = stat_of_meta meta"
    "session_store C (fe_city E) fs p sb (table(name \<mapsto> word_of_int (sb_next_inode sb) + 1)) (s_kv m2)"
    "km_fs_id m2 = fs"
proof -
  let ?h = "word_of_int (sb_next_inode sb) + 1 :: u64" and ?fm = "new_FileSystemManager kv"
  note st = assms(1) [unfolded session_store_def]
  obtain v where v: "kv_data kv (super_key fs) = Some v" "sc_merge C v no_super = Some sb" using st by blast
  have kv: "s_kv ?fm = kv" by (simp add: new_FileSystemManager_def)
  obtain m0 where m0: "Mount_Init C cp True (Some port) (new_KvfsMount ?fm fs) = Val (0, m0)"
    "s_handleId m0 = word_of_int (sb_next_inode sb)"
    "s_change_log m0 = Some ((new_FsChangeLog (cp_local_dir cp) 0)\<lparr>l_next_xid := sb_next_xid sb\<rparr>)"
    "s_kv m0 = s_kv ?fm" "km_fs_id m0 = fs" "km_inodes m0 = (\<lambda>_. None)" "km_inode_map m0 = (\<lambda>_. None)"
    using Init_with_superblock [of ?fm fs v C sb port cp] st v assms(2) kv by metis
  have "mount_inv m0" using m0(3,6,7) by (simp add: mount_inv_def table_ok_def log_inv_def log_ordered_def new_FsChangeLog_def)
  moreover obtain i m1 where m1: "fk_opendir E p m0 = Val (reply_open (km_next_addr m0) False False, m1)"
    "km_inodes m1 (km_next_addr m0) = Some i" "i_file i = default_LogFSFile fs p"
    "s_kv m1 = kv" "km_fs_id m1 = fs" "km_inode_map m1 = [p \<mapsto> km_next_addr m0]"
    "s_handleId m1 = word_of_int (sb_next_inode sb)" "s_change_log m1 = s_change_log m0"
    using opendir_new [of m0 p E] m0 kv by metis
  ultimately have "mount_inv m1" using fk_open_inv(2) [rule_format, of m0 E p] by simp
  moreover have "dir_at m1 (km_next_addr m0) i" using st m1(2-4) by (simp add: dir_at_def)
  moreover have "creatable E name mode i m1"
    using assms(3-7) st m1(3,4,6-8) m0(3) by (simp add: creatable_def)
  ultimately obtain attr ia ic m2 where c: "Create E name mode (km_next_addr m0) m1 =
      Val (reply_create (s_handleId m1 + 1) attr (km_next_addr m1) (km_fuse_keep_cache m2), m2)"
    "dir_at m2 (km_next_addr m0) ia" "dir_lookup (fe_city E) (i_file ia, s_kv m2) name = Some (s_handleId m1 + 1)"
    "km_inode_map m2 (s_handleId m1 + 1) = Some (km_next_addr m1)" "km_inodes m2 (km_next_addr m1) = Some ic"
    "i_attr ic = attr" "i_state ic = CLEAN" "st_ino attr = s_handleId m1 + 1" "km_next_addr m0 \<noteq> km_next_addr m1"
    "inode_inv (i_file ic, s_kv m2)" "attr = stat_of_meta (f_meta (i_file ic))"
    "dir_lookup (fe_city E) (i_file ia, s_kv m2) = (dir_lookup (fe_city E) (i_file i, s_kv m1))(name := Some (s_handleId m1 + 1))"
    "km_fs_id m2 = km_fs_id m1" "f_handle (i_file ia) = f_handle (i_file i)" "f_fsId (i_file ia) = f_fsId (i_file i)"
    "\<forall>fs. kv_data (s_kv m2) (super_key fs) = kv_data (s_kv m1) (super_key fs)"
    by (rule Create_ok)
  have dir: "dir_inv (i_file ia, s_kv m2)" "f_handle (i_file ia) = p" "f_fsId (i_file ia) = fs"
    using c(2,14,15) m1(3) by (simp_all add: dir_at_def new_LogFSFile_def)
  have "session_store C (fe_city E) fs p sb (table(name \<mapsto> ?h)) (s_kv m2)"
    using dir_inv_reopen [OF dir] dir_inv_reliable [OF dir(1)] c(12,16) m1(3,4,7) st v by (simp add: session_store_def)
  moreover have "kv_data (s_kv m2) (inode_key ?h) = Some (meta_encode (f_meta (i_file ic)))"
    using c(8,10,11) m1(7) by (simp add: inode_inv_def stat_of_meta_def)
  ultimately show thesis using that [OF m0(1) m1(1)] c(1,11,13) m1(5,7) by metis
qed

section \<open>After a crash\<close>

text \<open>
  C33. After a crash the next session gives the numbers of stored files to new files. On a store with
  a superblock, a session creates a file in a directory and ends without a shutdown; the session
  after it, started on what the store holds then, gives a file that it creates under another name the
  same inode number: the directory leads from both names to it, and the metadata stored under it
  are those of the second file. \<^verbatim>\<open>ReadSuperblock\<close> takes the next number from the superblock and does
  not write it back. (The directory is stored and lacks both names, the names are storable and
  shorter than \<^verbatim>\<open>NAME_MAX\<close>, the files regular, and the number is not that of the directory.)
\<close>

theorem crash_reuses_inode_numbers:
  assumes "session_store C (fe_city E) fs p sb table kv" "1024 < port" "S_ISREG mode1" "S_ISREG mode2"
    and "name_ok name1" "length name1 < NAME_MAX" "table name1 = None" "name_ok name2" "length name2 < NAME_MAX" "table name2 = None"
    and "name1 \<noteq> name2" "word_of_int (sb_next_inode sb) + 1 \<noteq> p" "h = word_of_int (sb_next_inode sb) + 1"
  shows "\<exists>m0 a m1 attr1 c1 kc1 m2 meta1 m3 b m4 attr2 c2 kc2 m5 meta2.
    Mount_Init C cp True (Some port) (new_KvfsMount (new_FileSystemManager kv) fs) = Val (0, m0) \<and>
    fk_opendir E p m0 = Val (reply_open a False False, m1) \<and> Create E name1 mode1 a m1 = Val (reply_create h attr1 c1 kc1, m2) \<and>
    kv_data (s_kv m2) (inode_key h) = Some (meta_encode meta1) \<and> attr1 = stat_of_meta meta1 \<and>
    Mount_Init C cp True (Some port) (restarted m2) = Val (0, m3) \<and>
    fk_opendir E p m3 = Val (reply_open b False False, m4) \<and> Create E name2 mode2 b m4 = Val (reply_create h attr2 c2 kc2, m5) \<and>
    kv_data (s_kv m5) (inode_key h) = Some (meta_encode meta2) \<and> attr2 = stat_of_meta meta2 \<and>
    dir_lookup (fe_city E) (default_LogFSFile fs p, s_kv m5) = table(name1 \<mapsto> h, name2 \<mapsto> h)"
proof -
  obtain m0 a m1 attr1 c1 kc1 m2 meta1 where one:
    "Mount_Init C cp True (Some port) (new_KvfsMount (new_FileSystemManager kv) fs) = Val (0, m0)"
    "fk_opendir E p m0 = Val (reply_open a False False, m1)" "Create E name1 mode1 a m1 = Val (reply_create h attr1 c1 kc1, m2)"
    "kv_data (s_kv m2) (inode_key h) = Some (meta_encode meta1)" "attr1 = stat_of_meta meta1"
    "session_store C (fe_city E) fs p sb (table(name1 \<mapsto> h)) (s_kv m2)" "km_fs_id m2 = fs"
    using session_creates [OF assms(1,2,5,6,3,7,12), of cp] assms(13) by metis
  have free: "(table(name1 \<mapsto> h)) name2 = None" using assms(10,11) by simp
  obtain m3 b m4 attr2 c2 kc2 m5 meta2 where two:
    "Mount_Init C cp True (Some port) (new_KvfsMount (new_FileSystemManager (s_kv m2)) fs) = Val (0, m3)"
    "fk_opendir E p m3 = Val (reply_open b False False, m4)" "Create E name2 mode2 b m4 = Val (reply_create h attr2 c2 kc2, m5)"
    "kv_data (s_kv m5) (inode_key h) = Some (meta_encode meta2)" "attr2 = stat_of_meta meta2"
    "session_store C (fe_city E) fs p sb (table(name1 \<mapsto> h, name2 \<mapsto> h)) (s_kv m5)"
    using session_creates [OF one(6) assms(2,8,9,4) free assms(12), of cp] assms(13) by metis
  have "Mount_Init C cp True (Some port) (restarted m2) = Val (0, m3)" using two(1) one(7) by (simp add: restarted_def)
  moreover have "dir_lookup (fe_city E) (default_LogFSFile fs p, s_kv m5) = table(name1 \<mapsto> h, name2 \<mapsto> h)"
    using two(6) by (simp add: session_store_def)
  ultimately show ?thesis using one two by blast
qed

definition crashed_store :: kvs where
  "crashed_store = empty_kvs\<lparr>kv_data := [super_key 0 \<mapsto> ''1001'']\<rparr>"

lemma crashed_store_ok:
  "session_store sample_codec city 0 1 (no_super\<lparr>sb_next_inode := 1001\<rparr>) (\<lambda>_. None) crashed_store"
proof -
  have new: "reliable crashed_store" "kv_data crashed_store (partition_key 1 p) = None" for p
    by (simp_all add: crashed_store_def key_simps empty_kvs_def reliable_def)
  then show ?thesis
    using dir_inv_new [OF new]
    by (simp add: session_store_def) (simp add: crashed_store_def sample_codec_def read_int_def read_nat_def digit_val_def)
qed

theorem crash_reuses_inode_numbers_witness:
  "\<exists>m2 attr1 c1 k1 a m1 b m3 m4 attr2 c2 k2 m5. Create sample_fenv ''before'' 0x81A4 a m1 = Val (reply_create 1002 attr1 c1 k1, m2) \<and>
    Mount_Init sample_codec (new_CloudProxy ''/p'' ''s3'') True (Some 8080) (restarted m2) = Val (0, m3) \<and>
    fk_opendir sample_fenv 1 m3 = Val (reply_open b False False, m4) \<and>
    Create sample_fenv ''after'' 0x81A4 b m4 = Val (reply_create 1002 attr2 c2 k2, m5) \<and>
    dir_lookup const_city (default_LogFSFile 0 1, s_kv m5) = [''before'' \<mapsto> 1002, ''after'' \<mapsto> 1002]"
proof -
  let ?sb = "no_super\<lparr>sb_next_inode := 1001\<rparr>"
  have city: "fe_city sample_fenv = const_city" by (simp add: sample_fenv_def)
  have reg: "S_ISREG 0x81A4" by (simp add: S_ISREG_def ifmt_defs)
  have ok: "name_ok ''before''" "length ''before'' < NAME_MAX" "name_ok ''after''" "length ''after'' < NAME_MAX"
    by (simp_all add: name_ok_def null_termination_def NAME_MAX_def)
  have h: "(1002 :: u64) = word_of_int (sb_next_inode ?sb) + 1" by simp
  have p: "word_of_int (sb_next_inode ?sb) + 1 \<noteq> (1 :: u64)" by simp
  have port: "(1024 :: int) < 8080" and ne: "''before'' \<noteq> ''after''" by simp_all
  from crash_reuses_inode_numbers [where E = sample_fenv and cp = "new_CloudProxy ''/p'' ''s3''",
      OF crashed_store_ok port reg reg ok(1,2) refl ok(3,4) refl ne p h]
  show ?thesis unfolding city by blast
qed

end
