(* ===== verification/Worker.thy ===== *)
theory Worker
  imports Status
begin

text \<open>
  The contract of an object with a thread of its own, which the tiering-out, the tiering-in and
  the eviction agent share: \<^verbatim>\<open>Start\<close> makes the thread unless there is one, \<^verbatim>\<open>RequestStop\<close> asks it to
  end, and \<^verbatim>\<open>Join\<close> waits for it and fails an assertion when there is none.
\<close>

locale worker =
  fixes running :: "'a \<Rightarrow> bool"
    and stopping :: "'a \<Rightarrow> bool"
    and start :: "'a \<Rightarrow> int \<times> 'a"
    and request_stop :: "'a \<Rightarrow> int \<times> 'a"
    and join :: "'a \<Rightarrow> 'a outcome"
  assumes start_idle: "\<not> running a \<Longrightarrow> fst (start a) = 0 \<and> running (snd (start a)) \<and> \<not> stopping (snd (start a))"
    and start_running: "running a \<Longrightarrow> start a = (EINVAL, a)"
    and request: "fst (request_stop a) = 0 \<and> stopping (snd (request_stop a)) \<and> running (snd (request_stop a)) = running a"
    and join_running: "running a \<Longrightarrow> \<exists>b. join a = Val b \<and> \<not> running b"
    and join_idle: "\<not> running a \<Longrightarrow> join a = Abort"
begin

lemma stop_and_join: "running a \<Longrightarrow> \<exists>b. join (snd (request_stop a)) = Val b \<and> \<not> running b"
  using request join_running by blast

lemma restart:
  assumes "running a"
  shows "\<exists>b. join (snd (request_stop a)) = Val b \<and> fst (start b) = 0 \<and> running (snd (start b)) \<and> \<not> stopping (snd (start b))"
  using stop_and_join [OF assms] start_idle by blast

lemma join_twice: "join a = Val b \<Longrightarrow> join b = Abort"
  using join_running [of a] join_idle [of a] join_idle [of b] by (cases "running a") auto

end

end
