(* ===== verification/Host.thy ===== *)
theory Host
  imports ChangeLog Status
begin

text \<open>
  The machine the tiering components run on: shell commands, local files and \<^verbatim>\<open>errno\<close>. They are
  outside the program, so the calls are a record of functions on a state of the host that the
  model says nothing about; the components take that record as an argument, and a property that
  depends on what a command does states it as a hypothesis.

  A file that was created is written through its path, since the functions of the program write
  a file right after they created it and close it before they return.
\<close>

section \<open>Calls of the host\<close>

text \<open>An open file: what \<^verbatim>\<open>fstat\<close> and \<^verbatim>\<open>pread\<close> answer, and what a stream reads until its end.\<close>

record fdesc =
  fd_fstat_size :: "int option"
  fd_pread :: "int \<Rightarrow> nat \<Rightarrow> string option"
  fd_contents :: string

record 'w host =
  hs_system :: "string \<Rightarrow> 'w \<Rightarrow> int \<times> 'w"
  hs_create :: "string \<Rightarrow> u32 \<Rightarrow> 'w \<Rightarrow> bool \<times> 'w"
  hs_write :: "string \<Rightarrow> string \<Rightarrow> 'w \<Rightarrow> bool \<times> 'w"
  hs_open :: "string \<Rightarrow> 'w \<Rightarrow> fdesc option \<times> 'w"
  hs_errno :: "'w \<Rightarrow> int"

text \<open>\<^verbatim>\<open>errno ? errno : EIO\<close>.\<close>

definition errno_or_EIO :: "('w, 'z) host_scheme \<Rightarrow> 'w \<Rightarrow> int" where
  "errno_or_EIO H w = (if hs_errno H w \<noteq> 0 then hs_errno H w else EIO)"

text \<open>A file descriptor on a string of bytes that does not change.\<close>

definition fdesc_of :: "string \<Rightarrow> fdesc" where
  "fdesc_of c = \<lparr>fd_fstat_size = Some (int (length c)), fd_pread = (\<lambda>off n. Some (take n (drop (nat off) c))),
     fd_contents = c\<rparr>"

lemma fdesc_of_simps [simp]:
  "fd_fstat_size (fdesc_of c) = Some (int (length c))"
  "fd_pread (fdesc_of c) off n = Some (take n (drop (nat off) c))" "fd_contents (fdesc_of c) = c"
  by (simp_all add: fdesc_of_def)

section \<open>Hypotheses on the host\<close>

text \<open>
  What POSIX promises of the file calls. \<open>files\<close> is what the state of the host shows of the files in
  an area of the file tree where creating and writing works: a file that was created is empty, a
  file that was written after that holds what was written, other files of the area stay, opening
  a file reads what it holds, and calls on files elsewhere change nothing in the area.
\<close>

definition files_work :: "'w host \<Rightarrow> ('w \<Rightarrow> string \<Rightarrow> string option) \<Rightarrow> (string \<Rightarrow> bool) \<Rightarrow> bool" where
  "files_work H files area \<longleftrightarrow>
     (\<forall>p mode w. (area p \<longrightarrow> fst (hs_create H p mode w)) \<and>
        files (snd (hs_create H p mode w)) = (if area p then (files w)(p := Some []) else files w)) \<and>
     (\<forall>p c w. (area p \<longrightarrow> files w p = Some [] \<longrightarrow> fst (hs_write H p c w)) \<and>
        (area p \<longrightarrow> files w p = Some [] \<longrightarrow> files (snd (hs_write H p c w)) = (files w)(p := Some c)) \<and>
        (\<not> area p \<longrightarrow> files (snd (hs_write H p c w)) = files w)) \<and>
     (\<forall>p w c. area p \<longrightarrow> files w p = Some c \<longrightarrow> fst (hs_open H p w) = Some (fdesc_of c)) \<and>
     (\<forall>p w. files (snd (hs_open H p w)) = files w)"

lemma files_work_create:
  "files_work H files area \<Longrightarrow> area p \<Longrightarrow>
   \<exists>w'. hs_create H p mode w = (True, w') \<and> files w' = (files w)(p := Some [])"
  unfolding files_work_def
  by (intro exI [of _ "snd (hs_create H p mode w)"]) (simp add: prod_eq_iff)

lemma files_work_write:
  "files_work H files area \<Longrightarrow> area p \<Longrightarrow> files w p = Some [] \<Longrightarrow>
   \<exists>w'. hs_write H p c w = (True, w') \<and> files w' = (files w)(p := Some c)"
  unfolding files_work_def
  by (intro exI [of _ "snd (hs_write H p c w)"]) (simp add: prod_eq_iff)

lemma files_work_open:
  "files_work H files area \<Longrightarrow> area p \<Longrightarrow> files w p = Some c \<Longrightarrow>
   \<exists>w'. hs_open H p w = (Some (fdesc_of c), w') \<and> files w' = files w"
  unfolding files_work_def
  by (intro exI [of _ "snd (hs_open H p w)"]) (simp add: prod_eq_iff)

lemma files_work_store:
  assumes "files_work H files area" "area p"
  shows "\<exists>w1 w2. hs_create H p mode w = (True, w1) \<and> hs_write H p c w1 = (True, w2) \<and> files w2 = (files w)(p := Some c)"
proof -
  obtain w1 where w1: "hs_create H p mode w = (True, w1)" "files w1 = (files w)(p := Some [])"
    using files_work_create [OF assms] by blast
  then obtain w2 where "hs_write H p c w1 = (True, w2)" "files w2 = (files w1)(p := Some c)"
    using files_work_write [OF assms, of w1 c] by auto
  with w1 show ?thesis by simp
qed

lemma files_work_elsewhere:
  "files_work H files area \<Longrightarrow> \<not> area p \<Longrightarrow> files (snd (hs_create H p mode w)) = files w"
  "files_work H files area \<Longrightarrow> \<not> area p \<Longrightarrow> files (snd (hs_write H p c w)) = files w"
  by (simp_all add: files_work_def)

text \<open>A command that succeeds and changes no file of the area.\<close>

definition quiet :: "'w host \<Rightarrow> ('w \<Rightarrow> string \<Rightarrow> string option) \<Rightarrow> string \<Rightarrow> bool" where
  "quiet H files cmd \<longleftrightarrow> (\<forall>w. fst (hs_system H cmd w) = 0 \<and> files (snd (hs_system H cmd w)) = files w)"

lemma quiet_system: "quiet H files cmd \<Longrightarrow> \<exists>w'. hs_system H cmd w = (0, w') \<and> files w' = files w"
  unfolding quiet_def by (intro exI [of _ "snd (hs_system H cmd w)"]) (simp add: prod_eq_iff)

text \<open>
  A host on which every command succeeds without touching a file, and every file can be
  created: the state is the contents of the files.
\<close>

definition plain_host :: "(string \<Rightarrow> string option) host" where
  "plain_host = \<lparr>hs_system = (\<lambda>cmd w. (0, w)), hs_create = (\<lambda>p mode w. (True, w(p := Some []))),
     hs_write = (\<lambda>p c w. (True, w(p := Some c))), hs_open = (\<lambda>p w. (map_option fdesc_of (w p), w)),
     hs_errno = (\<lambda>w. 0)\<rparr>"

lemma plain_host_works: "files_work plain_host (\<lambda>w p. if area p then w p else None) area"
  by (auto simp: files_work_def plain_host_def)

lemma plain_host_quiet: "quiet plain_host files cmd"
  by (simp add: quiet_def plain_host_def)

end
