(* ===== verification/IndexManager.thy ===== *)
theory IndexManager
  imports Host Superblock
begin

text \<open>
  The index of segments (\<^verbatim>\<open>src/src/tiering/index_manager.{h,cc}\<close>): which inodes are in which
  tarball, the latest copy of an inode, and the index file. The messages are those of
  \<^verbatim>\<open>index.pb.h\<close>; a field that is not set is \<open>None\<close>, and its accessor returns the default. Their
  text and binary formats are library code and arguments of the model.
\<close>

section \<open>Messages\<close>

record InodeOffset =
  io_inode :: "int option"
  io_offset :: "int option"
  io_pathname :: "string option"

record ProtoSegment =
  ps_name :: "string option"
  ps_checksum :: "int option"
  ps_first_xid :: "int option"
  ps_last_xid :: "int option"
  ps_inode_offset :: "InodeOffset list"

record Index =
  ix_magic :: "int option"
  ix_version :: "int option"
  ix_fs_id :: "int option"
  ix_first_xid :: "int option"
  ix_last_xid :: "int option"
  ix_segment :: "ProtoSegment list"

definition new_Index :: Index where
  "new_Index = \<lparr>ix_magic = None, ix_version = None, ix_fs_id = None, ix_first_xid = None, ix_last_xid = None,
     ix_segment = []\<rparr>"

definition new_ProtoSegment :: ProtoSegment where
  "new_ProtoSegment = \<lparr>ps_name = None, ps_checksum = None, ps_first_xid = None, ps_last_xid = None, ps_inode_offset = []\<rparr>"

definition int_field :: "int option \<Rightarrow> int" where
  "int_field f = (case f of None \<Rightarrow> 0 | Some x \<Rightarrow> x)"

definition string_field :: "string option \<Rightarrow> string" where
  "string_field f = (case f of None \<Rightarrow> [] | Some x \<Rightarrow> x)"

lemma field_simps_Some [simp]: "int_field (Some x) = x" "string_field (Some s) = s"
  by (simp_all add: int_field_def string_field_def)

section \<open>Segments in memory\<close>

text \<open>
  A segment under construction (\<^verbatim>\<open>src/src/tiering/segment.h\<close>). \<open>sg_inode_paths\<close> is a
  \<^verbatim>\<open>std::map\<close>: its pairs in the order of the inode numbers. The file system manager it reads
  from is an argument of its operations.
\<close>

record Segment =
  sg_temp_dir :: string
  sg_tarball_path :: string
  sg_inode_paths :: "(int, string) smap"
  sg_fs_id :: u64
  sg_committed :: bool
  sg_first_xid :: int
  sg_last_xid :: int

section \<open>The index\<close>

datatype IndexFormat = INVALID_FORMAT | TEXT_FORMAT | BINARY_FORMAT

record IndexManager =
  im_cloud_proxy :: CloudProxy
  im_format :: IndexFormat
  im_index :: Index

definition new_IndexManager :: "CloudProxy \<Rightarrow> IndexFormat \<Rightarrow> IndexManager" where
  "new_IndexManager cloud_proxy index_format =
     \<lparr>im_cloud_proxy = cloud_proxy, im_format = index_format,
      im_index = new_Index\<lparr>ix_magic := Some 17, ix_version := Some 1\<rparr>\<rparr>"

text \<open>The formats: printing, and merging a text or parsing bytes; \<open>False\<close> when the input is malformed.\<close>

record index_codec =
  ic_text :: "Index \<Rightarrow> string"
  ic_merge_text :: "string \<Rightarrow> Index \<Rightarrow> bool \<times> Index"
  ic_binary :: "Index \<Rightarrow> string"
  ic_parse_binary :: "string \<Rightarrow> bool \<times> Index"

definition index_path :: "IndexManager \<Rightarrow> string" where
  "index_path im = LocalPath (if im_format im = TEXT_FORMAT then ''index_new.ix.txt'' else ''index_new.ix.bin'')
     (im_cloud_proxy im)"

definition index_Flush :: "index_codec \<Rightarrow> 'w host \<Rightarrow> IndexManager \<Rightarrow> 'w \<Rightarrow> int \<times> 'w" where
  "index_Flush K H im w =
     (let (created, w) = hs_create H (index_path im) 0x1FF w
      in if \<not> created then (errno_or_EIO H w, w)
         else case im_format im of
                TEXT_FORMAT \<Rightarrow>
                  (let (ok, w) = hs_write H (index_path im) (ic_text K (im_index im)) w
                   in (if ok then 0 else errno_or_EIO H w, w))
              | BINARY_FORMAT \<Rightarrow>
                  (let (ok, w) = hs_write H (index_path im) (ic_binary K (im_index im)) w
                   in (if ok then 0 else errno_or_EIO H w, w))
              | INVALID_FORMAT \<Rightarrow> (EINVAL, w))"

definition index_Refresh ::
  "index_codec \<Rightarrow> 'w host \<Rightarrow> bool \<Rightarrow> IndexManager \<Rightarrow> 'w \<Rightarrow> (int \<times> IndexManager \<times> 'w) outcome" where
  "index_Refresh K H merge im w =
     (let (fd, w) = hs_open H (index_path im) w
      in case fd of
           None \<Rightarrow> Val (errno_or_EIO H w, im, w)
         | Some f \<Rightarrow>
             let im = (if \<not> merge then im\<lparr>im_index := new_Index\<rparr> else im)
             in case im_format im of
                  TEXT_FORMAT \<Rightarrow>
                    (let (ok, index) = ic_merge_text K (fd_contents f) (im_index im)
                     in Val (if ok then 0 else errno_or_EIO H w, im\<lparr>im_index := index\<rparr>, w))
                | BINARY_FORMAT \<Rightarrow>
                    expect (\<not> merge)
                      (let (ok, index) = ic_parse_binary K (fd_contents f)
                       in Val (if ok then 0 else errno_or_EIO H w, im\<lparr>im_index := index\<rparr>, w))
                | INVALID_FORMAT \<Rightarrow> Val (EINVAL, im, w))"

text \<open>\<^verbatim>\<open>AddSegment\<close> returns a pointer into the index: here the position of the new segment.\<close>

definition index_AddSegment :: "IndexManager \<Rightarrow> nat \<times> IndexManager" where
  "index_AddSegment im =
     (length (ix_segment (im_index im)),
      im\<lparr>im_index := (im_index im)\<lparr>ix_segment := ix_segment (im_index im) @ [new_ProtoSegment]\<rparr>\<rparr>)"

fun find_inode_offset :: "int \<Rightarrow> InodeOffset list \<Rightarrow> InodeOffset option" where
  "find_inode_offset inode_num [] = None"
| "find_inode_offset inode_num (off # offs) =
     (if int_field (io_inode off) = inode_num then Some off else find_inode_offset inode_num offs)"

fun get_segment_loop :: "int \<Rightarrow> int \<Rightarrow> ProtoSegment list \<Rightarrow> nat \<Rightarrow> (ProtoSegment \<times> InodeOffset) option" where
  "get_segment_loop inode_num before_xid segs 0 = None"
| "get_segment_loop inode_num before_xid segs (Suc seg) =
     (let segment = segs ! seg
      in if int_field (ps_last_xid segment) > before_xid then get_segment_loop inode_num before_xid segs seg
         else case find_inode_offset inode_num (ps_inode_offset segment) of
                Some off \<Rightarrow> Some (segment, off)
              | None \<Rightarrow> get_segment_loop inode_num before_xid segs seg)"

definition GetSegment :: "int \<Rightarrow> int \<Rightarrow> IndexManager \<Rightarrow> (ProtoSegment \<times> InodeOffset) option" where
  "GetSegment inode_num before_xid im =
     (let segs = ix_segment (im_index im) in get_segment_loop inode_num before_xid segs (length segs))"

definition inode_offset_of :: "int \<times> string \<Rightarrow> InodeOffset" where
  "inode_offset_of inode_path =
     \<lparr>io_inode = Some (fst inode_path), io_offset = Some 0, io_pathname = Some (snd inode_path)\<rparr>"

definition index_Update :: "Segment \<Rightarrow> IndexManager \<Rightarrow> int \<times> IndexManager" where
  "index_Update segment im =
     (let proto_segment = new_ProtoSegment\<lparr>ps_name := Some (sg_tarball_path segment),
            ps_first_xid := Some (sg_first_xid segment), ps_last_xid := Some (sg_last_xid segment),
            ps_inode_offset := map inode_offset_of (sg_inode_paths segment)\<rparr>
      in (0, im\<lparr>im_index := (im_index im)\<lparr>ix_segment := ix_segment (im_index im) @ [proto_segment]\<rparr>\<rparr>))"

section \<open>Lemmas\<close>

lemma get_segment_loop_append:
  "n \<le> length segs \<Longrightarrow> get_segment_loop i x (segs @ segs2) n = get_segment_loop i x segs n"
  by (induction n) (simp_all add: Let_def nth_append cong: option.case_cong)

lemma find_inode_offset_of:
  "find_inode_offset i (map inode_offset_of paths) = map_option (\<lambda>p. inode_offset_of (i, p)) (map_of paths i)"
  by (induction paths) (auto simp: inode_offset_of_def)

text \<open>
  The same lookup without a loop: the last segment of the list that is old enough and has the
  inode.
\<close>

definition holds_inode :: "int \<Rightarrow> int \<Rightarrow> ProtoSegment \<Rightarrow> bool" where
  "holds_inode i x segment \<longleftrightarrow> int_field (ps_last_xid segment) \<le> x \<and>
     (\<exists>off \<in> set (ps_inode_offset segment). int_field (io_inode off) = i)"

lemma find_inode_offset_None:
  "find_inode_offset i offs = None \<longleftrightarrow> (\<forall>off \<in> set offs. int_field (io_inode off) \<noteq> i)"
  by (induction offs) auto

lemma find_inode_offset_Some:
  "find_inode_offset i offs = Some off \<Longrightarrow> off \<in> set offs \<and> int_field (io_inode off) = i"
  by (induction offs) (auto split: if_splits)

lemma get_segment_loop_Some:
  "get_segment_loop i x segs n = Some (segment, off) \<Longrightarrow>
   \<exists>k < n. segs ! k = segment \<and> holds_inode i x segment \<and> off \<in> set (ps_inode_offset segment) \<and>
     int_field (io_inode off) = i \<and> (\<forall>j. k < j \<and> j < n \<longrightarrow> \<not> holds_inode i x (segs ! j))"
proof (induction n)
  case 0
  then show ?case by simp
next
  case (Suc n)
  show ?case
  proof (cases "holds_inode i x (segs ! n)")
    case True
    then obtain o' where o': "find_inode_offset i (ps_inode_offset (segs ! n)) = Some o'"
      by (metis find_inode_offset_None holds_inode_def not_Some_eq)
    with True Suc.prems have "segment = segs ! n" "off = o'" by (simp_all add: Let_def holds_inode_def)
    with True find_inode_offset_Some [OF o'] show ?thesis by (intro exI [of _ n]) auto
  next
    case False
    then have "get_segment_loop i x segs n = Some (segment, off)"
      using Suc.prems find_inode_offset_None [of i "ps_inode_offset (segs ! n)"]
      by (auto simp: Let_def holds_inode_def split: if_splits option.splits dest: find_inode_offset_Some)
    with Suc.IH obtain k where "k < n" "segs ! k = segment" "holds_inode i x segment"
      "off \<in> set (ps_inode_offset segment)" "int_field (io_inode off) = i"
      "\<forall>j. k < j \<and> j < n \<longrightarrow> \<not> holds_inode i x (segs ! j)" by blast
    with False show ?thesis by (intro exI [of _ k]) (auto simp: less_Suc_eq)
  qed
qed

lemma get_segment_loop_None:
  "get_segment_loop i x segs n = None \<longleftrightarrow> (\<forall>j < n. \<not> holds_inode i x (segs ! j))"
proof (induction n)
  case 0
  then show ?case by simp
next
  case (Suc n)
  show ?case
  proof (cases "holds_inode i x (segs ! n)")
    case True
    then obtain o' where "find_inode_offset i (ps_inode_offset (segs ! n)) = Some o'"
      by (metis find_inode_offset_None holds_inode_def not_Some_eq)
    with True show ?thesis by (auto simp: Let_def holds_inode_def)
  next
    case False
    then have "get_segment_loop i x segs (Suc n) = get_segment_loop i x segs n"
      using find_inode_offset_None [of i "ps_inode_offset (segs ! n)"]
      by (auto simp: Let_def holds_inode_def split: option.splits dest: find_inode_offset_Some)
    with False Suc.IH show ?thesis by (auto simp: less_Suc_eq)
  qed
qed

lemma GetSegment_Update:
  "GetSegment ino before_xid (snd (index_Update segment im)) =
     (case map_of (sg_inode_paths segment) ino of
        Some path \<Rightarrow>
          if sg_last_xid segment \<le> before_xid
          then Some (new_ProtoSegment\<lparr>ps_name := Some (sg_tarball_path segment),
                 ps_first_xid := Some (sg_first_xid segment), ps_last_xid := Some (sg_last_xid segment),
                 ps_inode_offset := map inode_offset_of (sg_inode_paths segment)\<rparr>, inode_offset_of (ino, path))
          else GetSegment ino before_xid im
      | None \<Rightarrow> GetSegment ino before_xid im)"
  by (auto simp: GetSegment_def index_Update_def Let_def get_segment_loop_append find_inode_offset_of
      not_less split: option.splits)

section \<open>The index as a history of segments\<close>

text \<open>
  What a client of the index relies on: adding a segment answers the questions the segment has an
  entry for and leaves the others. Then the answer after a sequence of segments is that of the
  last one with an entry.
\<close>

locale catalog =
  fixes add :: "'s \<Rightarrow> 'i \<Rightarrow> 'i"
    and look :: "'q \<Rightarrow> 'i \<Rightarrow> 'r option"
    and entry :: "'q \<Rightarrow> 's \<Rightarrow> 'r option"
  assumes look_add: "look q (add s c) = (case entry q s of None \<Rightarrow> look q c | Some r \<Rightarrow> Some r)"
begin

lemma look_adds:
  "look q (fold add ss c) =
     (case List.find (\<lambda>s. entry q s \<noteq> None) (rev ss) of None \<Rightarrow> look q c | Some s \<Rightarrow> entry q s)"
proof (induction ss rule: rev_induct)
  case (snoc s ss)
  then show ?case by (cases "entry q s") (simp_all add: look_add)
qed simp

lemma look_unlisted: "\<forall>s \<in> set ss. entry q s = None \<Longrightarrow> look q (fold add ss c) = look q c"
  by (induction ss arbitrary: c) (simp_all add: look_add)

end

definition segment_record :: "Segment \<Rightarrow> ProtoSegment" where
  "segment_record segment = new_ProtoSegment\<lparr>ps_name := Some (sg_tarball_path segment),
     ps_first_xid := Some (sg_first_xid segment), ps_last_xid := Some (sg_last_xid segment),
     ps_inode_offset := map inode_offset_of (sg_inode_paths segment)\<rparr>"

definition segment_entry :: "int \<times> int \<Rightarrow> Segment \<Rightarrow> (ProtoSegment \<times> InodeOffset) option" where
  "segment_entry q segment =
     (if sg_last_xid segment \<le> snd q
      then map_option (\<lambda>path. (segment_record segment, inode_offset_of (fst q, path))) (map_of (sg_inode_paths segment) (fst q))
      else None)"

interpretation ix: catalog "\<lambda>segment im. snd (index_Update segment im)" "\<lambda>q. GetSegment (fst q) (snd q)" segment_entry
  by unfold_locales (auto simp: GetSegment_Update segment_entry_def segment_record_def split: option.splits)

lemma segment_entry_iff:
  "segment_entry (ino, before) s \<noteq> None \<longleftrightarrow> sg_last_xid s \<le> before \<and> ino \<in> fst ` set (sg_inode_paths s)"
  using map_of_eq_None_iff [of "sg_inode_paths s" ino] by (auto simp: segment_entry_def)

section \<open>Properties\<close>

text \<open>
  Looking an inode up in the index finds its latest copy: the segment returned is in the
  index, is not newer than asked for, lists the inode, and no later segment of the index does
  both; when nothing is returned, no segment does.
\<close>

theorem lookup_finds_latest_segment:
  "case GetSegment ino before im of
     Some (segment, off) \<Rightarrow>
       (\<exists>k < length (ix_segment (im_index im)). ix_segment (im_index im) ! k = segment \<and>
          holds_inode ino before segment \<and> off \<in> set (ps_inode_offset segment) \<and> int_field (io_inode off) = ino \<and>
          \<not> (\<exists>j. k < j \<and> j < length (ix_segment (im_index im)) \<and> holds_inode ino before (ix_segment (im_index im) ! j)))
   | None \<Rightarrow> \<not> (\<exists>segment \<in> set (ix_segment (im_index im)). holds_inode ino before segment)"
proof (cases "GetSegment ino before im")
  case None
  then have "\<forall>j < length (ix_segment (im_index im)). \<not> holds_inode ino before (ix_segment (im_index im) ! j)"
    by (simp add: GetSegment_def Let_def get_segment_loop_None)
  with None show ?thesis by (auto simp: in_set_conv_nth)
next
  case (Some p)
  then show ?thesis
    using get_segment_loop_Some [of ino before "ix_segment (im_index im)" "length (ix_segment (im_index im))" "fst p" "snd p"]
    by (fastforce simp: GetSegment_def Let_def split: prod.splits)
qed

text \<open>
  C15. The index remembers the latest copy: after any sequence of segments was added to an index,
  looking an inode up finds it in the last segment of the sequence that lists the inode and is not
  newer than asked for, at the path the segment lists; when there is none, the lookup finds what it
  found before.
\<close>

theorem updates_then_lookup:
  "GetSegment ino before (fold (\<lambda>segment im. snd (index_Update segment im)) segments im) =
     (case List.find (\<lambda>s. sg_last_xid s \<le> before \<and> ino \<in> fst ` set (sg_inode_paths s)) (rev segments) of
        None \<Rightarrow> GetSegment ino before im
      | Some s \<Rightarrow> Some (segment_record s, inode_offset_of (ino, the (map_of (sg_inode_paths s) ino))))"
proof -
  have "segment_entry (ino, before) s = Some (segment_record s, inode_offset_of (ino, the (map_of (sg_inode_paths s) ino)))"
    if "segment_entry (ino, before) s \<noteq> None" for s
    using that by (auto simp: segment_entry_def split: if_splits)
  note entry = this
  let ?P = "\<lambda>s. sg_last_xid s \<le> before \<and> ino \<in> fst ` set (sg_inode_paths s)"
  have look: "GetSegment ino before (fold (\<lambda>segment im. snd (index_Update segment im)) segments im) =
     (case List.find ?P (rev segments) of None \<Rightarrow> GetSegment ino before im | Some s \<Rightarrow> segment_entry (ino, before) s)"
    using ix.look_adds [of "(ino, before)" segments im] by (simp only: segment_entry_iff fst_conv snd_conv)
  show ?thesis
  proof (cases "List.find ?P (rev segments)")
    case (Some s)
    then have "segment_entry (ino, before) s \<noteq> None" unfolding segment_entry_iff by (auto simp: find_Some_iff)
    with look Some entry show ?thesis by simp
  qed (simp add: look)
qed

text \<open>
  The index survives a restart: an index written to its file by \<^verbatim>\<open>Flush\<close> is what a new index
  manager of the same format has after \<^verbatim>\<open>Refresh\<close>, provided the file can be written and the
  format reads back what it printed.
\<close>

theorem index_flush_refresh:
  assumes "files_work H files area" "area (index_path im)" "im_format im \<noteq> INVALID_FORMAT"
    and "ic_merge_text K (ic_text K (im_index im)) new_Index = (True, im_index im)"
    and "ic_parse_binary K (ic_binary K (im_index im)) = (True, im_index im)"
  shows "\<exists>w' w''. index_Flush K H im w = (0, w') \<and>
    index_Refresh K H False (new_IndexManager (im_cloud_proxy im) (im_format im)) w' = Val (0, im, w'')"
proof -
  let ?p = "index_path im" and ?c = "if im_format im = TEXT_FORMAT then ic_text K (im_index im) else ic_binary K (im_index im)"
  obtain w1 w2 where w: "hs_create H ?p 0x1FF w = (True, w1)" "hs_write H ?p ?c w1 = (True, w2)"
    "files w2 = (files w)(?p := Some ?c)"
    using files_work_store [OF assms(1,2)] by blast
  have "files w2 ?p = Some ?c" using w(3) by simp
  then obtain w3 where w3: "hs_open H ?p w2 = (Some (fdesc_of ?c), w3)"
    using files_work_open [OF assms(1,2)] by blast
  have path: "index_path (new_IndexManager (im_cloud_proxy im) (im_format im)) = ?p"
    by (simp add: index_path_def new_IndexManager_def)
  have "index_Flush K H im w = (0, w2)"
    using w(1,2) assms(3) by (cases "im_format im") (simp_all add: index_Flush_def)
  moreover have "index_Refresh K H False (new_IndexManager (im_cloud_proxy im) (im_format im)) w2 = Val (0, im, w3)"
    unfolding index_Refresh_def path using w3 assms(3-5)
    by (cases "im_format im") (simp_all add: new_IndexManager_def)
  ultimately show ?thesis by blast
qed

theorem index_flush_refresh_witness:
  "\<exists>K w' w''. index_Flush K plain_host (new_IndexManager (new_CloudProxy ''p'' ''s'') TEXT_FORMAT) (\<lambda>_. None) = (0, w') \<and>
    index_Refresh K plain_host False (new_IndexManager (new_CloudProxy ''p'' ''s'') TEXT_FORMAT) w' =
      Val (0, new_IndexManager (new_CloudProxy ''p'' ''s'') TEXT_FORMAT, w'')"
proof -
  let ?im = "new_IndexManager (new_CloudProxy ''p'' ''s'') TEXT_FORMAT"
  let ?K = "\<lparr>ic_text = \<lambda>_. ''i'', ic_merge_text = \<lambda>_ _. (True, im_index ?im), ic_binary = \<lambda>_. ''i'',
    ic_parse_binary = \<lambda>_. (True, im_index ?im)\<rparr>"
  have "im_format ?im = TEXT_FORMAT" "im_cloud_proxy ?im = new_CloudProxy ''p'' ''s''"
    by (simp_all add: new_IndexManager_def)
  then show ?thesis
    using index_flush_refresh [OF plain_host_works, of "\<lambda>_. True" ?im ?K "\<lambda>_. None"] by auto
qed

end
