(* ===== verification/Segments.thy ===== *)
theory Segments
  imports IndexManager FSManager
begin

text \<open>
  Segments and the segment factory (\<^verbatim>\<open>src/src/tiering/segment.{h,cc}\<close>): copying files and
  directories of the file system into a working directory, making a tarball of it, and opening a
  file of a tarball again. Shell commands are the strings handed to \<^verbatim>\<open>system\<close>.

  \<^verbatim>\<open>CopyFile\<close> copies through a buffer from \<^verbatim>\<open>malloc\<close>; what such a buffer holds before anything is
  stored in it is an argument (\<open>heap\<close>). Its log line, which reads eight bytes of the buffer
  whatever its length, is not modelled.
\<close>

section \<open>Commands\<close>

definition MkdirPath_cmd :: "string \<Rightarrow> string" where
  "MkdirPath_cmd dir_path = ''mkdir --parents  --verbose '' @ [CHR 0x27] @ dir_path @ [CHR 0x27]"

definition MkdirPath :: "'w host \<Rightarrow> string \<Rightarrow> 'w \<Rightarrow> int \<times> 'w" where
  "MkdirPath H dir_path w = hs_system H (MkdirPath_cmd dir_path) w"

definition Sync :: "'w host \<Rightarrow> SyncDirection \<Rightarrow> CloudProxy \<Rightarrow> 'w \<Rightarrow> int \<times> 'w" where
  "Sync H direction cp w = hs_system H (proxy_Sync_cmd direction cp) w"

definition PinFile :: "'w host \<Rightarrow> string \<Rightarrow> CloudProxy \<Rightarrow> 'w \<Rightarrow> int \<times> 'w" where
  "PinFile H file_path cp w = hs_system H (proxy_PinFile_cmd file_path cp) w"

section \<open>Segments\<close>

text \<open>
  The transaction numbers of a segment are set after its construction, by \<^verbatim>\<open>AddSegment\<close>; a segment
  that is opened to read from it keeps them unset, and nothing reads them. The model starts them
  at zero.
\<close>

datatype ObjectParts = WHOLE_FILE | METADATA_ONLY | DATA_ONLY | DATA_RANGE_ONLY

definition new_Segment :: "string \<Rightarrow> string \<Rightarrow> u64 \<Rightarrow> Segment" where
  "new_Segment temp_dir tarball_path fs_id =
     \<lparr>sg_temp_dir = temp_dir, sg_tarball_path = tarball_path, sg_inode_paths = [], sg_fs_id = fs_id,
      sg_committed = False, sg_first_xid = 0, sg_last_xid = 0\<rparr>"

text \<open>What the calls of a segment need besides the segment: the host, and how files are read.\<close>

record 'w segment_env =
  se_host :: "'w host"
  se_env :: env
  se_tier :: "u64 \<Rightarrow> TieredInFile option"
  se_uninit :: stat_buf
  se_heap :: "nat \<Rightarrow> char"

text \<open>\<^verbatim>\<open>s.substr(0, s.find_last_of("/"))\<close>.\<close>

definition dir_part :: "string \<Rightarrow> string" where
  "dir_part p = (if CHR 0x2F \<in> set p then rev (tl (dropWhile (\<lambda>c. c \<noteq> CHR 0x2F) (rev p))) else p)"

text \<open>The part after the read: make the directory, create the file and write the buffer to it.\<close>

definition store_copy :: "'w host \<Rightarrow> string \<Rightarrow> u32 \<Rightarrow> string \<Rightarrow> 'w \<Rightarrow> int \<times> 'w" where
  "store_copy H full_path mode read_buf w =
     (let (ret, w) = MkdirPath H (dir_part full_path) w
      in if ret \<noteq> 0 then (ret, w)
         else let (ok, w) = hs_create H full_path mode w
              in if \<not> ok then (hs_errno H w, w)
                 else let (ok, w) = hs_write H full_path read_buf w
                      in (if ok then ret else hs_errno H w, w))"

definition CopyFile ::
  "'w segment_env \<Rightarrow> u64 \<Rightarrow> string \<Rightarrow> stat_buf \<Rightarrow> Segment \<Rightarrow> 'z fsys_scheme \<Rightarrow> 'w \<Rightarrow>
   (int \<times> 'z fsys_scheme \<times> 'w) outcome" where
  "CopyFile E handle path stat sg s w =
     (let len = st_size stat
      in if len < 0 then Undef
         else obind (readFile (se_env E) (se_tier E) (sg_fs_id sg) handle 0 (word_of_int len) s)
           (\<lambda>(status, actual_len, stored, s).
              if int (length stored) > len then Undef
              else let read_buf = stored @ map (se_heap E) [length stored ..< nat len];
                       (ret, w) = store_copy (se_host E) (sg_temp_dir sg @ ''/'' @ path) (st_mode stat) read_buf w
                   in Val (ret, s, w)))"

definition CopyDir :: "'w host \<Rightarrow> string \<Rightarrow> Segment \<Rightarrow> 'w \<Rightarrow> int \<times> 'w" where
  "CopyDir H path sg w = MkdirPath H (sg_temp_dir sg @ ''/'' @ path) w"

definition Segment_Add ::
  "'w segment_env \<Rightarrow> u64 \<Rightarrow> string \<Rightarrow> ObjectParts \<Rightarrow> Segment \<Rightarrow> 'z fsys_scheme \<Rightarrow> 'w \<Rightarrow>
   (int \<times> Segment \<times> 'z fsys_scheme \<times> 'w) outcome" where
  "Segment_Add E inode_num path parts sg s w =
     expect (parts = WHOLE_FILE)
       (obind (statFile (se_env E) (sg_fs_id sg) inode_num (se_uninit E) s) (\<lambda>(status, stat).
        obind (if status \<noteq> STATUS_OK then Val (StatusToErrno status, s, w)
               else if S_ISREG (st_mode stat) then CopyFile E inode_num path stat sg s w
               else if S_ISDIR (st_mode stat)
               then let (err, w) = CopyDir (se_host E) path sg w in Val (err, s, w)
               else Val (EINVAL, s, w)) (\<lambda>(err, s, w).
        Val (err, if err = 0 then sg\<lparr>sg_inode_paths := smap_insert (sint inode_num) path (sg_inode_paths sg)\<rparr> else sg,
             s, w))))"

definition tar_create_cmd :: "string \<Rightarrow> string \<Rightarrow> string" where
  "tar_create_cmd tarball_path temp_dir =
     ''tar --verbose -z --create --file='' @ tarball_path @ '' --directory '' @ temp_dir @ '' .''"

definition Segment_Commit :: "'w host \<Rightarrow> Segment \<Rightarrow> 'w \<Rightarrow> int \<times> Segment \<times> 'w" where
  "Segment_Commit H sg w =
     (let (ret, w) = hs_system H (tar_create_cmd (sg_tarball_path sg) (sg_temp_dir sg)) w
      in (ret, if ret = 0 then sg\<lparr>sg_committed := True\<rparr> else sg, w))"

definition Segment_Close :: "Segment \<Rightarrow> int" where
  "Segment_Close sg = 0"

definition tar_extract_cmd :: "string \<Rightarrow> string \<Rightarrow> string" where
  "tar_extract_cmd tarball_path temp_dir =
     ''tar --verbose --extract --file='' @ tarball_path @ '' --directory '' @ temp_dir"

definition tiered_file :: "fdesc \<Rightarrow> InodeOffset \<Rightarrow> TieredInFile" where
  "tiered_file f off =
     \<lparr>tf_inode_num = word_of_int (int_field (io_inode off)), tf_fstat_size = fd_fstat_size f, tf_pread = fd_pread f\<rparr>"

definition Segment_OpenFile ::
  "'w host \<Rightarrow> InodeOffset \<Rightarrow> ObjectParts \<Rightarrow> Segment \<Rightarrow> 'w \<Rightarrow> TieredInFile option \<times> 'w" where
  "Segment_OpenFile H off parts sg w =
     (let extracted_file_path = sg_temp_dir sg @ ''/'' @ string_field (io_pathname off);
          (fd, w) = hs_open H extracted_file_path w
      in case fd of
           Some f \<Rightarrow> (Some (tiered_file f off), w)
         | None \<Rightarrow>
             let (ret, w) = hs_system H (tar_extract_cmd (sg_tarball_path sg) (sg_temp_dir sg)) w
             in if ret \<noteq> 0 then (None, w)
                else let (fd, w) = hs_open H extracted_file_path w
                     in (case fd of None \<Rightarrow> None | Some f \<Rightarrow> Some (tiered_file f off), w))"

section \<open>The factory\<close>

text \<open>
  The template of the working directories ends in \<^verbatim>\<open>%ld-%ld\<close>; \<open>sf_working_dir\<close> is the part before
  it, which the main program gives as \<^verbatim>\<open>./seg_\<close> and which has no conversions of its own.
\<close>

record SegmentFactory =
  sf_working_dir :: string
  sf_cloud_proxy :: CloudProxy
  sf_fs_id :: u64

definition new_SegmentFactory :: "string \<Rightarrow> CloudProxy \<Rightarrow> u64 \<Rightarrow> SegmentFactory" where
  "new_SegmentFactory working_dir_template cloud_proxy fs_id =
     \<lparr>sf_working_dir = working_dir_template, sf_cloud_proxy = cloud_proxy, sf_fs_id = fs_id\<rparr>"

definition working_dir_name :: "int \<Rightarrow> int \<Rightarrow> SegmentFactory \<Rightarrow> string" where
  "working_dir_name first_xid last_xid sf = sf_working_dir sf @ show_int first_xid @ ''-'' @ show_int last_xid"

text \<open>An empty string is the result of a failure.\<close>

definition MakeWorkingDir :: "'w host \<Rightarrow> int \<Rightarrow> int \<Rightarrow> SegmentFactory \<Rightarrow> 'w \<Rightarrow> string \<times> 'w" where
  "MakeWorkingDir H first_xid last_xid sf w =
     (let working_dir = working_dir_name first_xid last_xid sf
      in if length working_dir \<ge> 128 then ([], w)
         else let (ret, w) = MkdirPath H working_dir w
              in (if ret \<noteq> 0 then [] else working_dir, w))"

definition tarball_name :: "int \<Rightarrow> int \<Rightarrow> SegmentFactory \<Rightarrow> string" where
  "tarball_name first_xid last_xid sf =
     cp_local_dir (sf_cloud_proxy sf) @ ''/tb_'' @ show_int first_xid @ ''-'' @ show_int last_xid @ ''.tgz''"

definition AddSegment :: "'w host \<Rightarrow> int \<Rightarrow> int \<Rightarrow> SegmentFactory \<Rightarrow> 'w \<Rightarrow> Segment option \<times> 'w" where
  "AddSegment H first_xid last_xid sf w =
     (let (working_dir, w) = MakeWorkingDir H first_xid last_xid sf w
      in if working_dir = [] then (None, w)
         else (Some ((new_Segment working_dir (tarball_name first_xid last_xid sf) (sf_fs_id sf))
                 \<lparr>sg_first_xid := first_xid, sg_last_xid := last_xid\<rparr>), w))"

definition TEST_FSID :: u64 where
  "TEST_FSID = 0"

definition OpenSegment :: "'w host \<Rightarrow> ProtoSegment \<Rightarrow> SegmentFactory \<Rightarrow> 'w \<Rightarrow> Segment \<times> 'w" where
  "OpenSegment H proto_segment sf w =
     (let (working_dir, w) = MakeWorkingDir H (int_field (ps_first_xid proto_segment)) (int_field (ps_last_xid proto_segment)) sf w;
          (_, w) = PinFile H (string_field (ps_name proto_segment)) (sf_cloud_proxy sf) w
      in (new_Segment working_dir (string_field (ps_name proto_segment)) TEST_FSID, w))"

definition DeleteSegment :: "Segment \<Rightarrow> SegmentFactory \<Rightarrow> SegmentFactory" where
  "DeleteSegment sg sf = sf"

end
