(* ===== verification/Persister.thy ===== *)
theory Persister
  imports Segments
begin

text \<open>
  The snapshot persister (\<^verbatim>\<open>src/src/tiering/snapshot_persister.{h,cc}\<close>): the path of an inode from
  the parents recorded in the metadata, the order in which a batch of inodes is stored, and one
  segment made, indexed and sent to the cloud.

  Following the parents of an inode is a loop that may not end; \<open>None\<close> is a call that does not
  return, \<open>Some\<close> the outcome of one that does.
\<close>

section \<open>Calls that may not return\<close>

definition tbind :: "'a outcome option \<Rightarrow> ('a \<Rightarrow> 'b outcome option) \<Rightarrow> 'b outcome option" where
  "tbind m f = (case m of None \<Rightarrow> None
                | Some r \<Rightarrow> (case r of Val x \<Rightarrow> f x | Abort \<Rightarrow> Some Abort | Undef \<Rightarrow> Some Undef))"

lemma tbind_simps [simp]:
  "tbind None f = None" "tbind (Some (Val x)) f = f x" "tbind (Some Abort) f = Some Abort"
  "tbind (Some Undef) f = Some Undef"
  by (simp_all add: tbind_def)

lemma tbind_Val_iff: "tbind m f = Some (Val y) \<longleftrightarrow> (\<exists>x. m = Some (Val x) \<and> f x = Some (Val y))"
  by (auto simp: tbind_def split: option.splits outcome.splits)

lemma tbind_mono [partial_function_mono]:
  "(\<And>y. mono_option (\<lambda>f. C y f)) \<Longrightarrow> mono_option (\<lambda>f. tbind m (\<lambda>y. C y f))"
  unfolding tbind_def by (auto simp: monotone_def flat_ord_def split: option.splits outcome.splits)

section \<open>The path of an inode\<close>

partial_function (option) get_path_loop ::
  "'z fsys_scheme \<Rightarrow> u64 \<Rightarrow> string list \<Rightarrow> (Status \<times> u64 \<times> string list) outcome option" where
  "get_path_loop s inode path_parts =
     (if inode > ROOT_HANDLE
      then tbind (Some (fm_getPathInfo 0 inode s)) (\<lambda>(status, info).
             if status \<noteq> STATUS_OK then Some (Val (status, inode, path_parts))
             else (case info of
                     None \<Rightarrow> Some Undef
                   | Some (parent_handle, path_part) \<Rightarrow> get_path_loop s parent_handle (path_part # path_parts)))
      else Some (Val (STATUS_OK, inode, path_parts)))"

text \<open>The parts with a slash after each, less the last character.\<close>

definition join_path :: "string list \<Rightarrow> string" where
  "join_path path_parts = butlast (concat (map (\<lambda>part. part @ ''/'') path_parts))"

definition GetPath :: "'z fsys_scheme \<Rightarrow> u64 \<Rightarrow> (Status \<times> string) outcome option" where
  "GetPath s inode =
     tbind (get_path_loop s inode []) (\<lambda>(status, inode, path_parts).
       Some (expect (join_path path_parts \<noteq> [] \<or> inode = ROOT_HANDLE \<or> status \<noteq> STATUS_OK)
               (Val (status, join_path path_parts))))"

fun GetPaths :: "'z fsys_scheme \<Rightarrow> u64 list \<Rightarrow> (u64, string) smap \<Rightarrow> (u64, string) smap outcome option" where
  "GetPaths s [] paths = Some (Val paths)"
| "GetPaths s (inode # inode_nums) paths =
     tbind (GetPath s inode) (\<lambda>(status, path).
       GetPaths s inode_nums (if status = STATUS_OK then smap_insert inode path paths else paths))"

section \<open>The order of a batch\<close>

text \<open>
  The comparator looks paths up with \<^verbatim>\<open>operator[]\<close>, which enters an empty path for an inode that
  has none; \<^verbatim>\<open>std::sort\<close> compares every element of a vector of two or more. Inodes with equal
  paths may come in any order; here they keep theirs.
\<close>

definition path_of :: "(u64, string) smap \<Rightarrow> u64 \<Rightarrow> string" where
  "path_of paths i = (case smap_find paths i of None \<Rightarrow> [] | Some p \<Rightarrow> p)"

definition less_by_path :: "(u64, string) smap \<Rightarrow> u64 \<Rightarrow> u64 \<Rightarrow> bool" where
  "less_by_path paths i j \<longleftrightarrow> path_of paths i < path_of paths j"

definition touch_path :: "u64 \<Rightarrow> (u64, string) smap \<Rightarrow> (u64, string) smap" where
  "touch_path i paths = (case smap_find paths i of None \<Rightarrow> smap_insert i [] paths | Some _ \<Rightarrow> paths)"

definition sort_by_path :: "(u64, string) smap \<Rightarrow> u64 list \<Rightarrow> u64 list \<times> (u64, string) smap" where
  "sort_by_path paths inode_nums =
     (sort_key (path_of paths) inode_nums, if length inode_nums \<ge> 2 then fold touch_path inode_nums paths else paths)"

section \<open>A segment\<close>

fun add_inodes ::
  "'w segment_env \<Rightarrow> (u64, string) smap \<Rightarrow> u64 list \<Rightarrow> Segment \<Rightarrow> 'z fsys_scheme \<Rightarrow> 'w \<Rightarrow>
   (Segment \<times> 'z fsys_scheme \<times> 'w) outcome" where
  "add_inodes E paths [] sg s w = Val (sg, s, w)"
| "add_inodes E paths (inode # inode_nums) sg s w =
     (case smap_find paths inode of
        Some path \<Rightarrow> obind (Segment_Add E inode path WHOLE_FILE sg s w) (\<lambda>(_, sg, s, w).
                       add_inodes E paths inode_nums sg s w)
      | None \<Rightarrow> add_inodes E paths inode_nums sg s w)"

text \<open>Committing the segment; only a tarball that was made is entered in the index.\<close>

definition finish_segment ::
  "'w host \<Rightarrow> index_codec \<Rightarrow> SegmentFactory \<Rightarrow> Segment \<Rightarrow> IndexManager \<Rightarrow> 'w \<Rightarrow> IndexManager \<times> 'w" where
  "finish_segment H K sf sg im w =
     (let (ret, sg, w) = Segment_Commit H sg w
      in if ret = 0
         then let (_, im) = index_Update sg im;
                  (_, w) = index_Flush K H im w;
                  (_, w) = Sync H SYNC_OUT (sf_cloud_proxy sf) w
              in (im, w)
         else (im, w))"

text \<open>
  The state of a snapshot: the index manager, the file system manager that the factory was given
  and the host. \<open>ss\<close> is the persister's own manager, of the mounted snapshot. A null segment is
  undefined behaviour.
\<close>

definition Persister_Snapshot ::
  "'w segment_env \<Rightarrow> index_codec \<Rightarrow> SegmentFactory \<Rightarrow> 'y fsys_scheme \<Rightarrow> u64 list \<Rightarrow> int \<Rightarrow> int \<Rightarrow>
   IndexManager \<times> 'z fsys_scheme \<times> 'w \<Rightarrow> (int \<times> IndexManager \<times> 'z fsys_scheme \<times> 'w) outcome option" where
  "Persister_Snapshot E K sf ss inode_nums first_xid last_xid = (\<lambda>(im, s, w).
     tbind (GetPaths ss inode_nums []) (\<lambda>paths.
       if paths = [] then Some (Val (ENOENT, im, s, w))
       else
         let (inode_nums, paths) = sort_by_path paths inode_nums;
             (segment, w) = AddSegment (se_host E) first_xid last_xid sf w
         in case segment of
              None \<Rightarrow> Some Undef
            | Some sg \<Rightarrow>
                Some (obind (add_inodes E paths inode_nums sg s w) (\<lambda>(sg, s, w).
                  let (im, w) = finish_segment (se_host E) K sf sg im w in Val (0, im, s, w)))))"

section \<open>Paths\<close>

text \<open>The names on the way from the root to an inode, by the parents in the metadata.\<close>

inductive path_chain :: "'z fsys_scheme \<Rightarrow> u64 \<Rightarrow> string list \<Rightarrow> bool" for s where
  root: "path_chain s ROOT_HANDLE []"
| child: "inode > ROOT_HANDLE \<Longrightarrow> fm_getPathInfo 0 inode s = Val (STATUS_OK, Some (parent, name)) \<Longrightarrow>
    path_chain s parent names \<Longrightarrow> path_chain s inode (names @ [name])"

inductive_cases path_chain_cases: "path_chain s inode names"

lemma get_path_loop_stop: "\<not> inode > ROOT_HANDLE \<Longrightarrow> get_path_loop s inode parts = Some (Val (STATUS_OK, inode, parts))"
  by (simp add: get_path_loop.simps)

lemma get_path_loop_step:
  "inode > ROOT_HANDLE \<Longrightarrow> fm_getPathInfo 0 inode s = Val (STATUS_OK, Some (parent, name)) \<Longrightarrow>
   get_path_loop s inode parts = get_path_loop s parent (name # parts)"
  by (subst get_path_loop.simps) simp

lemma get_path_loop_chain:
  "path_chain s inode names \<Longrightarrow> get_path_loop s inode parts = Some (Val (STATUS_OK, ROOT_HANDLE, names @ parts))"
proof (induction arbitrary: parts rule: path_chain.induct)
  case root
  then show ?case by (simp add: get_path_loop_stop)
next
  case (child inode parent name names)
  then show ?case by (simp add: get_path_loop_step)
qed

definition parents_fall :: "'z fsys_scheme \<Rightarrow> (u64 \<Rightarrow> nat) \<Rightarrow> bool" where
  "parents_fall s rank \<longleftrightarrow> (\<forall>i p n. i > ROOT_HANDLE \<longrightarrow>
     fm_getPathInfo 0 i s = Val (STATUS_OK, Some (p, n)) \<longrightarrow> rank p < rank i)"

text \<open>
  A measure that falls from an inode to its parent makes the loop return, on inodes whose path is
  missing or damaged as well.
\<close>

lemma get_path_loop_returns:
  assumes "parents_fall s rank"
  shows "\<exists>r. get_path_loop s inode parts = Some r"
proof (induction "rank inode" arbitrary: inode parts rule: less_induct)
  case less
  show ?case
  proof (cases "inode > ROOT_HANDLE")
    case False
    then show ?thesis by (simp add: get_path_loop_stop)
  next
    case True
    show ?thesis
    proof (cases "\<exists>p n. fm_getPathInfo 0 inode s = Val (STATUS_OK, Some (p, n))")
      case True': True
      then obtain p n where p: "fm_getPathInfo 0 inode s = Val (STATUS_OK, Some (p, n))" by blast
      have "rank p < rank inode" using assms True p by (simp add: parents_fall_def)
      from less [OF this] show ?thesis by (simp add: get_path_loop_step [OF True p])
    next
      case False
      with True show ?thesis
        by (subst get_path_loop.simps) (auto simp: tbind_def split: outcome.splits option.splits)
    qed
  qed
qed

text \<open>Names with a slash between each and the next, which is what the loop of \<^verbatim>\<open>GetPath\<close> builds.\<close>

fun slash_join :: "string list \<Rightarrow> string" where
  "slash_join [] = []"
| "slash_join [name] = name"
| "slash_join (name # names) = name @ ''/'' @ slash_join names"

lemma join_path_slash: "join_path names = slash_join names"
  by (induction names rule: slash_join.induct) (simp_all add: join_path_def butlast_append)

text \<open>
  C14. Building the path of an inode ends whenever the parents recorded in the metadata do not run
  in a circle, that is, when some measure falls from every inode to its parent; and for an inode
  whose parents lead to the root the result is the names on the way, with slashes between them.
\<close>

theorem path_lookup_returns:
  assumes "parents_fall s rank"
  shows "\<exists>r. GetPath s inode = Some r \<and>
    (\<forall>names. path_chain s inode names \<longrightarrow> r = Val (STATUS_OK, slash_join names))"
proof -
  obtain r where r: "get_path_loop s inode [] = Some r" using get_path_loop_returns [OF assms] by blast
  then obtain r' where r': "GetPath s inode = Some r'" by (cases r) (auto simp: GetPath_def)
  moreover have "r' = Val (STATUS_OK, slash_join names)" if "path_chain s inode names" for names
    using r' get_path_loop_chain [OF that, of "[]"] by (simp add: GetPath_def join_path_slash)
  ultimately show ?thesis by blast
qed

text \<open>With a circle of parents the loop does not end.\<close>

definition parents_circle :: "'z fsys_scheme \<Rightarrow> u64 set \<Rightarrow> bool" where
  "parents_circle s C \<longleftrightarrow> (\<forall>i \<in> C. i > ROOT_HANDLE \<and>
     (\<exists>p \<in> C. \<exists>n. fm_getPathInfo 0 i s = Val (STATUS_OK, Some (p, n))))"

lemma get_path_loop_circle:
  assumes "parents_circle s C"
  shows "inode \<in> C \<Longrightarrow> get_path_loop s inode parts = None"
proof -
  have "get_path_loop s inode parts = Some r \<Longrightarrow> s = s \<longrightarrow> inode \<notin> C" for r
  proof (rule get_path_loop.raw_induct [of "\<lambda>s' inode parts r. s' = s \<longrightarrow> inode \<notin> C"])
    fix f s' inode' parts' r'
    assume IH: "\<And>s' inode parts y. f s' inode parts = Some y \<Longrightarrow> s' = s \<longrightarrow> inode \<notin> C"
      and body: "(if ROOT_HANDLE < inode'
          then tbind (Some (fm_getPathInfo 0 inode' s')) (\<lambda>(status, info).
                 if status \<noteq> STATUS_OK then Some (Val (status, inode', parts'))
                 else case info of None \<Rightarrow> Some Undef
                      | Some (parent_handle, path_part) \<Rightarrow> f s' parent_handle (path_part # parts'))
          else Some (Val (STATUS_OK, inode', parts'))) = Some r'"
    show "s' = s \<longrightarrow> inode' \<notin> C"
    proof (intro impI notI)
      assume "s' = s" "inode' \<in> C"
      then obtain p n where "ROOT_HANDLE < inode'" "p \<in> C" "fm_getPathInfo 0 inode' s = Val (STATUS_OK, Some (p, n))"
        using assms unfolding parents_circle_def by blast
      with body \<open>s' = s\<close> IH [of s p] show False by simp
    qed
  qed
  then show "inode \<in> C \<Longrightarrow> get_path_loop s inode parts = None" by (cases "get_path_loop s inode parts") auto
qed

section \<open>Paths of stored files\<close>

lemma fm_getPathInfo_stored:
  assumes "reliable (s_kv s)" "kv_data (s_kv s) (inode_key i) = Some (meta_encode m)" "meta_wf m"
    and "m_fsId m = fs" "m_handle m = i"
  shows "fm_getPathInfo fs i s = obind (getPathInfo m) (\<lambda>info. Val (STATUS_OK, Some info))"
  using assms
  by (simp add: fm_getPathInfo_def file_open_def readFromLog_def kv_simps codec_simps)

lemma fm_getPathInfo_missing:
  "reliable (s_kv s) \<Longrightarrow> kv_data (s_kv s) (inode_key i) = None \<Longrightarrow>
   fm_getPathInfo fs i s = Val (STATUS_OBJECT_DOESNT_EXIST, None)"
  by (simp add: fm_getPathInfo_def file_open_def readFromLog_def kv_simps)

text \<open>Directory 2 in the root, file 3 in it.\<close>

definition sample_meta :: "u64 \<Rightarrow> u64 \<Rightarrow> string \<Rightarrow> LogFSMetaData" where
  "sample_meta i parent nm = (new_LogFSMetaData 0 8192)\<lparr>m_handle := i, m_parentHandle := parent,
     m_name := nm @ replicate (NAME_MAX - length nm) NUL\<rparr>"

definition sample_tree :: fsys where
  "sample_tree = new_FileSystemManager (empty_kvs\<lparr>kv_data := (\<lambda>_. None)
     (inode_key 2 := Some (meta_encode (sample_meta 2 1 ''d'')),
      inode_key 3 := Some (meta_encode (sample_meta 3 2 ''f'')))\<rparr>)"

lemma sample_tree_info:
  "fm_getPathInfo 0 2 sample_tree = Val (STATUS_OK, Some (1, ''d''))"
  "fm_getPathInfo 0 3 sample_tree = Val (STATUS_OK, Some (2, ''f''))"
  "i \<noteq> 2 \<Longrightarrow> i \<noteq> 3 \<Longrightarrow> fm_getPathInfo 0 i sample_tree = Val (STATUS_OBJECT_DOESNT_EXIST, None)"
proof -
  have info: "getPathInfo (sample_meta i p [c]) = Val (p, [c])" "meta_wf (sample_meta i p [c])" if "c \<noteq> NUL" for i p c
    using that by (simp_all add: sample_meta_def getPathInfo_def c_str_def meta_wf_def NAME_MAX_def numeral_eq_Suc)
  have rel: "reliable (s_kv sample_tree)"
    by (simp add: sample_tree_def new_FileSystemManager_def reliable_def empty_kvs_def)
  have data: "kv_data (s_kv sample_tree) (inode_key 2) = Some (meta_encode (sample_meta 2 1 ''d''))"
    "kv_data (s_kv sample_tree) (inode_key 3) = Some (meta_encode (sample_meta 3 2 ''f''))"
    "i \<noteq> 2 \<Longrightarrow> i \<noteq> 3 \<Longrightarrow> kv_data (s_kv sample_tree) (inode_key i) = None"
    by (simp_all add: sample_tree_def new_FileSystemManager_def key_simps)
  show "fm_getPathInfo 0 2 sample_tree = Val (STATUS_OK, Some (1, ''d''))"
    "fm_getPathInfo 0 3 sample_tree = Val (STATUS_OK, Some (2, ''f''))"
    using fm_getPathInfo_stored [OF rel data(1) info(2)] fm_getPathInfo_stored [OF rel data(2) info(2)]
    by (simp_all add: info(1)) (simp_all add: sample_meta_def new_LogFSMetaData_def)
  show "i \<noteq> 2 \<Longrightarrow> i \<noteq> 3 \<Longrightarrow> fm_getPathInfo 0 i sample_tree = Val (STATUS_OBJECT_DOESNT_EXIST, None)"
    using fm_getPathInfo_missing [OF rel data(3)] by simp
qed

lemma sample_tree_parents: "parents_fall sample_tree unat"
proof -
  have "unat p < unat i" if "fm_getPathInfo 0 i sample_tree = Val (STATUS_OK, Some (p, n))" for i p n
    using that sample_tree_info by (cases "i = 2"; cases "i = 3") auto
  then show ?thesis by (simp add: parents_fall_def)
qed

theorem path_lookup_returns_witness: "GetPath sample_tree 3 = Some (Val (STATUS_OK, ''d/f''))"
proof -
  have "path_chain sample_tree 2 ([] @ [''d''])"
    by (rule path_chain.child [OF _ sample_tree_info(1)]) (use path_chain.root [of sample_tree] in \<open>simp_all add: ROOT_HANDLE_def\<close>)
  then have "path_chain sample_tree 3 [''d'', ''f'']"
    using path_chain.child [OF _ sample_tree_info(2), of "[''d'']"] by (simp add: ROOT_HANDLE_def)
  with path_lookup_returns [OF sample_tree_parents, of 3] show ?thesis by (auto simp: join_path_def)
qed

end
