(* ===== verification/SegmentSpec.thy ===== *)
theory SegmentSpec
  imports Persister
begin

text \<open>
  What a segment holds after a batch of inodes was added to it: on a host whose files and
  commands work, every regular file of the batch is stored under its path with the bytes it has
  in the file system, the index finds it, and the file system itself is unchanged.
\<close>

section \<open>Inodes of the file system\<close>

definition opened :: "u64 \<Rightarrow> u64 \<Rightarrow> LogFSMetaData \<Rightarrow> LogFSFile" where
  "opened fs ino m = (default_LogFSFile fs ino)\<lparr>f_meta := m\<rparr>"

definition meta_mode :: "LogFSMetaData \<Rightarrow> u32" where
  "meta_mode m = ModeFromMeta (m_type m) (m_protection m)"

text \<open>A regular file with its contents; an inode that is something else; no inode.\<close>

definition holds_file :: "u64 \<Rightarrow> 'z fsys_scheme \<Rightarrow> u64 \<Rightarrow> string \<Rightarrow> bool" where
  "holds_file fs s ino c \<longleftrightarrow> (\<exists>m. file_ok (opened fs ino m, s_kv s) \<and> S_ISREG (meta_mode m) \<and>
     content (opened fs ino m, s_kv s) = c)"

definition holds_other :: "u64 \<Rightarrow> 'z fsys_scheme \<Rightarrow> u64 \<Rightarrow> bool" where
  "holds_other fs s ino \<longleftrightarrow> reliable (s_kv s) \<and>
     (\<exists>m. inode_inv (opened fs ino m, s_kv s) \<and> \<not> S_ISREG (meta_mode m))"

definition holds_nothing :: "'z fsys_scheme \<Rightarrow> u64 \<Rightarrow> bool" where
  "holds_nothing s ino \<longleftrightarrow> reliable (s_kv s) \<and> kv_data (s_kv s) (inode_key ino) = None"

lemma opened_simps [simp]:
  "f_meta (opened fs ino m) = m" "f_handle (opened fs ino m) = ino" "f_fsId (opened fs ino m) = fs"
  by (simp_all add: opened_def)

lemma stat_stored:
  "reliable kv \<Longrightarrow> inode_inv (opened fs ino m, kv) \<Longrightarrow>
   file_stat b (default_LogFSFile fs ino, kv) = Val (STATUS_OK, stat_of_meta m, opened fs ino m, kv)"
  by (simp add: file_stat_def inode_inv_def readFromLog_def kv_simps codec_simps opened_def)

lemma open_stored:
  "reliable kv \<Longrightarrow> inode_inv (opened fs ino m, kv) \<Longrightarrow>
   file_open (default_LogFSFile fs ino, kv) = Val (True, opened fs ino m, kv)"
  by (simp add: file_open_def inode_inv_def readFromLog_def kv_simps codec_simps opened_def)

lemma statFile_file:
  assumes "reliable (s_kv s)" "inode_inv (opened fs ino m, s_kv s)" "S_ISREG (meta_mode m)"
  shows "statFile env fs ino b s = Val (STATUS_OK, stat_of_meta m)"
  using assms by (simp add: statFile_def stat_stored meta_mode_def) (simp add: stat_of_meta_def)

lemma statFile_other:
  assumes "holds_other fs s ino"
  shows "\<exists>st. statFile env fs ino b s = Val (STATUS_OK, st) \<and> \<not> S_ISREG (st_mode st) \<and> S_ISDIR (st_mode st)"
proof -
  obtain m where m: "reliable (s_kv s)" "inode_inv (opened fs ino m, s_kv s)" "\<not> S_ISREG (meta_mode m)"
    using assms by (auto simp: holds_other_def)
  have "\<not> S_ISREG (st_mode (stat_of_meta m))" using m(3) by (simp add: stat_of_meta_def meta_mode_def)
  then show ?thesis
    by (simp add: statFile_def stat_stored [OF m(1,2)] S_ISREG_def S_ISDIR_def ifmt_defs Let_def)
qed

lemma statFile_nothing:
  "holds_nothing s ino \<Longrightarrow> \<exists>st. statFile env fs ino b s = Val (STATUS_OBJECT_DOESNT_EXIST, st)"
  by (simp add: holds_nothing_def statFile_def file_stat_def readFromLog_def kv_simps Let_def)

lemma readFile_file:
  assumes "file_ok (opened fs ino m, s_kv s)"
  shows "readFile env tier fs ino 0 (word_of_nat (f_size (opened fs ino m))) s =
    Val (STATUS_OK, word_of_nat (f_size (opened fs ino m)), content (opened fs ino m, s_kv s), s)"
proof -
  let ?t = "opened fs ino m"
  have inv: "reliable (s_kv s)" "inode_inv (?t, s_kv s)" "f_size ?t < 2 ^ 63"
    using assms by (simp_all add: file_ok_def data_inv_def)
  have "file_read env tier (int 0) (word_of_nat (f_size ?t)) True (?t, s_kv s) =
      Val (STATUS_OK, word_of_nat (f_size ?t), content (?t, s_kv s), ?t, s_kv s)"
    using file_ok_read [OF assms, of 0 "f_size ?t"] inv(3) by simp
  then show ?thesis by (simp add: readFile_def open_stored [OF inv(1,2)])
qed

section \<open>Adding an inode\<close>

text \<open>The file a segment keeps for a path.\<close>

definition staged :: "Segment \<Rightarrow> string \<Rightarrow> string" where
  "staged sg path = sg_temp_dir sg @ ''/'' @ path"

text \<open>The host serves the working directory of a segment.\<close>

definition stages :: "'w host \<Rightarrow> ('w \<Rightarrow> string \<Rightarrow> string option) \<Rightarrow> (string \<Rightarrow> bool) \<Rightarrow> bool" where
  "stages H files area \<longleftrightarrow> files_work H files area \<and>
     (\<forall>d. CHR 0x27 \<notin> set d \<longrightarrow> quiet H files (MkdirPath_cmd d))"

lemma MkdirPath_stages:
  "stages H files area \<Longrightarrow> CHR 0x27 \<notin> set d \<Longrightarrow> \<exists>w'. MkdirPath H d w = (0, w') \<and> files w' = files w"
  by (simp add: MkdirPath_def stages_def quiet_system)

lemma set_dir_part: "set (dir_part p) \<subseteq> set p"
proof -
  have "set (tl (dropWhile P (rev p))) \<subseteq> set p" for P
    by (metis list.set_sel(2) set_dropWhileD set_rev subsetI tl_Nil)
  then show ?thesis by (auto simp: dir_part_def)
qed

lemma Add_file:
  assumes "stages H files area" "se_host E = H" "holds_file (sg_fs_id sg) s ino c"
    and "area (staged sg path)" "CHR 0x27 \<notin> set (staged sg path)"
  shows "\<exists>w'. Segment_Add E ino path WHOLE_FILE sg s w =
      Val (0, sg\<lparr>sg_inode_paths := smap_insert (sint ino) path (sg_inode_paths sg)\<rparr>, s, w') \<and>
    files w' = (files w)(staged sg path := Some c)"
proof -
  obtain m where m: "file_ok (opened (sg_fs_id sg) ino m, s_kv s)" "S_ISREG (meta_mode m)"
    "content (opened (sg_fs_id sg) ino m, s_kv s) = c"
    using assms(3) by (auto simp: holds_file_def)
  let ?t = "opened (sg_fs_id sg) ino m" and ?p = "staged sg path"
  have inv: "reliable (s_kv s)" "inode_inv (?t, s_kv s)" "f_size ?t < 2 ^ 63"
    using m(1) by (simp_all add: file_ok_def data_inv_def)
  have size: "st_size (stat_of_meta m) = int (f_size ?t)"
    using sint_f_size [OF inv(3)] by (simp add: stat_of_meta_def)
  have reg: "S_ISREG (st_mode (stat_of_meta m))" using m(2) by (simp add: stat_of_meta_def meta_mode_def)
  have len: "length c = f_size ?t" using length_content [of ?t "s_kv s"] m(3) by simp
  obtain w1 where w1: "MkdirPath H (dir_part ?p) w = (0, w1)" "files w1 = files w"
    using MkdirPath_stages [OF assms(1), of "dir_part ?p"] assms(5) set_dir_part [of ?p] by blast
  obtain w2 w3 where w3: "hs_create H ?p (st_mode (stat_of_meta m)) w1 = (True, w2)" "hs_write H ?p c w2 = (True, w3)"
    "files w3 = (files w1)(?p := Some c)"
    using files_work_store [of H files area ?p] assms(1,4) by (metis stages_def)
  have "CopyFile E ino path (stat_of_meta m) sg s w = Val (0, s, w3)"
    using w1(1) w3(1,2) assms(2)
    by (simp add: CopyFile_def store_copy_def size readFile_file [OF m(1)] m(3) len staged_def)
  then have "Segment_Add E ino path WHOLE_FILE sg s w =
      Val (0, sg\<lparr>sg_inode_paths := smap_insert (sint ino) path (sg_inode_paths sg)\<rparr>, s, w3)"
    by (simp add: Segment_Add_def statFile_file [OF inv(1,2) m(2)] reg)
  with w1(2) w3(3) show ?thesis by simp
qed

lemma Add_other:
  assumes "stages H files area" "se_host E = H" "holds_other (sg_fs_id sg) s ino" "CHR 0x27 \<notin> set (staged sg path)"
  shows "\<exists>w'. Segment_Add E ino path WHOLE_FILE sg s w =
      Val (0, sg\<lparr>sg_inode_paths := smap_insert (sint ino) path (sg_inode_paths sg)\<rparr>, s, w') \<and> files w' = files w"
proof -
  obtain w' where w': "MkdirPath H (staged sg path) w = (0, w')" "files w' = files w"
    using MkdirPath_stages [OF assms(1,4)] by blast
  obtain st where "statFile (se_env E) (sg_fs_id sg) ino (se_uninit E) s = Val (STATUS_OK, st)"
    "\<not> S_ISREG (st_mode st)" "S_ISDIR (st_mode st)"
    using statFile_other [OF assms(3)] by blast
  with w' assms(2) show ?thesis by (simp add: Segment_Add_def CopyDir_def staged_def)
qed

lemma Add_nothing:
  assumes "holds_nothing s ino"
  shows "\<exists>err. Segment_Add E ino path WHOLE_FILE sg s w = Val (err, sg, s, w)"
proof -
  obtain st where "statFile (se_env E) (sg_fs_id sg) ino (se_uninit E) s = Val (STATUS_OBJECT_DOESNT_EXIST, st)"
    using statFile_nothing [OF assms] by blast
  then show ?thesis by (simp add: Segment_Add_def StatusToErrno_def ENOENT_def)
qed

section \<open>Adding a batch\<close>

text \<open>
  What a batch may consist of: inodes that are files, something else or deleted, with paths that
  the working directory can take, and no two files with one path.
\<close>

definition batch_ok :: "(string \<Rightarrow> bool) \<Rightarrow> string \<Rightarrow> u64 \<Rightarrow> 'z fsys_scheme \<Rightarrow> (u64, string) smap \<Rightarrow> u64 list \<Rightarrow> bool" where
  "batch_ok area dir fs s paths inos \<longleftrightarrow> distinct inos \<and>
     (\<forall>i \<in> set inos. (\<exists>c. holds_file fs s i c) \<or> holds_other fs s i \<or> holds_nothing s i) \<and>
     (\<forall>i \<in> set inos. \<forall>p. smap_find paths i = Some p \<longrightarrow>
        area (dir @ ''/'' @ p) \<and> CHR 0x27 \<notin> set (dir @ ''/'' @ p)) \<and>
     (\<forall>i \<in> set inos. \<forall>j \<in> set inos. \<forall>p c d. smap_find paths i = Some p \<longrightarrow> smap_find paths j = Some p \<longrightarrow>
        holds_file fs s i c \<longrightarrow> holds_file fs s j d \<longrightarrow> i = j)"

lemma batch_ok_Cons: "batch_ok area dir fs s paths (i # inos) \<Longrightarrow> batch_ok area dir fs s paths inos"
  unfolding batch_ok_def by (simp add: ball_Un)

lemma holds_exclusive:
  "holds_file fs s i c \<Longrightarrow> \<not> holds_nothing s i" "holds_other fs s i \<Longrightarrow> \<not> holds_nothing s i"
  by (auto simp: holds_file_def holds_other_def holds_nothing_def file_ok_def inode_inv_def)

lemma holds_file_unique:
  assumes "holds_file fs s i c" "holds_file fs s i d"
  shows "c = d"
proof -
  obtain m where m: "file_ok (opened fs i m, s_kv s)" "content (opened fs i m, s_kv s) = c"
    using assms(1) by (auto simp: holds_file_def)
  obtain m' where m': "file_ok (opened fs i m', s_kv s)" "content (opened fs i m', s_kv s) = d"
    using assms(2) by (auto simp: holds_file_def)
  have inv: "reliable (s_kv s)" "inode_inv (opened fs i m, s_kv s)" "inode_inv (opened fs i m', s_kv s)"
    using m(1) m'(1) by (simp_all add: file_ok_def data_inv_def)
  have "opened fs i m = opened fs i m'" using open_stored [OF inv(1,2)] open_stored [OF inv(1,3)] by simp
  with m(2) m'(2) show ?thesis by simp
qed

text \<open>One step of the loop.\<close>

lemma add_step:
  assumes "stages H files area" "se_host E = H" "batch_ok area (sg_temp_dir sg) (sg_fs_id sg) s paths (i # inos)"
    and "smap_find paths i = Some p"
  shows "\<exists>err ps w'. Segment_Add E i p WHOLE_FILE sg s w = Val (err, sg\<lparr>sg_inode_paths := ps\<rparr>, s, w') \<and>
    ps = (if holds_nothing s i then sg_inode_paths sg else smap_insert (sint i) p (sg_inode_paths sg)) \<and>
    (\<forall>c. holds_file (sg_fs_id sg) s i c \<longrightarrow> files w' = (files w)(staged sg p := Some c)) \<and>
    ((\<forall>c. \<not> holds_file (sg_fs_id sg) s i c) \<longrightarrow> files w' = files w)"
proof -
  have path: "area (staged sg p)" "CHR 0x27 \<notin> set (staged sg p)"
    using assms(3,4) by (simp_all add: batch_ok_def staged_def)
  consider (regular) c where "holds_file (sg_fs_id sg) s i c"
    | (other) "holds_other (sg_fs_id sg) s i" "\<forall>c. \<not> holds_file (sg_fs_id sg) s i c"
    | (gone) "holds_nothing s i" "\<forall>c. \<not> holds_file (sg_fs_id sg) s i c"
    using assms(3) unfolding batch_ok_def by auto
  then show ?thesis
  proof cases
    case regular
    obtain w' where w': "Segment_Add E i p WHOLE_FILE sg s w =
        Val (0, sg\<lparr>sg_inode_paths := smap_insert (sint i) p (sg_inode_paths sg)\<rparr>, s, w')"
      "files w' = (files w)(staged sg p := Some c)"
      using Add_file [OF assms(1,2) regular path] by blast
    have "holds_file (sg_fs_id sg) s i d \<longleftrightarrow> d = c" for d using holds_file_unique [OF _ regular] regular by blast
    then show ?thesis
      using w' holds_exclusive(1) [OF regular]
      by (intro exI [of _ 0] exI [of _ "smap_insert (sint i) p (sg_inode_paths sg)"] exI [of _ w']) auto
  next
    case other
    obtain w' where w': "Segment_Add E i p WHOLE_FILE sg s w =
        Val (0, sg\<lparr>sg_inode_paths := smap_insert (sint i) p (sg_inode_paths sg)\<rparr>, s, w')" "files w' = files w"
      using Add_other [OF assms(1,2) other(1) path(2)] by blast
    then show ?thesis
      using other(2) holds_exclusive(2) [OF other(1)]
      by (intro exI [of _ 0] exI [of _ "smap_insert (sint i) p (sg_inode_paths sg)"] exI [of _ w']) auto
  next
    case gone
    obtain err where "Segment_Add E i p WHOLE_FILE sg s w = Val (err, sg, s, w)"
      using Add_nothing [OF gone(1), of E p sg w] by (elim exE)
    then show ?thesis
      using gone by (intro exI [of _ err] exI [of _ "sg_inode_paths sg"] exI [of _ w]) auto
  qed
qed

text \<open>
  What the loop has done: the inodes of the batch that exist are listed with their paths, the
  files among them are in the working directory with their contents, and nothing else there has
  changed.
\<close>

definition batch_added ::
  "('w \<Rightarrow> string \<Rightarrow> string option) \<Rightarrow> string \<Rightarrow> u64 \<Rightarrow> 'z fsys_scheme \<Rightarrow> (u64, string) smap \<Rightarrow> u64 list \<Rightarrow>
   (int, string) smap \<Rightarrow> 'w \<Rightarrow> (int, string) smap \<Rightarrow> 'w \<Rightarrow> bool" where
  "batch_added files dir fs s paths inos ps w ps' w' \<longleftrightarrow> smap_ok ps' \<and>
    (\<forall>i. map_of ps' (sint i) = (if i \<in> set inos \<and> \<not> holds_nothing s i \<and> smap_find paths i \<noteq> None
       then smap_find paths i else map_of ps (sint i))) \<and>
    (\<forall>i \<in> set inos. \<forall>p c. smap_find paths i = Some p \<longrightarrow> holds_file fs s i c \<longrightarrow> files w' (dir @ ''/'' @ p) = Some c) \<and>
    (\<forall>q. (\<forall>i \<in> set inos. \<forall>p c. smap_find paths i = Some p \<longrightarrow> holds_file fs s i c \<longrightarrow> q \<noteq> dir @ ''/'' @ p) \<longrightarrow>
       files w' q = files w q)"

lemma batch_added_Nil: "smap_ok ps \<Longrightarrow> batch_added files dir fs s paths [] ps w ps w"
  by (simp add: batch_added_def)

lemma batch_added_skip:
  "smap_find paths i = None \<Longrightarrow> batch_added files dir fs s paths inos ps w ps' w' \<Longrightarrow>
   batch_added files dir fs s paths (i # inos) ps w ps' w'"
  unfolding batch_added_def by (simp only: list.set insert_iff ball_simps) auto

lemma batch_added_Cons:
  assumes "batch_ok area dir fs s paths (i # inos)" "smap_find paths i = Some p" "smap_ok ps"
    and "ps1 = (if holds_nothing s i then ps else smap_insert (sint i) p ps)"
    and "\<forall>c. holds_file fs s i c \<longrightarrow> files w1 = (files w)(dir @ ''/'' @ p := Some c)"
    and "(\<forall>c. \<not> holds_file fs s i c) \<longrightarrow> files w1 = files w"
    and "batch_added files dir fs s paths inos ps1 w1 ps2 w2"
  shows "batch_added files dir fs s paths (i # inos) ps w ps2 w2"
proof -
  have find: "map_of ps1 (sint j) = (if j = i \<and> \<not> holds_nothing s i then Some p else map_of ps (sint j))" for j
    using assms(4) smap.lookup_insert [OF assms(3), of "sint i" p "sint j"]
    by (auto simp: smap_find_def dest: signed_word_eqI)
  have here: "files w2 (dir @ ''/'' @ p) = Some c" if "holds_file fs s i c" for c
  proof -
    have "i \<notin> set inos" using assms(1) by (simp add: batch_ok_def)
    then have "dir @ ''/'' @ p \<noteq> dir @ ''/'' @ q"
      if "j \<in> set inos" "smap_find paths j = Some q" "holds_file fs s j d" for j q d
      using assms(1,2) that \<open>holds_file fs s i c\<close> unfolding batch_ok_def by fastforce
    with assms(7) have "files w2 (dir @ ''/'' @ p) = files w1 (dir @ ''/'' @ p)" unfolding batch_added_def by blast
    with assms(5) that show ?thesis by simp
  qed
  have frame: "files w1 q = files w q" if "\<forall>c. holds_file fs s i c \<longrightarrow> q \<noteq> dir @ ''/'' @ p" for q
    using that assms(5,6) by (cases "\<exists>c. holds_file fs s i c") auto
  show ?thesis
    unfolding batch_added_def
  proof (intro conjI allI ballI impI)
    show "smap_ok ps2" using assms(7) by (simp add: batch_added_def)
    fix j
    show "map_of ps2 (sint j) = (if j \<in> set (i # inos) \<and> \<not> holds_nothing s j \<and> smap_find paths j \<noteq> None
        then smap_find paths j else map_of ps (sint j))"
      using assms(2,7) find [of j] by (auto simp: batch_added_def)
  next
    fix j q c
    assume "j \<in> set (i # inos)" "smap_find paths j = Some q" "holds_file fs s j c"
    then show "files w2 (dir @ ''/'' @ q) = Some c" using assms(2,7) here by (auto simp: batch_added_def)
  next
    fix q
    assume *: "\<forall>j \<in> set (i # inos). \<forall>p c. smap_find paths j = Some p \<longrightarrow> holds_file fs s j c \<longrightarrow> q \<noteq> dir @ ''/'' @ p"
    then have "files w2 q = files w1 q" using assms(7) unfolding batch_added_def by (meson list.set_intros(2))
    also have "\<dots> = files w q" using * assms(2) by (intro frame) auto
    finally show "files w2 q = files w q" .
  qed
qed

lemma add_inodes_spec:
  assumes "stages H files area" "se_host E = H" "batch_ok area (sg_temp_dir sg) (sg_fs_id sg) s paths inos"
    and "smap_ok (sg_inode_paths sg)"
  shows "\<exists>ps w'. add_inodes E paths inos sg s w = Val (sg\<lparr>sg_inode_paths := ps\<rparr>, s, w') \<and>
    batch_added files (sg_temp_dir sg) (sg_fs_id sg) s paths inos (sg_inode_paths sg) w ps w'"
  using assms(3,4)
proof (induction inos arbitrary: sg w)
  case Nil
  then show ?case by (intro exI [of _ "sg_inode_paths sg"]) (auto simp: batch_added_Nil)
next
  case (Cons i inos)
  note batch = Cons.prems(1)
  show ?case
  proof (cases "smap_find paths i")
    case None
    obtain ps w' where "add_inodes E paths inos sg s w = Val (sg\<lparr>sg_inode_paths := ps\<rparr>, s, w')"
      "batch_added files (sg_temp_dir sg) (sg_fs_id sg) s paths inos (sg_inode_paths sg) w ps w'"
      using Cons.IH [OF batch_ok_Cons [OF batch] Cons.prems(2)] by blast
    with None batch_added_skip [OF None] show ?thesis by (intro exI [of _ ps] exI [of _ w']) simp
  next
    case (Some p)
    obtain err ps w1 where step: "Segment_Add E i p WHOLE_FILE sg s w = Val (err, sg\<lparr>sg_inode_paths := ps\<rparr>, s, w1)"
      "ps = (if holds_nothing s i then sg_inode_paths sg else smap_insert (sint i) p (sg_inode_paths sg))"
      "\<forall>c. holds_file (sg_fs_id sg) s i c \<longrightarrow> files w1 = (files w)(staged sg p := Some c)"
      "(\<forall>c. \<not> holds_file (sg_fs_id sg) s i c) \<longrightarrow> files w1 = files w"
      using add_step [OF assms(1,2) batch Some] by blast
    have "smap_ok ps" using step(2) Cons.prems(2) smap.valid_insert by auto
    then obtain ps2 w2 where rest: "add_inodes E paths inos (sg\<lparr>sg_inode_paths := ps\<rparr>) s w1 = Val (sg\<lparr>sg_inode_paths := ps2\<rparr>, s, w2)"
      "batch_added files (sg_temp_dir sg) (sg_fs_id sg) s paths inos ps w1 ps2 w2"
      using Cons.IH [of "sg\<lparr>sg_inode_paths := ps\<rparr>" w1] batch_ok_Cons [OF batch] by auto
    have "batch_added files (sg_temp_dir sg) (sg_fs_id sg) s paths (i # inos) (sg_inode_paths sg) w ps2 w2"
      by (rule batch_added_Cons [OF batch Some Cons.prems(2) step(2) _ step(4) rest(2)])
        (use step(3) in \<open>simp add: staged_def\<close>)
    with rest(1) step(1) Some show ?thesis by (intro exI [of _ ps2] exI [of _ w2]) simp
  qed
qed

section \<open>A sample\<close>

text \<open>A file of file system 0 in the root directory, with three bytes in it.\<close>

definition abc_meta :: LogFSMetaData where
  "abc_meta = (new_LogFSMetaData 0 8192)\<lparr>m_handle := 5, m_type := LOGFS_IFREG, m_fileTotalSize := 3, m_parentHandle := 1,
     m_name := CHR ''f'' # replicate (NAME_MAX - 1) NUL\<rparr>"

definition abc_store :: fsys where
  "abc_store = new_FileSystemManager (empty_kvs\<lparr>kv_data := (\<lambda>_. None)
     (inode_key 5 := Some (meta_encode abc_meta), chunk_key 5 0 := Some ''abc'')\<rparr>)"

lemma abc_meta_simps:
  "meta_wf abc_meta" "m_handle abc_meta = 5" "m_fsId abc_meta = 0" "m_fileInitialSize abc_meta = 0" "m_fileChunkSize abc_meta = 8192"
  "m_fileTotalSize abc_meta = 3" "m_evictionState abc_meta = ES_RESIDENT" "getPathInfo abc_meta = Val (1, ''f'')"
  "S_ISREG (meta_mode abc_meta)"
  by (simp_all add: abc_meta_def new_LogFSMetaData_def meta_wf_def NAME_MAX_def getPathInfo_def c_str_def numeral_eq_Suc
      meta_mode_def ModeFromMeta_def S_ISREG_def ifmt_defs prot_bits_def no_prot_def no_perm_def flag_def)

lemma abc_file: "file_ok (opened 0 5 abc_meta, s_kv abc_store)" "content (opened 0 5 abc_meta, s_kv abc_store) = ''abc''"
proof -
  have rel: "reliable (s_kv abc_store)" by (simp add: abc_store_def new_FileSystemManager_def reliable_def empty_kvs_def)
  have chunk: "chunk_val (s_kv abc_store) 5 c = (if c = 0 then ''abc'' else [])" if "c < 2 ^ 63" for c
    using that by (simp add: chunk_val_def abc_store_def new_FileSystemManager_def key_simps)
  have "chunks_within (s_kv abc_store) 5 8192 3" by (simp add: chunks_within_def chunk)
  moreover have "kv_data (s_kv abc_store) (inode_key 5) = Some (meta_encode abc_meta)"
    by (simp add: abc_store_def new_FileSystemManager_def key_simps)
  ultimately show "file_ok (opened 0 5 abc_meta, s_kv abc_store)"
    using rel by (simp add: file_ok_def data_inv_def inode_inv_def resident_def abc_meta_simps f_size_def f_csz_def)
  show "content (opened 0 5 abc_meta, s_kv abc_store) = ''abc''"
    by (simp add: content_def fbyte_def f_size_def f_csz_def abc_meta_simps chunk byte_at_def upt_rec)
qed

end
