(* ===== verification/TieringOut.thy ===== *)
theory TieringOut
  imports SegmentSpec Worker
begin

text \<open>
  The tiering-out agent (\<^verbatim>\<open>src/src/tiering/tiering_out_agent.{h,cc}\<close>): the batches of change-log
  entries it turns into segments, how far it has come, its thread and the requests other threads
  make. The loop of \<^verbatim>\<open>Snapshot\<close> may not end: \<open>None\<close> is a call that does not return.
\<close>

section \<open>The inodes of a batch\<close>

text \<open>\<^verbatim>\<open>std::set<uint64_t>\<close>: its elements in ascending order.\<close>

primrec uset_insert :: "u64 \<Rightarrow> u64 list \<Rightarrow> u64 list" where
  "uset_insert x [] = [x]"
| "uset_insert x (y # ys) = (if x < y then x # y # ys else if x = y then y # ys else y # uset_insert x ys)"

definition GetInodes :: "ChangeLogEntry list \<Rightarrow> u64 list" where
  "GetInodes log_entries =
     fold (\<lambda>log_ent unique_inodes. case e_inode_num log_ent of
             Some inode_num \<Rightarrow> uset_insert (word_of_int inode_num) unique_inodes
           | None \<Rightarrow> unique_inodes) log_entries []"

text \<open>Not implemented in the source either.\<close>

definition Compress :: "ChangeLogEntry list \<Rightarrow> ChangeLogEntry list" where
  "Compress log_entries = log_entries"

section \<open>Snapshots\<close>

definition MAX_XID_PER_SEGMENT :: int where
  "MAX_XID_PER_SEGMENT = 1000"

definition set_tiered_out_xid :: "int \<Rightarrow> 'z fsys_scheme \<Rightarrow> 'z fsys_scheme" where
  "set_tiered_out_xid xid s = s\<lparr>s_change_log := map_option (\<lambda>l. l\<lparr>l_tiered_out_xid := xid\<rparr>) (s_change_log s)\<rparr>"

text \<open>
  One pass of the loop. The state is that of the persister: the index manager, the file system
  and the host. \<^verbatim>\<open>back()\<close> of an empty vector is undefined.
\<close>

definition snapshot_pass ::
  "'w segment_env \<Rightarrow> index_codec \<Rightarrow> SegmentFactory \<Rightarrow> (kvs \<Rightarrow> kvs) \<Rightarrow> int \<Rightarrow>
   IndexManager \<times> 'z fsys_scheme \<times> 'w \<Rightarrow> (IndexManager \<times> 'z fsys_scheme \<times> 'w) outcome option" where
  "snapshot_pass E K sf snapshot snapshot_end_xid = (\<lambda>(im, s, w).
     case s_change_log s of
       None \<Rightarrow> Some Undef
     | Some l \<Rightarrow>
         let first_xid = l_tiered_out_xid l + 1;
             last_xid = min (first_xid + MAX_XID_PER_SEGMENT) snapshot_end_xid
         in tbind (Some (FsChangeLog_Read first_xid last_xid l)) (\<lambda>(log_entries, first_xid).
              let log_entries = Compress log_entries;
                  inode_nums = GetInodes log_entries
              in if log_entries = [] then Some Undef
                 else if e_xid (List.last log_entries) = None then Some Abort
                 else let last_xid = entry_xid (List.last log_entries);
                          snapshot_fs_manager = MountSnapshot snapshot s
                      in tbind (Persister_Snapshot E K sf snapshot_fs_manager inode_nums first_xid last_xid (im, s, w))
                           (\<lambda>(_, im, s, w). Some (Val (im, set_tiered_out_xid last_xid s, w)))))"

definition tiered_out_xid :: "'z fsys_scheme \<Rightarrow> int" where
  "tiered_out_xid s = (case s_change_log s of None \<Rightarrow> 0 | Some l \<Rightarrow> l_tiered_out_xid l)"

partial_function (option) snapshot_loop ::
  "'w segment_env \<Rightarrow> index_codec \<Rightarrow> SegmentFactory \<Rightarrow> (kvs \<Rightarrow> kvs) \<Rightarrow> int \<Rightarrow>
   IndexManager \<times> 'z fsys_scheme \<times> 'w \<Rightarrow> (IndexManager \<times> 'z fsys_scheme \<times> 'w) outcome option" where
  "snapshot_loop E K sf snapshot snapshot_end_xid st =
     tbind (snapshot_pass E K sf snapshot snapshot_end_xid st) (\<lambda>st.
       if tiered_out_xid (fst (snd st)) < snapshot_end_xid
       then snapshot_loop E K sf snapshot snapshot_end_xid st
       else Some (Val st))"

definition TieringOut_Snapshot ::
  "'w segment_env \<Rightarrow> index_codec \<Rightarrow> SegmentFactory \<Rightarrow> (kvs \<Rightarrow> kvs) \<Rightarrow>
   IndexManager \<times> 'z fsys_scheme \<times> 'w \<Rightarrow> (IndexManager \<times> 'z fsys_scheme \<times> 'w) outcome option" where
  "TieringOut_Snapshot E K sf snapshot st =
     (case s_change_log (fst (snd st)) of
        None \<Rightarrow> Some Undef
      | Some l \<Rightarrow> snapshot_loop E K sf snapshot (get_last_xid l) st)"

section \<open>The agent\<close>

record TieringOutAgent =
  to_run_thread :: bool
  to_stop_requested :: bool
  to_snapshot_requested :: bool
  to_fs_ids :: "u64 list"

definition new_TieringOutAgent :: TieringOutAgent where
  "new_TieringOutAgent = \<lparr>to_run_thread = False, to_stop_requested = False, to_snapshot_requested = False, to_fs_ids = []\<rparr>"

definition to_SetOptions :: "string \<Rightarrow> TieringOutAgent \<Rightarrow> int \<times> TieringOutAgent" where
  "to_SetOptions options a = (0, a)"

definition to_Start :: "TieringOutAgent \<Rightarrow> int \<times> TieringOutAgent" where
  "to_Start a = (if to_run_thread a then (EINVAL, a)
     else (0, a\<lparr>to_stop_requested := False, to_run_thread := True\<rparr>))"

definition to_RequestStop :: "TieringOutAgent \<Rightarrow> int \<times> TieringOutAgent" where
  "to_RequestStop a = (0, a\<lparr>to_stop_requested := True\<rparr>)"

definition to_RequestSnapshot :: "TieringOutAgent \<Rightarrow> TieringOutAgent" where
  "to_RequestSnapshot a = a\<lparr>to_snapshot_requested := True\<rparr>"

definition to_AddFsId :: "u64 \<Rightarrow> TieringOutAgent \<Rightarrow> TieringOutAgent" where
  "to_AddFsId fs_id a = a\<lparr>to_fs_ids := to_fs_ids a @ [fs_id]\<rparr>"

text \<open>After the thread has ended; joining an agent that was not started fails an assertion.\<close>

definition to_Join :: "TieringOutAgent \<Rightarrow> TieringOutAgent outcome" where
  "to_Join a = expect (to_run_thread a) (Val (a\<lparr>to_run_thread := False\<rparr>))"

text \<open>
  \<^verbatim>\<open>Wait\<close> looks at the progress once a second; \<open>progress n\<close> is what it sees the \<open>n\<close>-th time.
  The wait is given in milliseconds, a 32-bit signed number.
\<close>

function to_Wait :: "(nat \<Rightarrow> int) \<Rightarrow> nat \<Rightarrow> int \<Rightarrow> int \<Rightarrow> int" where
  "to_Wait progress n flushed_to_xid millis =
     (if progress n < flushed_to_xid \<and> \<not> millis \<le> 0
      then to_Wait progress (Suc n) flushed_to_xid (millis - 1000)
      else progress n)"
  by pat_completeness auto
termination
  by (relation "measure (\<lambda>(_, _, _, millis). nat millis)") auto

declare to_Wait.simps [simp del]

text \<open>
  The thread of the agent and the threads that make requests of it. \<open>Working\<close> is the time from
  reading the last transaction number in \<^verbatim>\<open>Snapshot\<close> to its return; the counter is the number of
  snapshots started.
\<close>

datatype to_pc = Sleeping | Working | Ended

inductive to_step :: "to_pc \<times> nat \<times> TieringOutAgent \<Rightarrow> to_pc \<times> nat \<times> TieringOutAgent \<Rightarrow> bool" where
  idle: "\<not> to_snapshot_requested a \<Longrightarrow>
    to_step (Sleeping, n, a) (if to_stop_requested a then Ended else Sleeping, n, a)"
| begin_snapshot: "to_snapshot_requested a \<Longrightarrow> to_step (Sleeping, n, a) (Working, Suc n, a)"
| end_snapshot: "to_step (Working, n, a)
    (if to_stop_requested a then Ended else Sleeping, n, a\<lparr>to_snapshot_requested := False\<rparr>)"
| request: "to_step (pc, n, a) (pc, n, to_RequestSnapshot a)"
| stop: "to_step (pc, n, a) (pc, n, snd (to_RequestStop a))"

inductive_cases to_step_Ended: "to_step (Ended, n, a) st"

interpretation toa: worker to_run_thread to_stop_requested to_Start to_RequestStop to_Join
  by unfold_locales (simp_all add: to_Start_def to_RequestStop_def to_Join_def)

section \<open>The inodes of a batch, sorted\<close>

lemma set_uset_insert: "set (uset_insert x ys) = insert x (set ys)"
  by (induction ys) auto

lemma sorted_uset_insert: "sorted_wrt (<) ys \<Longrightarrow> sorted_wrt (<) (uset_insert x ys)"
  by (induction ys) (auto simp: set_uset_insert)

lemma GetInodes_fold:
  fixes ys :: "u64 list"
  assumes "sorted_wrt (<) ys"
  defines "f \<equiv> \<lambda>e ys. case e_inode_num e of Some x \<Rightarrow> uset_insert (word_of_int x) ys | None \<Rightarrow> ys"
  shows "sorted_wrt (<) (fold f es ys) \<and>
    set (fold f es ys) = set ys \<union> {word_of_int x | x. \<exists>e \<in> set es. e_inode_num e = Some x}"
  using assms(1)
proof (induction es arbitrary: ys)
  case Nil
  then show ?case by simp
next
  case (Cons e es)
  show ?case
  proof (cases "e_inode_num e")
    case None
    with Cons show ?thesis by (auto simp: f_def)
  next
    case (Some x)
    with Cons.IH [of "uset_insert (word_of_int x) ys"] sorted_uset_insert [OF Cons.prems]
    show ?thesis by (auto simp: f_def set_uset_insert)
  qed
qed

text \<open>
  C19. The inodes of a batch of change-log entries are exactly the inode numbers that occur in the
  entries, each once and in ascending order, however often and in whatever order they were
  changed.
\<close>

theorem GetInodes_equiv:
  "GetInodes log_entries =
     sorted_list_of_set {word_of_int x | x. \<exists>e \<in> set log_entries. e_inode_num e = Some x}"
proof -
  let ?S = "{word_of_int x :: u64 | x. \<exists>e \<in> set log_entries. e_inode_num e = Some x}"
  have *: "sorted_wrt (<) (GetInodes log_entries)" "set (GetInodes log_entries) = ?S"
    using GetInodes_fold [of "[]" log_entries] by (simp_all add: GetInodes_def)
  then have "finite ?S" by (metis List.finite_set)
  then show ?thesis
    using * strict_sorted_equal [of "GetInodes log_entries" "sorted_list_of_set ?S"]
      strict_sorted_list_of_set [of ?S] by simp
qed

lemma set_GetInodes: "set (GetInodes es) = {word_of_int x | x. \<exists>e \<in> set es. e_inode_num e = Some x}"
  using GetInodes_fold [of "[]" es] by (simp add: GetInodes_def)

lemma distinct_GetInodes: "distinct (GetInodes es)"
  using GetInodes_fold [of "[]" es] by (simp add: GetInodes_def strict_sorted_iff)

section \<open>What a snapshot changes of the file system\<close>

text \<open>Nothing but the store: reading a file may update its access time or restore its data.\<close>

definition only_store :: "'z fsys_scheme \<Rightarrow> 'z fsys_scheme \<Rightarrow> bool" where
  "only_store s s' \<longleftrightarrow> (\<exists>kv. s' = s\<lparr>s_kv := kv\<rparr>)"

lemma only_store_refl [simp]: "only_store s s"
  unfolding only_store_def by (intro exI [of _ "s_kv s"]) simp

lemma only_store_kv [simp]: "only_store s (s\<lparr>s_kv := kv\<rparr>)"
  by (auto simp: only_store_def)

lemma only_store_trans: "only_store s s' \<Longrightarrow> only_store s' s'' \<Longrightarrow> only_store s s''"
  by (auto simp: only_store_def)

lemma only_store_log: "only_store s s' \<Longrightarrow> s_change_log s' = s_change_log s"
  by (auto simp: only_store_def)

lemma readFile_only: "wpo (\<lambda>(_, _, _, s'). only_store s s') (readFile env tier fs h off len s)"
  by (auto simp: readFile_def wpo_iff obind_Val_iff split: if_splits)

lemma CopyFile_only: "wpo (\<lambda>(_, s', _). only_store s s') (CopyFile E handle path stat sg s w)"
  using readFile_only [of s "se_env E" "se_tier E" "sg_fs_id sg" handle 0 "word_of_int (st_size stat)"]
  by (auto simp: CopyFile_def Let_def wpo_iff obind_Val_iff case_prod_unfold split: if_splits)

lemma Segment_Add_only: "wpo (\<lambda>(_, _, s', _). only_store s s') (Segment_Add E ino path parts sg s w)"
proof -
  have "only_store s s'" if "CopyFile E ino path stat sg s w = Val (err, s', w')" for stat err s' w'
    using CopyFile_only [of s E ino path stat sg w] that by (simp add: wpo_iff)
  then show ?thesis
    by (auto simp: Segment_Add_def Let_def wpo_iff obind_Val_iff expect_Val_iff case_prod_unfold split: if_splits)
qed

lemma add_inodes_only:
  fixes s :: "'z fsys_scheme"
  shows "wpo (\<lambda>(_, s', _). only_store s s') (add_inodes E paths inos sg s w)"
proof (induction inos arbitrary: sg s w)
  case Nil
  then show ?case by simp
next
  case (Cons i inos)
  show ?case
  proof (cases "smap_find paths i")
    case None
    with Cons.IH show ?thesis by simp
  next
    case (Some p)
    have "wpo (\<lambda>(_, sg', s', w'). wpo (\<lambda>(_, s'', _). only_store s s'') (add_inodes E paths inos sg' s' w'))
        (Segment_Add E i p WHOLE_FILE sg s w)"
    proof (rule wpo_mono [OF Segment_Add_only [of s E i p WHOLE_FILE sg w]], clarify)
      fix sg' w' and s' :: "'z fsys_scheme"
      assume "only_store s s'"
      then show "wpo (\<lambda>(_, s'', _). only_store s s'') (add_inodes E paths inos sg' s' w')"
        by (intro wpo_mono [OF Cons.IH]) (auto intro: only_store_trans)
    qed
    with Some show ?thesis by (simp add: case_prod_unfold)
  qed
qed

lemma Persister_Snapshot_only:
  assumes "Persister_Snapshot E K sf ss inos first_xid last_xid (im, s, w) = Some (Val (err, im', s', w'))"
  shows "only_store s s'"
proof -
  obtain paths where paths: "GetPaths ss inos [] = Some (Val paths)"
    using assms by (auto simp: Persister_Snapshot_def tbind_Val_iff)
  show ?thesis
  proof (cases "paths = []")
    case True
    with assms paths show ?thesis by (simp add: Persister_Snapshot_def)
  next
    case False
    with assms paths obtain sg w1 sg2 w2 where
      "add_inodes E (snd (sort_by_path paths inos)) (fst (sort_by_path paths inos)) sg s w1 = Val (sg2, s', w2)"
      by (auto simp: Persister_Snapshot_def Let_def obind_Val_iff case_prod_unfold split: option.splits)
    with add_inodes_only [of s E "snd (sort_by_path paths inos)" "fst (sort_by_path paths inos)" sg w1]
    show ?thesis by (simp add: wpo_iff)
  qed
qed

lemma tiered_out_set: "s_change_log s = Some l \<Longrightarrow> tiered_out_xid (set_tiered_out_xid x s) = x"
  by (simp add: tiered_out_xid_def set_tiered_out_xid_def)

lemma snapshot_pass_Val:
  assumes "snapshot_pass E K sf snapshot end_xid (im, s, w) = Some (Val (im', s', w'))" "s_change_log s = Some l"
  obtains es first where
    "FsChangeLog_Read (l_tiered_out_xid l + 1) (min (l_tiered_out_xid l + 1 + MAX_XID_PER_SEGMENT) end_xid) l = Val (es, first)"
    "es \<noteq> []" "s_change_log s' = Some (l\<lparr>l_tiered_out_xid := entry_xid (List.last es)\<rparr>)"
    "\<exists>kv. s' = s\<lparr>s_kv := kv, s_change_log := s_change_log s'\<rparr>"
proof -
  let ?first = "l_tiered_out_xid l + 1" let ?last = "min (?first + MAX_XID_PER_SEGMENT) end_xid"
  obtain es first where es: "FsChangeLog_Read ?first ?last l = Val (es, first)" "es \<noteq> []"
    "tbind (Persister_Snapshot E K sf (MountSnapshot snapshot s) (GetInodes es) first (entry_xid (List.last es)) (im, s, w))
       (\<lambda>(_, im, s, w). Some (Val (im, set_tiered_out_xid (entry_xid (List.last es)) s, w))) = Some (Val (im', s', w'))"
    using assms by (auto simp: snapshot_pass_def Let_def tbind_Val_iff Compress_def split: if_splits)
  then obtain err s1 where s1: "Persister_Snapshot E K sf (MountSnapshot snapshot s) (GetInodes es) first
      (entry_xid (List.last es)) (im, s, w) = Some (Val (err, im', s1, w'))"
    "s' = set_tiered_out_xid (entry_xid (List.last es)) s1"
    by (auto simp: tbind_Val_iff)
  from Persister_Snapshot_only [OF s1(1)] obtain kv where "s1 = s\<lparr>s_kv := kv\<rparr>" by (auto simp: only_store_def)
  with s1(2) assms(2) es show thesis
    by (intro that [of es first]) (auto simp: set_tiered_out_xid_def)
qed

section \<open>A log with a gap\<close>

lemma log_numbered_last:
  assumes "log_numbered z g l" "l_log_deque l \<noteq> []"
  shows "get_last_xid l = z + int (length (l_log_deque l)) - 1"
proof -
  have "List.last (l_log_deque l) = l_log_deque l ! (length (l_log_deque l) - 1)" using assms(2) by (rule last_conv_nth)
  moreover have "length (l_log_deque l) - 1 < length (l_log_deque l)" using assms(2) by simp
  ultimately show ?thesis
    using assms by (simp add: get_last_xid_def entry_xid_def log_numbered_def of_nat_diff Suc_le_eq)
qed

lemma numbered_tiered_out [simp]: "log_numbered z g (l\<lparr>l_tiered_out_xid := x\<rparr>) = log_numbered z g l"
  "get_last_xid (l\<lparr>l_tiered_out_xid := x\<rparr>) = get_last_xid l"
  by (simp_all add: log_numbered_def get_last_xid_def)

text \<open>The last entry that a read returns is behind the number asked for by the length of the gap.\<close>

lemma Read_numbered_last:
  assumes "log_numbered z g l" "first - (z + int g) < 2 ^ 31" "FsChangeLog_Read first last_xid l = Val (es, first')" "es \<noteq> []"
  shows "entry_xid (List.last es) \<le> last_xid - int g"
proof -
  let ?a = "nat (first - z - int g)" let ?n = "nat (last_xid + 1 - z - int g) - ?a"
  have es: "es = take ?n (drop ?a (l_log_deque l))" using Read_numbered [OF assms(1,2)] assms(3) by simp
  let ?k = "length es - 1"
  have "length es \<le> ?n" "length es \<le> length (l_log_deque l) - ?a" using es by simp_all
  moreover have "0 < length es" using assms(4) by simp
  ultimately have k: "?k < length es" "?k < ?n" "?a + ?k < length (l_log_deque l)" by linarith+
  have "List.last es = es ! ?k" using assms(4) by (rule last_conv_nth)
  also have "\<dots> = l_log_deque l ! (?a + ?k)" using k by (subst es) simp
  also have "e_xid \<dots> = Some (z + int (?a + ?k))" using assms(1) k(3) by (simp add: log_numbered_def)
  finally have "entry_xid (List.last es) = z + int (?a + ?k)" by (simp add: entry_xid_def)
  moreover have "?a + ?k < nat (last_xid + 1 - z - int g)" using k(2) by simp
  ultimately show ?thesis by linarith
qed

text \<open>
  Rules for the loop of a snapshot: what it returns is what a pass returned on a state that
  satisfies an invariant of the passes, so an invariant under which no pass reaches the end rules
  out that it returns; and a rank that falls until the end is reached makes it return.
\<close>

lemma snapshot_loop_result:
  assumes "\<And>st st'. I st \<Longrightarrow> snapshot_pass E K sf snapshot e st = Some (Val st') \<Longrightarrow> I st'"
    and "I st" "snapshot_loop E K sf snapshot e st = Some (Val r)"
  shows "\<exists>st1. I st1 \<and> snapshot_pass E K sf snapshot e st1 = Some (Val r) \<and> \<not> tiered_out_xid (fst (snd r)) < e"
proof -
  let ?P = "\<lambda>E' K' sf' sn' e' st r. E' = E \<and> K' = K \<and> sf' = sf \<and> sn' = snapshot \<and> e' = e \<longrightarrow> I st \<longrightarrow>
    (\<forall>x. r = Val x \<longrightarrow> (\<exists>st1. I st1 \<and> snapshot_pass E K sf snapshot e st1 = Some (Val x) \<and> \<not> tiered_out_xid (fst (snd x)) < e))"
  have "?P E K sf snapshot e st (Val r)"
  proof (rule snapshot_loop.raw_induct [of ?P, OF _ assms(3)])
    fix f E' K' sf' sn' e' st r
    assume IH: "\<And>E' K' sf' sn' e' st r. f E' K' sf' sn' e' st = Some r \<Longrightarrow> ?P E' K' sf' sn' e' st r"
      and body: "tbind (snapshot_pass E' K' sf' sn' e' st) (\<lambda>st. if tiered_out_xid (fst (snd st)) < e'
          then f E' K' sf' sn' e' st else Some (Val st)) = Some r"
    show "?P E' K' sf' sn' e' st r"
    proof (intro impI allI)
      fix x
      assume eq: "E' = E \<and> K' = K \<and> sf' = sf \<and> sn' = snapshot \<and> e' = e" and I: "I st" and "r = Val x"
      with body obtain st1 where st1: "snapshot_pass E K sf snapshot e st = Some (Val st1)"
        "(if tiered_out_xid (fst (snd st1)) < e then f E K sf snapshot e st1 else Some (Val st1)) = Some (Val x)"
        by (auto simp: tbind_Val_iff)
      with assms(1) [OF I st1(1)] IH [of E K sf snapshot e st1 "Val x"] I
      show "\<exists>st1. I st1 \<and> snapshot_pass E K sf snapshot e st1 = Some (Val x) \<and> \<not> tiered_out_xid (fst (snd x)) < e"
        by (cases "tiered_out_xid (fst (snd st1)) < e") (simp, metis option.inject outcome.inject)
    qed
  qed
  with assms(2) show ?thesis by blast
qed

lemma snapshot_loop_never:
  assumes "\<And>st st'. I st \<Longrightarrow> snapshot_pass E K sf snapshot e st = Some (Val st') \<Longrightarrow>
      I st' \<and> tiered_out_xid (fst (snd st')) < e"
    and "I st"
  shows "snapshot_loop E K sf snapshot e st \<noteq> Some (Val r)"
  using snapshot_loop_result [of I E K sf snapshot e st r] assms by blast

definition gap_pending :: "int \<Rightarrow> nat \<Rightarrow> int \<Rightarrow> 'z fsys_scheme \<Rightarrow> bool" where
  "gap_pending z g e s \<longleftrightarrow> (\<exists>l. s_change_log s = Some l \<and> log_numbered z g l \<and> get_last_xid l = e \<and> l_tiered_out_xid l \<le> e)"

lemma gap_pass:
  assumes "0 < g" "gap_pending z g e s" "snapshot_pass E K sf snapshot e (im, s, w) = Some (Val (im', s', w'))"
  shows "gap_pending z g e s' \<and> tiered_out_xid s' < e"
proof -
  obtain l where l: "s_change_log s = Some l" "log_numbered z g l" "get_last_xid l = e" "l_tiered_out_xid l \<le> e"
    using assms(2) by (auto simp: gap_pending_def)
  obtain es first where es:
    "FsChangeLog_Read (l_tiered_out_xid l + 1) (min (l_tiered_out_xid l + 1 + MAX_XID_PER_SEGMENT) e) l = Val (es, first)"
    "es \<noteq> []" "s_change_log s' = Some (l\<lparr>l_tiered_out_xid := entry_xid (List.last es)\<rparr>)"
    using snapshot_pass_Val [OF assms(3) l(1)] by blast
  have "l_tiered_out_xid l + 1 - (z + int g) < 2 ^ 31"
  proof (cases "l_log_deque l = []")
    case True
    then have "FsChangeLog_Read a b l = Val (c, d) \<Longrightarrow> c = []" for a b c d
      by (auto simp: FsChangeLog_Read_def Let_def read_entries.simps outcome_simps as_int_def split: if_splits)
    with es(1,2) show ?thesis by blast
  next
    case False
    with log_numbered_last [OF l(2)] l(2-4) assms(1) show ?thesis by (simp add: log_numbered_def)
  qed
  from Read_numbered_last [OF l(2) this es(1,2)] assms(1) have "entry_xid (List.last es) < e" by simp
  with es(3) l show ?thesis by (simp add: gap_pending_def tiered_out_xid_def)
qed

text \<open>
  C31. A snapshot never ends when transaction numbers were given out after the last entry of the
  log and not used: reading up to the last entry stops short of it by as many entries as numbers
  were lost, so the loop never reaches its end and the call never returns normally, whatever the
  host, the index and the file system are.
\<close>

theorem snapshot_after_gap_never_ends:
  assumes "s_change_log s = Some l" "log_numbered z g l" "0 < g" "l_tiered_out_xid l \<le> get_last_xid l"
  shows "TieringOut_Snapshot E K sf snapshot (im, s, w) \<noteq> Some (Val st)"
proof -
  have "gap_pending z g (get_last_xid l) s" using assms by (simp add: gap_pending_def)
  then have "snapshot_loop E K sf snapshot (get_last_xid l) (im, s, w) \<noteq> Some (Val st)"
    by (intro snapshot_loop_never [of "\<lambda>st. gap_pending z g (get_last_xid l) (fst (snd st))"])
      (use gap_pass [OF assms(3)] in fastforce)+
  then show ?thesis using assms(1) by (simp add: TieringOut_Snapshot_def)
qed

theorem snapshot_after_gap_never_ends_witness:
  "\<forall>(E :: unit segment_env) K sf im st.
     TieringOut_Snapshot E K sf id (im, (new_FileSystemManager empty_kvs)\<lparr>s_change_log := Some (sample_log 1)\<rparr>, ()) \<noteq> Some (Val st)"
proof (intro allI)
  fix E :: "unit segment_env" and K sf im st
  show "TieringOut_Snapshot E K sf id (im, (new_FileSystemManager empty_kvs)\<lparr>s_change_log := Some (sample_log 1)\<rparr>, ()) \<noteq> Some (Val st)"
    by (rule snapshot_after_gap_never_ends [of _ "sample_log 1" 1 1])
      (simp_all add: sample_log_numbered, simp add: sample_log_def new_FsChangeLog_def get_last_xid_def entry_xid_def)
qed

end
