(* ===== verification/TieringLive.thy ===== *)
theory TieringLive
  imports TieringOut
begin

text \<open>
  When a snapshot ends: on a change log in which every number given out was used, with inodes
  that can be read, paths that lead somewhere and working directories that can be made, the
  tiering-out agent works through the log in batches and stops when it has reached the entry
  that was the last when it started.
\<close>

section \<open>Calls that return\<close>

definition readable :: "u64 \<Rightarrow> 'z fsys_scheme \<Rightarrow> u64 \<Rightarrow> bool" where
  "readable fs s ino \<longleftrightarrow> (\<exists>c. holds_file fs s ino c) \<or> holds_other fs s ino \<or> holds_nothing s ino"

lemma holds_change_log [simp]:
  "holds_file fs (s\<lparr>s_change_log := x\<rparr>) = holds_file fs s" "holds_other fs (s\<lparr>s_change_log := x\<rparr>) = holds_other fs s"
  "holds_nothing (s\<lparr>s_change_log := x\<rparr>) = holds_nothing s" "readable fs (s\<lparr>s_change_log := x\<rparr>) = readable fs s"
  by (simp_all add: fun_eq_iff holds_file_def holds_other_def holds_nothing_def readable_def)

lemma CopyFile_returns:
  assumes "file_ok (opened (sg_fs_id sg) ino m, s_kv s)"
  shows "\<exists>ret w'. CopyFile E ino path (stat_of_meta m) sg s w = Val (ret, s, w')"
proof -
  let ?t = "opened (sg_fs_id sg) ino m"
  have "f_size ?t < 2 ^ 63" using assms by (simp add: file_ok_def data_inv_def)
  then have size: "st_size (stat_of_meta m) = int (f_size ?t)"
    using sint_f_size [of ?t] by (simp add: stat_of_meta_def)
  show ?thesis
    by (simp add: CopyFile_def size readFile_file [OF assms] case_prod_unfold Let_def)
qed

lemma Segment_Add_returns:
  assumes "readable (sg_fs_id sg) s ino"
  shows "\<exists>err ps w'. Segment_Add E ino path WHOLE_FILE sg s w = Val (err, sg\<lparr>sg_inode_paths := ps\<rparr>, s, w')"
proof -
  have "sg = sg\<lparr>sg_inode_paths := sg_inode_paths sg\<rparr>" by simp
  then have *: "\<exists>ps. (if b then sg\<lparr>sg_inode_paths := ps'\<rparr> else sg) = sg\<lparr>sg_inode_paths := ps\<rparr>" for b ps' by metis
  consider (regular) c where "holds_file (sg_fs_id sg) s ino c" | (other) "holds_other (sg_fs_id sg) s ino" | (gone) "holds_nothing s ino"
    using assms by (auto simp: readable_def)
  then show ?thesis
  proof cases
    case regular
    then obtain m where m: "file_ok (opened (sg_fs_id sg) ino m, s_kv s)" "S_ISREG (meta_mode m)"
      by (auto simp: holds_file_def)
    have inv: "reliable (s_kv s)" "inode_inv (opened (sg_fs_id sg) ino m, s_kv s)"
      using m(1) by (simp_all add: file_ok_def data_inv_def)
    have "S_ISREG (st_mode (stat_of_meta m))" using m(2) by (simp add: stat_of_meta_def meta_mode_def)
    then show ?thesis
      using CopyFile_returns [where E = E and path = path and w = w, OF m(1)] *
      by (auto simp: Segment_Add_def statFile_file [OF inv m(2)])
  next
    case other
    obtain st where "statFile (se_env E) (sg_fs_id sg) ino (se_uninit E) s = Val (STATUS_OK, st)"
      "\<not> S_ISREG (st_mode st)" "S_ISDIR (st_mode st)"
      using statFile_other [OF other] by blast
    with * show ?thesis by (simp add: Segment_Add_def case_prod_unfold Let_def)
  next
    case gone
    with Add_nothing [OF gone, of E path sg w] show ?thesis by (metis \<open>sg = sg\<lparr>sg_inode_paths := sg_inode_paths sg\<rparr>\<close>)
  qed
qed

lemma add_inodes_returns:
  "\<forall>i \<in> set inos. readable (sg_fs_id sg) s i \<Longrightarrow> \<exists>sg' w'. add_inodes E paths inos sg s w = Val (sg', s, w')"
proof (induction inos arbitrary: sg w)
  case Nil
  then show ?case by simp
next
  case (Cons i inos)
  show ?case
  proof (cases "smap_find paths i")
    case None
    with Cons show ?thesis by simp
  next
    case (Some p)
    obtain err ps w1 where "Segment_Add E i p WHOLE_FILE sg s w = Val (err, sg\<lparr>sg_inode_paths := ps\<rparr>, s, w1)"
      using Segment_Add_returns [where E = E and path = p and w = w, of sg s i] Cons.prems by auto
    with Some Cons.IH [of "sg\<lparr>sg_inode_paths := ps\<rparr>" w1] Cons.prems show ?thesis by simp
  qed
qed

section \<open>Paths\<close>

text \<open>Every inode of the snapshot has a path that can be read, and the parents lead upwards.\<close>

definition paths_fine :: "'z fsys_scheme \<Rightarrow> (u64 \<Rightarrow> nat) \<Rightarrow> bool" where
  "paths_fine ss rank \<longleftrightarrow> parents_fall ss rank \<and> (\<forall>i > ROOT_HANDLE. \<exists>r. fm_getPathInfo 0 i ss = Val r) \<and>
     (\<forall>i p n. i > ROOT_HANDLE \<longrightarrow> fm_getPathInfo 0 i ss = Val (STATUS_OK, Some (p, n)) \<longrightarrow> p \<noteq> 0)"

lemma fm_getPathInfo_OK: "fm_getPathInfo fs i s = Val (status, info) \<Longrightarrow> status = STATUS_OK \<longleftrightarrow> info \<noteq> None"
  by (auto simp: fm_getPathInfo_def outcome_simps split: if_splits)

lemma above_root: "(i :: u64) \<noteq> 0 \<Longrightarrow> \<not> i > ROOT_HANDLE \<Longrightarrow> i = ROOT_HANDLE"
proof -
  assume "i \<noteq> 0" "\<not> i > ROOT_HANDLE"
  then have "unat i \<noteq> 0" "unat i \<le> 1" by (simp_all add: ROOT_HANDLE_def not_less word_le_nat_alt unat_eq_0)
  then have "unat i = unat (1 :: u64)" by simp
  then show ?thesis by (simp only: word_unat_eq_iff ROOT_HANDLE_def)
qed

lemma get_path_loop_fine:
  assumes "paths_fine ss rank"
  shows "i \<noteq> 0 \<Longrightarrow> \<exists>status i' ps. get_path_loop ss i parts = Some (Val (status, i', ps)) \<and>
    (i' = ROOT_HANDLE \<or> status \<noteq> STATUS_OK)"
proof (induction "rank i" arbitrary: i parts rule: less_induct)
  case less
  show ?case
  proof (cases "i > ROOT_HANDLE")
    case False
    with above_root less.prems show ?thesis by (simp add: get_path_loop_stop)
  next
    case True
    then obtain status info where info: "fm_getPathInfo 0 i ss = Val (status, info)"
      using assms unfolding paths_fine_def by force
    show ?thesis
    proof (cases info)
      case None
      with info fm_getPathInfo_OK [OF info] True show ?thesis by (subst get_path_loop.simps) simp
    next
      case (Some pn)
      then obtain p n where p: "fm_getPathInfo 0 i ss = Val (STATUS_OK, Some (p, n))"
        using info fm_getPathInfo_OK [OF info] by (cases pn) simp
      then have "rank p < rank i" "p \<noteq> 0" using assms True by (auto simp: paths_fine_def parents_fall_def)
      from less.hyps [OF this] show ?thesis by (simp add: get_path_loop_step [OF True p])
    qed
  qed
qed

lemma GetPath_fine:
  assumes "paths_fine ss rank" "i \<noteq> 0"
  shows "\<exists>r. GetPath ss i = Some (Val r)"
  using get_path_loop_fine [OF assms, of "[]"] by (auto simp: GetPath_def)

lemma GetPaths_fine:
  assumes "paths_fine ss rank"
  shows "0 \<notin> set inos \<Longrightarrow> \<exists>ps. GetPaths ss inos acc = Some (Val ps)"
proof (induction inos arbitrary: acc)
  case Nil
  then show ?case by simp
next
  case (Cons i inos)
  then obtain status path where "GetPath ss i = Some (Val (status, path))"
    using GetPath_fine [OF assms, of i] by auto
  with Cons show ?case by simp
qed

section \<open>A batch\<close>

text \<open>The host can make directories whose names have no quote in them, and the names are short.\<close>

definition makes_dirs :: "'w host \<Rightarrow> bool" where
  "makes_dirs H \<longleftrightarrow> (\<forall>d w. CHR 0x27 \<notin> set d \<longrightarrow> fst (hs_system H (MkdirPath_cmd d) w) = 0)"

definition factory_ok :: "SegmentFactory \<Rightarrow> bool" where
  "factory_ok sf \<longleftrightarrow> CHR 0x27 \<notin> set (sf_working_dir sf) \<and> length (sf_working_dir sf) \<le> 80"

lemma quote_not_digit: "CHR 0x27 \<notin> set (show_nat n)"
  using set_show_nat [of "CHR 0x27" n] by auto

lemma show_int_bounds:
  assumes "0 \<le> x" "x < 10 ^ 20"
  shows "length (show_int x) \<le> 20" "CHR 0x27 \<notin> set (show_int x)"
proof -
  have "nat x < 10 ^ 20" using assms by (simp add: nat_less_iff)
  then show "length (show_int x) \<le> 20" using assms length_show_nat [of "nat x" 20] by (simp add: show_int_def)
  show "CHR 0x27 \<notin> set (show_int x)" using assms(1) quote_not_digit by (simp add: show_int_def)
qed

lemma working_dir_ok:
  assumes "factory_ok sf" "0 \<le> f" "f < 10 ^ 20" "0 \<le> l" "l < 10 ^ 20"
  shows "length (working_dir_name f l sf) < 128" "CHR 0x27 \<notin> set (working_dir_name f l sf)" "working_dir_name f l sf \<noteq> []"
  using assms(1) show_int_bounds [OF assms(2,3)] show_int_bounds [OF assms(4,5)]
  by (simp_all add: working_dir_name_def factory_ok_def)

lemma AddSegment_returns:
  assumes "makes_dirs H" "factory_ok sf" "0 \<le> f" "f < 10 ^ 20" "0 \<le> l" "l < 10 ^ 20"
  shows "\<exists>w'. AddSegment H f l sf w = (Some ((new_Segment (working_dir_name f l sf) (tarball_name f l sf) (sf_fs_id sf))
      \<lparr>sg_first_xid := f, sg_last_xid := l\<rparr>), w')"
proof -
  note d = working_dir_ok [OF assms(2-6)]
  obtain w' where "MkdirPath H (working_dir_name f l sf) w = (0, w')"
    using assms(1) d(2) by (cases "MkdirPath H (working_dir_name f l sf) w") (simp add: makes_dirs_def MkdirPath_def, metis fst_conv)
  with d show ?thesis by (simp add: AddSegment_def MakeWorkingDir_def)
qed

lemma Persister_returns:
  assumes "makes_dirs (se_host E)" "factory_ok sf" "0 \<le> f" "f < 10 ^ 20" "0 \<le> l" "l < 10 ^ 20"
    and "paths_fine ss rank" "0 \<notin> set inos" "\<forall>i \<in> set inos. readable (sf_fs_id sf) s i"
  shows "\<exists>err im' w'. Persister_Snapshot E K sf ss inos f l (im, s, w) = Some (Val (err, im', s, w'))"
proof -
  obtain paths where paths: "GetPaths ss inos [] = Some (Val paths)" using GetPaths_fine [OF assms(7,8)] by blast
  let ?sg = "(new_Segment (working_dir_name f l sf) (tarball_name f l sf) (sf_fs_id sf))\<lparr>sg_first_xid := f, sg_last_xid := l\<rparr>"
  obtain w1 where w1: "AddSegment (se_host E) f l sf w = (Some ?sg, w1)" using AddSegment_returns [OF assms(1-6)] by blast
  have "\<forall>i \<in> set (fst (sort_by_path paths inos)). readable (sg_fs_id ?sg) s i"
    using assms(9) by (simp add: sort_by_path_def new_Segment_def)
  then obtain sg2 w2 where "add_inodes E (snd (sort_by_path paths inos)) (fst (sort_by_path paths inos)) ?sg s w1 = Val (sg2, s, w2)"
    using add_inodes_returns [where E = E and w = w1 and paths = "snd (sort_by_path paths inos)"] by blast
  with paths w1 show ?thesis by (simp add: Persister_Snapshot_def case_prod_unfold Let_def)
qed

section \<open>A pass of the loop\<close>

lemma Read_numbered_range:
  assumes "log_numbered z 0 l" "z \<le> first" "first \<le> last_xid" "last_xid \<le> get_last_xid l" "l_log_deque l \<noteq> []"
  obtains es where "FsChangeLog_Read first last_xid l = Val (es, first)" "es \<noteq> []"
    "e_xid (List.last es) = Some last_xid" "set es \<subseteq> set (l_log_deque l)"
proof -
  let ?d = "l_log_deque l"
  have e: "get_last_xid l = z + int (length ?d) - 1" using log_numbered_last [OF assms(1,5)] .
  have n: "length ?d < 2 ^ 31" using assms(1) by (simp add: log_numbered_def)
  let ?a = "nat (first - z)" let ?n = "nat (last_xid + 1 - z) - ?a"
  let ?es = "take ?n (drop ?a ?d)"
  have len: "length ?es = ?n" "0 < ?n" "?a + ?n \<le> length ?d" using assms(2-4) e by auto
  then have ne: "?es \<noteq> []" by (metis length_greater_0_conv)
  have num: "e_xid (?d ! i) = Some (z + int i)" if "i < length ?d" for i using assms(1) that by (simp add: log_numbered_def)
  have idx: "?a + (?n - 1) < length ?d" using len(2,3) by linarith
  have "List.last ?es = ?es ! (?n - 1)" using last_conv_nth [OF ne] len(1) by simp
  also have "\<dots> = drop ?a ?d ! (?n - 1)" using len(2) by (intro nth_take) linarith
  also have "\<dots> = ?d ! (?a + (?n - 1))" using len(2,3) by (intro nth_drop) linarith
  also have "e_xid \<dots> = Some (z + int (?a + (?n - 1)))" by (rule num [OF idx])
  also have "z + int (?a + (?n - 1)) = last_xid" using assms(2,3) by linarith
  finally have "e_xid (List.last ?es) = Some last_xid" .
  moreover have "FsChangeLog_Read first last_xid l = Val (?es, first)"
    using Read_numbered [OF assms(1), of first last_xid] assms(2-4) e n by (simp add: max_def)
  moreover have "set ?es \<subseteq> set ?d" by (meson order_trans set_drop_subset set_take_subset)
  ultimately show thesis using that ne by blast
qed

text \<open>What the loop needs and keeps.\<close>

definition snapshot_ready :: "'w host \<Rightarrow> SegmentFactory \<Rightarrow> (kvs \<Rightarrow> kvs) \<Rightarrow> (u64 \<Rightarrow> nat) \<Rightarrow> 'z fsys_scheme \<Rightarrow> FsChangeLog \<Rightarrow> bool" where
  "snapshot_ready H sf snapshot rank s l \<longleftrightarrow> makes_dirs H \<and> factory_ok sf \<and> paths_fine (MountSnapshot snapshot s) rank \<and>
     (\<forall>e \<in> set (l_log_deque l). \<forall>x. e_inode_num e = Some x \<longrightarrow>
        (word_of_int x :: u64) \<noteq> 0 \<and> readable (sf_fs_id sf) s (word_of_int x))"

lemma snapshot_ready_log [simp]:
  "snapshot_ready H sf snapshot rank (s\<lparr>s_change_log := x\<rparr>) l = snapshot_ready H sf snapshot rank s l"
  "snapshot_ready H sf snapshot rank s (l\<lparr>l_tiered_out_xid := y\<rparr>) = snapshot_ready H sf snapshot rank s l"
  by (simp_all add: snapshot_ready_def MountSnapshot_def)

text \<open>
  The reference: the batches after a transaction up to another, at most 1001 transactions each, the
  entries of a batch, and the persister called for each batch in turn. Its error number is ignored.
\<close>

function batches :: "int \<Rightarrow> int \<Rightarrow> (int \<times> int) list" where
  "batches t e = (if t < e then (t + 1, min (t + 1001) e) # batches (min (t + 1001) e) e else [])"
  by pat_completeness auto
termination
  by (relation "measure (\<lambda>(t, e). nat (e - t))") auto

declare batches.simps [simp del]

definition batch_entries :: "FsChangeLog \<Rightarrow> int \<times> int \<Rightarrow> ChangeLogEntry list" where
  "batch_entries l b = filter (\<lambda>e. fst b \<le> entry_xid e \<and> entry_xid e \<le> snd b) (l_log_deque l)"

fun persist_batches ::
  "'w segment_env \<Rightarrow> index_codec \<Rightarrow> SegmentFactory \<Rightarrow> (kvs \<Rightarrow> kvs) \<Rightarrow> FsChangeLog \<Rightarrow> (int \<times> int) list \<Rightarrow>
   IndexManager \<times> 'z fsys_scheme \<times> 'w \<Rightarrow> (IndexManager \<times> 'z fsys_scheme \<times> 'w) outcome option" where
  "persist_batches E K sf snapshot l [] st = Some (Val st)"
| "persist_batches E K sf snapshot l (b # bs) (im, s, w) =
     tbind (Persister_Snapshot E K sf (MountSnapshot snapshot s) (GetInodes (batch_entries l b)) (fst b) (snd b) (im, s, w))
       (\<lambda>(_, im, s, w). persist_batches E K sf snapshot l bs (im, set_tiered_out_xid (snd b) s, w))"

lemma filter_between:
  "sorted_wrt (<) (map f d) \<Longrightarrow> a \<le> b \<Longrightarrow> b \<le> c \<Longrightarrow>
   filter (\<lambda>x. a < f x \<and> f x \<le> b) d @ filter (\<lambda>x. b < f x \<and> f x \<le> c) d = filter (\<lambda>x. a < f x \<and> f x \<le> c) d"
  for f :: "'x \<Rightarrow> int"
proof (induction d)
  case (Cons x d)
  have "filter (\<lambda>x. a < f x \<and> f x \<le> b) d = []" if "b < f x"
    using Cons.prems(1) that by (auto simp: filter_empty_conv)
  with Cons show ?case by auto
qed simp

lemma batches_cover:
  assumes "sorted_wrt (<) (map entry_xid (l_log_deque l))"
  shows "t \<le> e \<Longrightarrow> concat (map (batch_entries l) (batches t e)) = filter (\<lambda>x. t < entry_xid x \<and> entry_xid x \<le> e) (l_log_deque l)"
proof (induction t e rule: batches.induct)
  case (1 t e)
  let ?m = "min (t + 1001) e"
  show ?case
  proof (cases "t < e")
    case True
    have "batch_entries l (t + 1, ?m) = filter (\<lambda>x. t < entry_xid x \<and> entry_xid x \<le> ?m) (l_log_deque l)"
      by (simp add: batch_entries_def add1_zle_eq)
    with "1.IH" [OF True] filter_between [OF assms, of t ?m e] True show ?thesis by (subst batches.simps) simp
  next
    case False
    then show ?thesis using "1.prems" by (subst batches.simps) (auto simp: filter_empty_conv)
  qed
qed

lemma log_numbered_sorted:
  assumes "log_numbered z g l"
  shows "sorted_wrt (<) (map entry_xid (l_log_deque l))"
  using assms by (auto simp: sorted_wrt_iff_nth_less log_numbered_def entry_xid_def)

lemma pass_persists:
  assumes "s_change_log s = Some l" "log_numbered z 0 l" "0 < z" "get_last_xid l < 10 ^ 19" "z - 1 \<le> l_tiered_out_xid l"
    and "l_tiered_out_xid l < get_last_xid l" "snapshot_ready (se_host E) sf snapshot rank s l"
    and "b = (l_tiered_out_xid l + 1, min (l_tiered_out_xid l + 1001) (get_last_xid l))"
  shows "\<exists>err im' w'. Persister_Snapshot E K sf (MountSnapshot snapshot s) (GetInodes (batch_entries l b)) (fst b) (snd b) (im, s, w) =
      Some (Val (err, im', s, w')) \<and>
    snapshot_pass E K sf snapshot (get_last_xid l) (im, s, w) = Some (Val (im', set_tiered_out_xid (snd b) s, w'))"
proof -
  let ?first = "l_tiered_out_xid l + 1" let ?last = "min (?first + MAX_XID_PER_SEGMENT) (get_last_xid l)"
  have last: "?last = snd b" using assms(8) by (simp add: MAX_XID_PER_SEGMENT_def add.commute)
  have ne: "l_log_deque l \<noteq> []" using assms(3,5,6) by (auto simp: get_last_xid_def)
  moreover have "?first \<le> ?last" "?last \<le> get_last_xid l" "z \<le> ?first"
    using assms(5,6) by (simp_all add: MAX_XID_PER_SEGMENT_def)
  ultimately obtain es where es: "FsChangeLog_Read ?first ?last l = Val (es, ?first)" "es \<noteq> []"
    "e_xid (List.last es) = Some ?last" "set es \<subseteq> set (l_log_deque l)"
    using Read_numbered_range [OF assms(2)] by metis
  have "?first - z < 2 ^ 31"
    using log_numbered_last [OF assms(2) ne] assms(2,6) by (simp add: log_numbered_def)
  then have b: "es = batch_entries l b"
    using Read_range [OF assms(2), of ?first ?last] es(1) last by (simp add: batch_entries_def assms(8))
  have ino: "i \<noteq> 0 \<and> readable (sf_fs_id sf) s i" if i: "i \<in> set (GetInodes es)" for i
  proof -
    obtain e x where "e \<in> set (l_log_deque l)" "e_inode_num e = Some x" "i = word_of_int x"
      using i es(4) by (auto simp: set_GetInodes)
    with assms(7) show ?thesis by (auto simp: snapshot_ready_def)
  qed
  have ok: "makes_dirs (se_host E)" "factory_ok sf" "paths_fine (MountSnapshot snapshot s) rank"
    using assms(7) by (simp_all add: snapshot_ready_def)
  have "0 \<notin> set (GetInodes es)" "\<forall>i \<in> set (GetInodes es). readable (sf_fs_id sf) s i" using ino by blast+
  moreover have "0 \<le> ?first" "?first < 10 ^ 20" "0 \<le> ?last" "?last < 10 ^ 20"
    using assms(3-6) by (simp_all add: MAX_XID_PER_SEGMENT_def)
  ultimately obtain err im' w' where
    p: "Persister_Snapshot E K sf (MountSnapshot snapshot s) (GetInodes es) ?first ?last (im, s, w) = Some (Val (err, im', s, w'))"
    using Persister_returns [OF ok(1,2) _ _ _ _ ok(3), of ?first ?last "GetInodes es" s K im w] by blast
  then have "snapshot_pass E K sf snapshot (get_last_xid l) (im, s, w) = Some (Val (im', set_tiered_out_xid ?last s, w'))"
    using es assms(1) by (simp add: snapshot_pass_def Compress_def entry_xid_def)
  with p show ?thesis unfolding b last by (auto simp: assms(8))
qed

section \<open>The end of a snapshot\<close>

lemma loop_persists:
  assumes "log_numbered z 0 l" "0 < z" "get_last_xid l < 10 ^ 19" "snapshot_ready (se_host E) sf snapshot rank s l"
    and "z - 1 \<le> t" "t < get_last_xid l"
  shows "\<exists>im' w'. snapshot_loop E K sf snapshot (get_last_xid l) (im, s\<lparr>s_change_log := Some (l\<lparr>l_tiered_out_xid := t\<rparr>)\<rparr>, w) =
      persist_batches E K sf snapshot l (batches t (get_last_xid l)) (im, s\<lparr>s_change_log := Some (l\<lparr>l_tiered_out_xid := t\<rparr>)\<rparr>, w) \<and>
    persist_batches E K sf snapshot l (batches t (get_last_xid l)) (im, s\<lparr>s_change_log := Some (l\<lparr>l_tiered_out_xid := t\<rparr>)\<rparr>, w) =
      Some (Val (im', s\<lparr>s_change_log := Some (l\<lparr>l_tiered_out_xid := get_last_xid l\<rparr>)\<rparr>, w'))"
  using assms(5,6)
proof (induction t "get_last_xid l" arbitrary: im w rule: batches.induct)
  case (1 t)
  let ?e = "get_last_xid l" and ?at = "\<lambda>t. s\<lparr>s_change_log := Some (l\<lparr>l_tiered_out_xid := t\<rparr>)\<rparr>"
  define x where "x = min (t + 1001) ?e"
  obtain err im1 w1 where p:
    "Persister_Snapshot E K sf (MountSnapshot snapshot (?at t)) (GetInodes (batch_entries l (t + 1, x))) (t + 1) x (im, ?at t, w) =
      Some (Val (err, im1, ?at t, w1))"
    "snapshot_pass E K sf snapshot ?e (im, ?at t, w) = Some (Val (im1, ?at x, w1))"
    using pass_persists [of "?at t" "l\<lparr>l_tiered_out_xid := t\<rparr>" z E sf snapshot rank "(t + 1, x)" K im w] assms(1-4) "1.prems"
    by (auto simp: set_tiered_out_xid_def batch_entries_def x_def)
  have xid: "tiered_out_xid (?at x) = x" "set_tiered_out_xid x (?at t) = ?at x"
    by (simp_all add: tiered_out_xid_def set_tiered_out_xid_def)
  have bs: "batches t ?e = (t + 1, x) # batches x ?e" using "1.prems"(2) by (subst batches.simps) (simp add: x_def)
  have run: "persist_batches E K sf snapshot l (batches t ?e) (im, ?at t, w) =
      persist_batches E K sf snapshot l (batches x ?e) (im1, ?at x, w1)" by (simp add: bs p(1) xid(2))
  have loop: "snapshot_loop E K sf snapshot ?e (im, ?at t, w) =
      (if x < ?e then snapshot_loop E K sf snapshot ?e (im1, ?at x, w1) else Some (Val (im1, ?at x, w1)))"
    by (subst snapshot_loop.simps) (simp add: p(2) xid(1))
  show ?case
  proof (cases "x < ?e")
    case True
    moreover have "z - 1 \<le> x" using "1.prems" by (simp add: x_def)
    ultimately show ?thesis using "1.hyps" [OF "1.prems"(2), of im1 w1] by (simp add: run loop x_def [symmetric])
  next
    case False
    then have "x = ?e" "batches x ?e = []" by (simp_all add: x_def batches.simps)
    with False show ?thesis by (simp add: run loop)
  qed
qed

text \<open>
  C9. A snapshot of a change log with new entries ends, and does its work: it hands the entries after
  the last one tiered out, each in exactly one batch of at most 1001 transactions and in their order,
  to the persister, with the inodes they name and the numbers of the first and the last; and it
  leaves the file system as it was but for the progress in the log, which is then at the last entry.
  So it is when every transaction number given out was used (from \<open>z\<close> on, which was not tiered out
  before), the inodes named in the log can be read or are gone, the parents of inodes lead to the
  root, and the host can make the working directories (\<open>snapshot_ready\<close>). What the persister returns
  is ignored: a batch whose segment could not be written counts as tiered out.
\<close>

theorem snapshot_reaches_end_of_log:
  assumes "s_change_log s = Some l" "log_numbered z 0 l" "0 < z" "get_last_xid l < 10 ^ 19" "z - 1 \<le> l_tiered_out_xid l"
    and "l_tiered_out_xid l < get_last_xid l" "snapshot_ready (se_host E) sf snapshot rank s l"
  shows "\<exists>im' w'. TieringOut_Snapshot E K sf snapshot (im, s, w) =
      Some (Val (im', s\<lparr>s_change_log := Some (l\<lparr>l_tiered_out_xid := get_last_xid l\<rparr>)\<rparr>, w')) \<and>
    persist_batches E K sf snapshot l (batches (l_tiered_out_xid l) (get_last_xid l)) (im, s, w) =
      Some (Val (im', s\<lparr>s_change_log := Some (l\<lparr>l_tiered_out_xid := get_last_xid l\<rparr>)\<rparr>, w')) \<and>
    concat (map (batch_entries l) (batches (l_tiered_out_xid l) (get_last_xid l))) =
      filter (\<lambda>e. l_tiered_out_xid l < entry_xid e) (l_log_deque l)"
proof -
  have start: "s\<lparr>s_change_log := Some (l\<lparr>l_tiered_out_xid := l_tiered_out_xid l\<rparr>)\<rparr> = s" using assms(1) by simp
  have "entry_xid e \<le> get_last_xid l" if "e \<in> set (l_log_deque l)" for e
  proof -
    have "l_log_deque l \<noteq> []" using that by auto
    with log_numbered_last [OF assms(2)] assms(2) that show ?thesis
      by (fastforce simp: log_numbered_def entry_xid_def in_set_conv_nth)
  qed
  then have "filter (\<lambda>e. l_tiered_out_xid l < entry_xid e \<and> entry_xid e \<le> get_last_xid l) (l_log_deque l) =
      filter (\<lambda>e. l_tiered_out_xid l < entry_xid e) (l_log_deque l)" by (intro filter_cong) auto
  with batches_cover [OF log_numbered_sorted [OF assms(2)], of "l_tiered_out_xid l" "get_last_xid l"] assms(6)
  have "concat (map (batch_entries l) (batches (l_tiered_out_xid l) (get_last_xid l))) =
      filter (\<lambda>e. l_tiered_out_xid l < entry_xid e) (l_log_deque l)" by simp
  with loop_persists [OF assms(2-4,7,5,6), of K im w] assms(1) show ?thesis
    unfolding start by (auto simp: TieringOut_Snapshot_def)
qed

definition sample_segment_env :: "(string \<Rightarrow> string option) segment_env" where
  "sample_segment_env = \<lparr>se_host = plain_host, se_env = sample_env, se_tier = no_tier, se_uninit = zero_stat, se_heap = (\<lambda>_. NUL)\<rparr>"

definition sample_factory :: SegmentFactory where
  "sample_factory = new_SegmentFactory ''./seg_'' (new_CloudProxy ''proxy'' ''cloud'') 0"

definition sample_codec :: index_codec where
  "sample_codec = \<lparr>ic_text = \<lambda>_. ''i'', ic_merge_text = \<lambda>_ i. (True, i), ic_binary = \<lambda>_. ''i'', ic_parse_binary = \<lambda>_. (True, new_Index)\<rparr>"

definition sample_changes :: FsChangeLog where
  "sample_changes = (new_FsChangeLog ''/p'' 1)\<lparr>l_log_deque := map (\<lambda>x. new_entry\<lparr>e_xid := Some x, e_inode_num := Some x\<rparr>) [1, 2, 3],
     l_next_xid := 4\<rparr>"

lemma sample_factory_ok: "factory_ok sample_factory"
  by (simp add: factory_ok_def sample_factory_def new_SegmentFactory_def)

lemma sample_tree_fine: "paths_fine sample_tree unat"
proof -
  have "\<exists>r. fm_getPathInfo 0 i sample_tree = Val r" for i using sample_tree_info by metis
  moreover have "p \<noteq> 0" if "fm_getPathInfo 0 i sample_tree = Val (STATUS_OK, Some (p, n))" for i p n
    using that sample_tree_info by (cases "i = 2"; cases "i = 3") auto
  ultimately show ?thesis using sample_tree_parents by (simp add: paths_fine_def)
qed

lemma sample_tree_readable: "readable 0 sample_tree i"
proof -
  have rel: "reliable (s_kv sample_tree)"
    by (simp add: sample_tree_def new_FileSystemManager_def reliable_def empty_kvs_def)
  have "meta_wf (sample_meta j p [c])" "m_handle (sample_meta j p [c]) = j" "m_fsId (sample_meta j p [c]) = 0"
    "\<not> S_ISREG (meta_mode (sample_meta j p [c]))" for j p c
    by (simp_all add: sample_meta_def meta_wf_def NAME_MAX_def new_LogFSMetaData_def meta_mode_def ModeFromMeta_def
        S_ISREG_def ifmt_defs prot_bits_def no_prot_def no_perm_def flag_def)
  then have "inode_inv (opened 0 2 (sample_meta 2 1 ''d''), s_kv sample_tree)" "\<not> S_ISREG (meta_mode (sample_meta 2 1 ''d''))"
    "inode_inv (opened 0 3 (sample_meta 3 2 ''f''), s_kv sample_tree)" "\<not> S_ISREG (meta_mode (sample_meta 3 2 ''f''))"
    by (simp_all add: inode_inv_def sample_tree_def new_FileSystemManager_def key_simps)
  then have "holds_other 0 sample_tree 2" "holds_other 0 sample_tree 3"
    using rel unfolding holds_other_def by blast+
  moreover have "holds_nothing sample_tree i" if "i \<noteq> 2" "i \<noteq> 3"
    using rel that by (simp add: holds_nothing_def sample_tree_def new_FileSystemManager_def key_simps)
  ultimately show ?thesis unfolding readable_def by blast
qed

theorem snapshot_reaches_end_of_log_witness:
  "\<exists>im' w'. TieringOut_Snapshot sample_segment_env sample_codec sample_factory id
      (new_IndexManager (new_CloudProxy ''proxy'' ''cloud'') TEXT_FORMAT, sample_tree\<lparr>s_change_log := Some sample_changes\<rparr>, \<lambda>_. None) =
    Some (Val (im', sample_tree\<lparr>s_change_log := Some (sample_changes\<lparr>l_tiered_out_xid := 3\<rparr>)\<rparr>, w')) \<and>
    persist_batches sample_segment_env sample_codec sample_factory id sample_changes [(2, 3)]
      (new_IndexManager (new_CloudProxy ''proxy'' ''cloud'') TEXT_FORMAT, sample_tree\<lparr>s_change_log := Some sample_changes\<rparr>, \<lambda>_. None) =
    Some (Val (im', sample_tree\<lparr>s_change_log := Some (sample_changes\<lparr>l_tiered_out_xid := 3\<rparr>)\<rparr>, w'))"
proof -
  have "batches 1 3 = [(2, 3)]" by (simp add: batches.simps)
  moreover have "log_numbered 1 0 sample_changes" "get_last_xid sample_changes = 3" "l_tiered_out_xid sample_changes = 1"
    by (auto simp: log_numbered_def sample_changes_def nth_Cons' get_last_xid_def entry_xid_def new_FsChangeLog_def)
  moreover have "MountSnapshot id (sample_tree\<lparr>s_change_log := Some sample_changes\<rparr>) = sample_tree"
    by (simp add: MountSnapshot_def sample_tree_def new_FileSystemManager_def)
  then have "snapshot_ready (se_host sample_segment_env) sample_factory id unat
      (sample_tree\<lparr>s_change_log := Some sample_changes\<rparr>) sample_changes"
    using sample_tree_fine sample_factory_ok sample_tree_readable
    by (auto simp: snapshot_ready_def makes_dirs_def sample_segment_env_def plain_host_def sample_changes_def new_entry_def
        sample_factory_def new_SegmentFactory_def)
  ultimately show ?thesis
    using snapshot_reaches_end_of_log [of "sample_tree\<lparr>s_change_log := Some sample_changes\<rparr>" sample_changes 1 sample_segment_env
        sample_factory id unat sample_codec
        "new_IndexManager (new_CloudProxy ''proxy'' ''cloud'') TEXT_FORMAT" "\<lambda>_. None"] by simp blast
qed

end
