(* ===== verification/TieringIn.thy ===== *)
theory TieringIn
  imports TieringLive FileEvict
begin

text \<open>
  The tiering-in agent (\<^verbatim>\<open>src/src/tiering/tiering_in_agent.{h,cc}\<close>), which opens the latest copy of an
  inode in a segment, and what it gives back of the files that a snapshot stored.
\<close>

section \<open>The agent\<close>

record TieringInAgent =
  ti_run_thread :: bool
  ti_stop_requested :: bool

definition new_TieringInAgent :: TieringInAgent where
  "new_TieringInAgent = \<lparr>ti_run_thread = False, ti_stop_requested = False\<rparr>"

definition ti_SetOptions :: "string \<Rightarrow> TieringInAgent \<Rightarrow> int \<times> TieringInAgent" where
  "ti_SetOptions options a = (0, a)"

definition ti_Start :: "TieringInAgent \<Rightarrow> int \<times> TieringInAgent" where
  "ti_Start a = (if ti_run_thread a then (EINVAL, a)
     else (0, a\<lparr>ti_stop_requested := False, ti_run_thread := True\<rparr>))"

definition ti_RequestStop :: "TieringInAgent \<Rightarrow> int \<times> TieringInAgent" where
  "ti_RequestStop a = (0, a\<lparr>ti_stop_requested := True\<rparr>)"

definition ti_Join :: "TieringInAgent \<Rightarrow> TieringInAgent outcome" where
  "ti_Join a = expect (ti_run_thread a) (Val (a\<lparr>ti_run_thread := False\<rparr>))"

interpretation tia: worker ti_run_thread ti_stop_requested ti_Start ti_RequestStop ti_Join
  by unfold_locales (simp_all add: ti_Start_def ti_RequestStop_def ti_Join_def)

definition XID_MAX :: int where
  "XID_MAX = 2 ^ 63 - 1"

definition TieringIn_Open ::
  "'w host \<Rightarrow> SegmentFactory \<Rightarrow> IndexManager \<Rightarrow> u64 \<Rightarrow> int \<Rightarrow> 'w \<Rightarrow> TieredInFile option \<times> 'w" where
  "TieringIn_Open H sf im inode_num min_xid w =
     (case GetSegment (sint inode_num) min_xid im of
        None \<Rightarrow> (None, w)
      | Some (proto_segment, inode_offset) \<Rightarrow>
          let (segment, w) = OpenSegment H proto_segment sf w
          in Segment_OpenFile H inode_offset WHOLE_FILE segment w)"

section \<open>What was stored is served\<close>

text \<open>
  The host serves the segments of a factory: its working directory, the commands that make
  tarballs and exchange them with the cloud, which leave the working directory alone, and an
  index file outside of it.
\<close>

definition serves_segment ::
  "'w host \<Rightarrow> ('w \<Rightarrow> string \<Rightarrow> string option) \<Rightarrow> (string \<Rightarrow> bool) \<Rightarrow> SegmentFactory \<Rightarrow> int \<Rightarrow> int \<Rightarrow> IndexManager \<Rightarrow> bool" where
  "serves_segment H files area sf f l im \<longleftrightarrow> stages H files area \<and>
     quiet H files (tar_create_cmd (tarball_name f l sf) (working_dir_name f l sf)) \<and>
     quiet H files (proxy_Sync_cmd SYNC_OUT (sf_cloud_proxy sf)) \<and> quiet H files (proxy_Sync_cmd SYNC_IN (sf_cloud_proxy sf)) \<and>
     \<not> area (index_path im)"

lemma index_path_Update [simp]: "index_path (snd (index_Update sg im)) = index_path im"
  by (simp add: index_Update_def index_path_def Let_def)

lemma Flush_elsewhere:
  assumes "files_work H files area" "\<not> area (index_path im)"
  shows "files (snd (index_Flush K H im w)) = files w"
  using files_work_elsewhere [OF assms]
  by (simp add: index_Flush_def case_prod_unfold Let_def split: IndexFormat.split)

lemma finish_segment_spec:
  assumes "serves_segment H files area sf f l im" "sg_tarball_path sg = tarball_name f l sf" "sg_temp_dir sg = working_dir_name f l sf"
  shows "\<exists>w'. finish_segment H K sf sg im w = (snd (index_Update (sg\<lparr>sg_committed := True\<rparr>) im), w') \<and> files w' = files w"
proof -
  have q: "quiet H files (tar_create_cmd (tarball_name f l sf) (working_dir_name f l sf))"
    "quiet H files (proxy_Sync_cmd SYNC_OUT (sf_cloud_proxy sf))" "files_work H files area" "\<not> area (index_path im)"
    using assms(1) by (simp_all add: serves_segment_def stages_def)
  let ?im = "snd (index_Update (sg\<lparr>sg_committed := True\<rparr>) im)"
  obtain w1 where w1: "hs_system H (tar_create_cmd (tarball_name f l sf) (working_dir_name f l sf)) w = (0, w1)" "files w1 = files w"
    using quiet_system [OF q(1)] by blast
  let ?w2 = "snd (index_Flush K H ?im w1)"
  have w2: "files ?w2 = files w1" using Flush_elsewhere [OF q(3)] q(4) by simp
  obtain r w3 where "Sync H SYNC_OUT (sf_cloud_proxy sf) ?w2 = (r, w3)" "files w3 = files ?w2"
    using quiet_system [OF q(2)] by (metis Sync_def)
  with w1 w2 assms(2,3) show ?thesis
    by (simp add: finish_segment_def Segment_Commit_def case_prod_unfold Let_def)
qed

lemma touch_path_keeps: "smap_ok paths \<Longrightarrow> smap_find paths i = Some p \<Longrightarrow>
  smap_ok (touch_path j paths) \<and> smap_find (touch_path j paths) i = Some p"
  using smap.valid_insert [of paths] smap.lookup_insert [of paths]
  by (auto simp: touch_path_def split: option.splits)

lemma sort_by_path_keeps:
  assumes "smap_ok paths" "smap_find paths i = Some p"
  shows "smap_find (snd (sort_by_path paths inos)) i = Some p"
proof -
  have "smap_ok (fold touch_path js qs) \<and> smap_find (fold touch_path js qs) i = Some p"
    if "smap_ok qs \<and> smap_find qs i = Some p" for js qs
    using that touch_path_keeps by (induction js arbitrary: qs) auto
  with assms show ?thesis by (auto simp: sort_by_path_def)
qed

lemma GetPaths_ok: "smap_ok acc \<Longrightarrow> GetPaths ss inos acc = Some (Val paths) \<Longrightarrow> smap_ok paths"
  using smap.valid_insert
  by (induction inos arbitrary: acc) (fastforce simp: tbind_Val_iff split: if_splits)+

text \<open>Opening a file of a segment that the index lists.\<close>

lemma Open_staged:
  assumes "serves_segment H files area sf f l im" "factory_ok sf" "0 \<le> f" "f < 10 ^ 20" "0 \<le> l" "l < 10 ^ 20"
    and "GetSegment (sint ino) x im' = Some (ps, inode_offset_of (sint ino, p))" "ps_first_xid ps = Some f" "ps_last_xid ps = Some l"
    and "area (working_dir_name f l sf @ ''/'' @ p)" "files w (working_dir_name f l sf @ ''/'' @ p) = Some c"
  shows "\<exists>tf w'. TieringIn_Open H sf im' ino x w = (Some tf, w') \<and> tier_serves tf ino c"
proof -
  let ?d = "working_dir_name f l sf"
  note d = working_dir_ok [OF assms(2-6)]
  have st: "stages H files area" "quiet H files (proxy_Sync_cmd SYNC_IN (sf_cloud_proxy sf))"
    using assms(1) by (simp_all add: serves_segment_def)
  obtain w1 where w1: "MkdirPath H ?d w = (0, w1)" "files w1 = files w"
    using MkdirPath_stages [OF st(1) d(2)] by blast
  obtain r w2 where w2: "PinFile H (string_field (ps_name ps)) (sf_cloud_proxy sf) w1 = (r, w2)" "files w2 = files w1"
    using quiet_system [OF st(2)] by (metis PinFile_def proxy_PinFile_cmd_def)
  have "files w2 (?d @ ''/'' @ p) = Some c" using w1(2) w2(2) assms(11) by simp
  then obtain w3 where "hs_open H (?d @ ''/'' @ p) w2 = (Some (fdesc_of c), w3)"
    using files_work_open [of H files area "?d @ ''/'' @ p" w2 c] st(1) assms(10) unfolding stages_def by blast
  with w1(1) w2(1) d assms(7-9)
  have "TieringIn_Open H sf im' ino x w = (Some (tiered_file (fdesc_of c) (inode_offset_of (sint ino, p))), w3)"
    by (simp add: TieringIn_Open_def OpenSegment_def MakeWorkingDir_def Segment_OpenFile_def new_Segment_def inode_offset_of_def)
  moreover have "tier_serves (tiered_file (fdesc_of c) (inode_offset_of (sint ino, p))) ino c"
    by (simp add: tier_serves_def tiered_file_def inode_offset_of_def)
  ultimately show ?thesis by blast
qed

section \<open>A snapshot and back\<close>

text \<open>
  What a batch needs: the host, its inodes, and paths that the working directory of the segment
  takes.
\<close>

definition batch_ready ::
  "'w host \<Rightarrow> ('w \<Rightarrow> string \<Rightarrow> string option) \<Rightarrow> (string \<Rightarrow> bool) \<Rightarrow> SegmentFactory \<Rightarrow> 'y fsys_scheme \<Rightarrow> u64 list \<Rightarrow> int \<Rightarrow> int \<Rightarrow>
   IndexManager \<Rightarrow> 'z fsys_scheme \<Rightarrow> (u64, string) smap \<Rightarrow> bool" where
  "batch_ready H files area sf ss inos f l im s paths \<longleftrightarrow> serves_segment H files area sf f l im \<and> factory_ok sf \<and>
     0 \<le> f \<and> f < 10 ^ 20 \<and> 0 \<le> l \<and> l < 10 ^ 20 \<and> GetPaths ss inos [] = Some (Val paths) \<and>
     batch_ok area (working_dir_name f l sf) (sf_fs_id sf) s (snd (sort_by_path paths inos)) inos"

lemma makes_dirs_stages: "stages H files area \<Longrightarrow> makes_dirs H"
  by (simp add: stages_def makes_dirs_def quiet_def)

lemma AddSegment_stages:
  assumes "stages H files area" "factory_ok sf" "0 \<le> f" "f < 10 ^ 20" "0 \<le> l" "l < 10 ^ 20"
  shows "\<exists>w'. AddSegment H f l sf w = (Some ((new_Segment (working_dir_name f l sf) (tarball_name f l sf) (sf_fs_id sf))
      \<lparr>sg_first_xid := f, sg_last_xid := l\<rparr>), w') \<and> files w' = files w"
proof -
  note d = working_dir_ok [OF assms(2-6)]
  obtain w' where "MkdirPath H (working_dir_name f l sf) w = (0, w')" "files w' = files w"
    using MkdirPath_stages [OF assms(1) d(2)] by blast
  with d show ?thesis by (simp add: AddSegment_def MakeWorkingDir_def)
qed

lemma batch_ok_perm:
  "set inos' = set inos \<Longrightarrow> distinct inos' \<Longrightarrow> batch_ok area d fs s paths inos \<Longrightarrow> batch_ok area d fs s paths inos'"
  by (simp add: batch_ok_def)

lemma Persister_stores:
  assumes "batch_ready H files area sf ss inos f l im s paths" "se_host E = H" "paths \<noteq> []"
  shows "\<exists>im' w'. Persister_Snapshot E K sf ss inos f l (im, s, w) = Some (Val (0, im', s, w')) \<and>
    (\<forall>ino \<in> set inos. \<forall>p c x. smap_find paths ino = Some p \<longrightarrow> holds_file (sf_fs_id sf) s ino c \<longrightarrow> l \<le> x \<longrightarrow>
       (\<exists>tf w''. TieringIn_Open H sf im' ino x w' = (Some tf, w'') \<and> tier_serves tf ino c))"
proof -
  let ?dir = "working_dir_name f l sf" and ?inos = "fst (sort_by_path paths inos)" and ?paths = "snd (sort_by_path paths inos)"
  have ready: "serves_segment H files area sf f l im" "factory_ok sf" "0 \<le> f" "f < 10 ^ 20" "0 \<le> l" "l < 10 ^ 20"
    and gp: "GetPaths ss inos [] = Some (Val paths)" and batch: "batch_ok area ?dir (sf_fs_id sf) s ?paths inos"
    using assms(1) by (simp_all add: batch_ready_def)
  have st: "stages H files area" using ready(1) by (simp add: serves_segment_def)
  let ?sg = "(new_Segment ?dir (tarball_name f l sf) (sf_fs_id sf))\<lparr>sg_first_xid := f, sg_last_xid := l\<rparr>"
  obtain w1 where w1: "AddSegment H f l sf w = (Some ?sg, w1)" using AddSegment_stages [OF st ready(2-6)] by blast
  have sg: "sg_temp_dir ?sg = ?dir" "sg_fs_id ?sg = sf_fs_id sf" "sg_inode_paths ?sg = []" by (simp_all add: new_Segment_def)
  have set_inos: "set ?inos = set inos" "distinct ?inos" using batch by (simp_all add: sort_by_path_def batch_ok_def)
  have "batch_ok area (sg_temp_dir ?sg) (sg_fs_id ?sg) s ?paths ?inos"
    unfolding sg by (rule batch_ok_perm [OF set_inos batch])
  then obtain ps w2 where add: "add_inodes E ?paths ?inos ?sg s w1 = Val (?sg\<lparr>sg_inode_paths := ps\<rparr>, s, w2)"
    "batch_added files ?dir (sf_fs_id sf) s ?paths ?inos [] w1 ps w2"
    using add_inodes_spec [OF st assms(2), of ?sg s ?paths ?inos w1] unfolding sg by (auto simp: smap.valid_empty)
  let ?sg2 = "?sg\<lparr>sg_inode_paths := ps, sg_committed := True\<rparr>" let ?im = "snd (index_Update ?sg2 im)"
  obtain w3 where w3: "finish_segment H K sf (?sg\<lparr>sg_inode_paths := ps\<rparr>) im w2 = (?im, w3)" "files w3 = files w2"
    using finish_segment_spec [OF ready(1), of "?sg\<lparr>sg_inode_paths := ps\<rparr>" K w2] by (auto simp: new_Segment_def)
  have "Persister_Snapshot E K sf ss inos f l (im, s, w) = Some (Val (0, ?im, s, w3))"
    using gp assms(2,3) w1 add(1) w3(1) by (simp add: Persister_Snapshot_def case_prod_unfold)
  moreover have "\<exists>tf w''. TieringIn_Open H sf ?im ino x w3 = (Some tf, w'') \<and> tier_serves tf ino c"
    if ino: "ino \<in> set inos" "smap_find paths ino = Some p" "holds_file (sf_fs_id sf) s ino c" "l \<le> x" for ino p c x
  proof (rule Open_staged [OF ready, where p = p])
    have p: "smap_find ?paths ino = Some p"
      using sort_by_path_keeps [OF GetPaths_ok [OF _ gp] ino(2)] by (simp add: smap.valid_empty)
    then have "map_of ps (sint ino) = Some p"
      using add(2) ino(1) set_inos(1) holds_exclusive(1) [OF ino(3)] by (simp add: batch_added_def)
    with ino(4) show "GetSegment (sint ino) x ?im = Some (new_ProtoSegment\<lparr>ps_name := Some (tarball_name f l sf),
        ps_first_xid := Some f, ps_last_xid := Some l, ps_inode_offset := map inode_offset_of ps\<rparr>, inode_offset_of (sint ino, p))"
      by (simp add: GetSegment_Update new_Segment_def)
    show "area (?dir @ ''/'' @ p)" using batch ino(1) p by (simp add: batch_ok_def)
    show "files w3 (?dir @ ''/'' @ p) = Some c"
      using add(2) ino(1,3) set_inos(1) p w3(2) by (simp add: batch_added_def)
  qed simp_all
  ultimately show ?thesis by blast
qed

end
