(* ===== verification/TieringSpec.thy ===== *)
theory TieringSpec
  imports TieringIn
begin

text \<open>
  The tiering components together: a file that a snapshot stored can be evicted from the store
  and is read back unchanged through the tiering-in agent.
\<close>

lemma holds_file_object:
  assumes "file_ok (this, s_kv s)" "S_ISREG (meta_mode (f_meta this))"
  shows "holds_file (f_fsId this) s (f_handle this) (content (this, s_kv s))"
  unfolding holds_file_def
  by (intro exI [of _ "f_meta this"])
    (use assms in \<open>simp add: file_ok_def data_inv_def inode_inv_def resident_def content_def f_size_def f_csz_def\<close>)

text \<open>
  C4. Nothing is lost by tiering: a snapshot of a batch of inodes that includes a regular file
  succeeds; after it the file's data can be evicted from the store, all chunks of it, and a read
  through the tiering-in agent returns exactly the bytes the file had, and leaves the file
  resident with its old contents. Required of the host is that files hold what is written to
  them and that the shell commands succeed without touching the working directory of the segment.
\<close>

theorem tier_out_evict_read:
  assumes "batch_ready H files area sf ss inos f l im s paths" "se_host E = H" "l \<le> XID_MAX"
    and "file_ok (this, s_kv s)" "f_handle this \<in> set inos" "f_fsId this = sf_fs_id sf" "S_ISREG (meta_mode (f_meta this))"
    and "smap_find paths (f_handle this) = Some p" "off \<le> f_size this" "off + n < 2 ^ 63"
  shows "\<exists>im' w' this1 kv1 this2 kv2.
    Persister_Snapshot E K sf ss inos f l (im, s, w) = Some (Val (0, im', s, w')) \<and>
    Evict b (this, s_kv s) = Val (STATUS_OK, this1, kv1) \<and>
    (\<forall>c < 2 ^ 63. chunk_val kv1 (f_handle this) c = []) \<and>
    file_read env (\<lambda>h. fst (TieringIn_Open H sf im' h XID_MAX w')) (int off) (word_of_nat n) True (this1, kv1) =
      Val (STATUS_OK, word_of_nat (length (take n (drop off (content (this, s_kv s))))),
        take n (drop off (content (this, s_kv s))), this2, kv2) \<and>
    file_ok (this2, kv2) \<and> content (this2, kv2) = content (this, s_kv s)"
proof -
  let ?c = "content (this, s_kv s)"
  have stored: "holds_file (sf_fs_id sf) s (f_handle this) ?c" using holds_file_object [OF assms(4,7)] assms(6) by simp
  have "paths \<noteq> []" using assms(8) by (auto simp: smap_find_def)
  then obtain im' w' tf w'' where snap: "Persister_Snapshot E K sf ss inos f l (im, s, w) = Some (Val (0, im', s, w'))"
    and tf: "TieringIn_Open H sf im' (f_handle this) XID_MAX w' = (Some tf, w'')" "tier_serves tf (f_handle this) ?c"
    using Persister_stores [OF assms(1,2), of K w] assms(3,5,8) stored by blast
  let ?tier = "\<lambda>h. fst (TieringIn_Open H sf im' h XID_MAX w')"
  obtain this1 kv1 where ev: "Evict b (this, s_kv s) = Val (STATUS_OK, this1, kv1)" "evicted (this1, kv1)"
    "f_size this1 = f_size this" "f_handle this1 = f_handle this" "\<And>c. c < 2 ^ 63 \<Longrightarrow> chunk_val kv1 (f_handle this) c = []"
    using Evict_spec [OF assms(4)] by metis
  obtain this2 kv2 where "file_read env ?tier (int off) (word_of_nat n) True (this1, kv1) =
      Val (STATUS_OK, word_of_nat (length (take n (drop off ?c))), take n (drop off ?c), this2, kv2)"
    "file_ok (this2, kv2)" "content (this2, kv2) = ?c"
    using read_evicted [OF ev(2), of ?tier tf ?c off n env] tf ev(3,4) assms(9,10) by auto
  with snap ev show ?thesis by blast
qed

section \<open>An example\<close>

theorem tier_out_evict_read_witness:
  "\<exists>im' w' this1 kv1 this2 kv2.
    Persister_Snapshot sample_segment_env sample_codec sample_factory abc_store [5] 1 1
      (new_IndexManager (new_CloudProxy ''proxy'' ''cloud'') TEXT_FORMAT, abc_store, \<lambda>_. None) = Some (Val (0, im', abc_store, w')) \<and>
    Evict sample_stat (opened 0 5 abc_meta, s_kv abc_store) = Val (STATUS_OK, this1, kv1) \<and>
    file_read sample_env (\<lambda>h. fst (TieringIn_Open plain_host sample_factory im' h XID_MAX w')) 1 8 True (this1, kv1) =
      Val (STATUS_OK, 2, ''bc'', this2, kv2)"
proof -
  let ?im = "new_IndexManager (new_CloudProxy ''proxy'' ''cloud'') TEXT_FORMAT"
  let ?area = "\<lambda>p. take 2 p = ''./''" let ?files = "\<lambda>(w :: string \<Rightarrow> string option) p. if ?area p then w p else None"
  have rel: "reliable (s_kv abc_store)" using abc_file(1) by (simp add: file_ok_def data_inv_def)
  have info: "fm_getPathInfo 0 5 abc_store = Val (STATUS_OK, Some (1, ''f''))"
    using fm_getPathInfo_stored [OF rel, of 5 abc_meta 0] abc_file(1) by (simp add: file_ok_def inode_inv_def abc_meta_simps)
  have "path_chain abc_store 5 ([] @ [''f''])"
    by (rule path_chain.child [OF _ info]) (use path_chain.root [of abc_store] in \<open>simp_all add: ROOT_HANDLE_def\<close>)
  then have paths: "GetPaths abc_store [5] [] = Some (Val [(5, ''f'')])"
    using get_path_loop_chain [of abc_store 5 "[''f'']" "[]"] by (simp add: GetPath_def join_path_def)
  have "serves_segment plain_host ?files ?area sample_factory 1 1 ?im"
    using plain_host_works [of ?area] plain_host_quiet
    by (simp add: serves_segment_def stages_def index_path_def new_IndexManager_def LocalPath_def new_CloudProxy_def)
  moreover have "holds_file 0 abc_store 5 ''abc''"
    using abc_file abc_meta_simps(9) unfolding holds_file_def by blast
  then have "batch_ok ?area (working_dir_name 1 1 sample_factory) 0 abc_store [(5, ''f'')] [5]"
    by (auto simp: batch_ok_def working_dir_name_def sample_factory_def new_SegmentFactory_def smap_find_def
        show_int_bounds(2) [of 1, simplified])
  ultimately have "batch_ready plain_host ?files ?area sample_factory abc_store [5] 1 1 ?im abc_store [(5, ''f'')]"
    using paths sample_factory_ok
    by (simp add: batch_ready_def sort_by_path_def sample_factory_def new_SegmentFactory_def)
  from tier_out_evict_read [OF this, of sample_segment_env "opened 0 5 abc_meta" "''f''" 1 8 sample_codec "\<lambda>_. None" sample_stat sample_env]
  show ?thesis
    using abc_file abc_meta_simps(9)
    by (simp add: sample_segment_env_def XID_MAX_def sample_factory_def new_SegmentFactory_def smap_find_def f_size_def
        abc_meta_simps(6)) blast
qed

end
