(* ===== verification/Eviction.thy ===== *)
theory Eviction
  imports TieringOut MountNames
begin

text \<open>
  The eviction agent (\<^verbatim>\<open>src/src/tiering/eviction_agent.{h,cc}\<close>): a pass over the change log up to
  what was tiered out, which removes the data of files that have not been modified for two
  seconds. It works on the mount, whose change log is the one it was given.
\<close>

section \<open>The agent\<close>

record EvictionAgent =
  ea_stop_requested :: bool
  ea_eviction_requested :: bool
  ea_run_thread :: bool

definition new_EvictionAgent :: EvictionAgent where
  "new_EvictionAgent = \<lparr>ea_stop_requested = False, ea_eviction_requested = False, ea_run_thread = False\<rparr>"

definition ea_Start :: "EvictionAgent \<Rightarrow> int \<times> EvictionAgent" where
  "ea_Start a = (if ea_run_thread a then (EINVAL, a)
     else (0, a\<lparr>ea_stop_requested := False, ea_run_thread := True\<rparr>))"

definition ea_RequestStop :: "EvictionAgent \<Rightarrow> int \<times> EvictionAgent" where
  "ea_RequestStop a = (0, a\<lparr>ea_stop_requested := True\<rparr>)"

definition ea_RequestEviction :: "EvictionAgent \<Rightarrow> EvictionAgent" where
  "ea_RequestEviction a = a\<lparr>ea_eviction_requested := True\<rparr>"

definition ea_Join :: "EvictionAgent \<Rightarrow> EvictionAgent outcome" where
  "ea_Join a = expect (ea_run_thread a) (Val (a\<lparr>ea_run_thread := False\<rparr>))"

section \<open>A pass of evictions\<close>

definition eviction_age :: int where
  "eviction_age = 2"

text \<open>The body of the loop, for one inode. The reference that \<^verbatim>\<open>GetInode\<close> takes is not released.\<close>

definition consider_inode :: "fenv \<Rightarrow> u64 \<Rightarrow> KvfsMount \<Rightarrow> KvfsMount outcome" where
  "consider_inode E inode_num m =
     obind (get_or_create E inode_num m) (\<lambda>(inodep, m).
     obind (Getattr_stat inodep m) (\<lambda>(err, stat, m).
       if err \<noteq> 0 then Val m
       else if S_ISDIR (st_mode stat) then Val m
       else if S_ISREG (st_mode stat)
       then (if now (fe_env E) - st_mtime stat \<ge> eviction_age
             then obind (Inode_Evict E inodep m) (\<lambda>(evict_ret, m). Val m)
             else Val m)
       else Val m))"

fun consider_inodes :: "fenv \<Rightarrow> u64 list \<Rightarrow> KvfsMount \<Rightarrow> KvfsMount outcome" where
  "consider_inodes E [] m = Val m"
| "consider_inodes E (inode_num # inode_nums) m =
     obind (consider_inode E inode_num m) (consider_inodes E inode_nums)"

definition set_eviction_next_xid :: "int \<Rightarrow> 'z fsys_scheme \<Rightarrow> 'z fsys_scheme" where
  "set_eviction_next_xid xid s = s\<lparr>s_change_log := map_option (\<lambda>l. l\<lparr>l_eviction_next_xid := xid\<rparr>) (s_change_log s)\<rparr>"

text \<open>The store's \<^verbatim>\<open>Compact\<close> is virtual: it is an argument.\<close>

definition CompactDatabase :: "(kvs \<Rightarrow> kvs) \<Rightarrow> 'z fsys_scheme \<Rightarrow> 'z fsys_scheme" where
  "CompactDatabase compact s = s\<lparr>s_kv := compact (s_kv s)\<rparr>"

definition ProcessEvictions :: "fenv \<Rightarrow> (kvs \<Rightarrow> kvs) \<Rightarrow> KvfsMount \<Rightarrow> KvfsMount outcome" where
  "ProcessEvictions E compact m =
     (case s_change_log m of
        None \<Rightarrow> Undef
      | Some l \<Rightarrow>
          let first_xid = l_eviction_next_xid l;
              last_xid = l_tiered_out_xid l
          in obind (FsChangeLog_Read first_xid last_xid l) (\<lambda>(log_entries, first_xid).
               let inode_nums = GetInodes log_entries;
                   last_xid = (if log_entries \<noteq> [] then entry_xid (List.last log_entries) else last_xid)
               in obind (consider_inodes E inode_nums m) (\<lambda>m.
                    Val (set_eviction_next_xid (last_xid + 1) (CompactDatabase compact m)))))"

text \<open>One wake-up of the thread: the state of the mount and whether the thread goes on.\<close>

definition ea_wake :: "fenv \<Rightarrow> (kvs \<Rightarrow> kvs) \<Rightarrow> EvictionAgent \<Rightarrow> KvfsMount \<Rightarrow> (bool \<times> EvictionAgent \<times> KvfsMount) outcome" where
  "ea_wake E compact a m =
     obind (if ea_eviction_requested a
            then obind (ProcessEvictions E compact m) (\<lambda>m. Val (a\<lparr>ea_eviction_requested := False\<rparr>, m))
            else Val (a, m)) (\<lambda>(a, m).
     Val (\<not> ea_stop_requested a, a, m))"

interpretation ea: worker ea_run_thread ea_stop_requested ea_Start ea_RequestStop ea_Join
  by unfold_locales (simp_all add: ea_Start_def ea_RequestStop_def ea_Join_def)

section \<open>Eviction keeps the invariant of the mount\<close>

lemma Getattr_stat_wp [wp]:
  assumes "mount_inv m" "\<And>r st m'. mount_inv m' \<Longrightarrow> s_change_log m' = s_change_log m \<Longrightarrow> Q (r, st, m')"
  shows "wpo Q (Getattr_stat a m)"
  using assms by (auto simp: Getattr_stat_def intro!: wp)

lemma Inode_Evict_wp [wp]:
  assumes "mount_inv m" "\<And>r m'. mount_inv m' \<Longrightarrow> s_change_log m' = s_change_log m \<Longrightarrow> Q (r, m')"
  shows "wpo Q (Inode_Evict E a m)"
  using assms by (auto simp: Inode_Evict_def intro!: wp on_file_wp [OF _ Evict_id])

lemma consider_inode_wp:
  assumes "mount_inv m" "\<And>m'. mount_inv m' \<Longrightarrow> s_change_log m' = s_change_log m \<Longrightarrow> Q m'"
  shows "wpo Q (consider_inode E ino m)"
  using assms by (auto simp: consider_inode_def intro!: wp)

lemma consider_inodes_wp:
  "mount_inv m \<Longrightarrow> (\<And>m'. mount_inv m' \<Longrightarrow> s_change_log m' = s_change_log m \<Longrightarrow> Q m') \<Longrightarrow> wpo Q (consider_inodes E inos m)"
proof (induction inos arbitrary: m)
  case Nil
  then show ?case by simp
next
  case (Cons i inos)
  show ?case by (simp, rule consider_inode_wp [OF Cons.prems(1)], rule Cons.IH) (use Cons.prems(2) in auto)
qed

lemma mount_inv_eviction_next [simp]: "mount_inv (set_eviction_next_xid x m) = mount_inv m"
  by (cases "s_change_log m")
    (simp_all add: mount_inv_def set_eviction_next_xid_def log_inv_def table_ok_def log_ordered_def)

lemma ProcessEvictions_wp:
  assumes "mount_inv m"
  shows "wpo mount_inv (ProcessEvictions E compact m)"
  using assms
  by (cases "s_change_log m")
    (auto simp: ProcessEvictions_def CompactDatabase_def Let_def wpo_iff [of _ "FsChangeLog_Read _ _ _"] intro!: consider_inodes_wp)

section \<open>What a pass evicts\<close>

lemma regular_not_dir: "S_ISREG mode \<Longrightarrow> \<not> S_ISDIR mode"
  by (simp add: S_ISREG_def S_ISDIR_def ifmt_defs)

text \<open>A regular file that is not in the table of inodes and was last modified long enough ago.\<close>

lemma consider_old_file:
  assumes "km_inode_map m ino = None" "file_ok (opened (km_fs_id m) ino meta, s_kv m)" "S_ISREG (meta_mode meta)"
    and "now (fe_env E) - uint (m_mtime meta) \<ge> eviction_age"
  shows "\<exists>m'. consider_inode E ino m = Val m' \<and> s_change_log m' = s_change_log m \<and>
    (\<forall>c < 2 ^ 63. chunk_val (s_kv m') ino c = []) \<and> same_elsewhere ino (s_kv m) (s_kv m')"
proof -
  let ?fs = "km_fs_id m" and ?a = "km_next_addr m" let ?t = "opened ?fs ino meta"
  have inv: "reliable (s_kv m)" "inode_inv (?t, s_kv m)" using assms(2) by (simp_all add: file_ok_def data_inv_def)
  obtain t' kv' where ev: "Evict (fe_uninit E) (?t, s_kv m) = Val (STATUS_OK, t', kv')"
    "\<And>c. c < 2 ^ 63 \<Longrightarrow> chunk_val kv' ino c = []" "same_elsewhere ino (s_kv m) kv'"
    using Evict_spec [OF assms(2), of "fe_uninit E"] by (metis opened_simps(2))
  let ?i0 = "(new_FuseKvfsInode E ?fs ino)\<lparr>i_nlookup := 1\<rparr>"
  let ?m0 = "m\<lparr>km_inodes := (km_inodes m)(?a := Some ?i0), km_inode_map := (km_inode_map m)(ino := Some ?a), km_next_addr := Suc ?a\<rparr>"
  have held: "get_or_create E ino m = Val (?a, ?m0)"
    using assms(1) by (simp add: get_or_create_def GetInode_def Hold_def get_inode_def put_inode_def new_FuseKvfsInode_def)
  let ?i1 = "?i0\<lparr>i_attr := stat_of_meta meta, i_file := ?t, i_state := CLEAN\<rparr>"
  let ?m1 = "put_inode ?a ?i1 ?m0"
  have "Refresh ?a ?m0 = Val (0, ?m1)"
    using stat_stored [OF inv] by (simp add: Refresh_def get_inode_def new_FuseKvfsInode_def put_inode_def StatusToErrno_def)
  then have attr: "Getattr_stat ?a ?m0 = Val (0, stat_of_meta meta, ?m1)"
    by (simp add: Getattr_stat_def get_inode_def put_inode_def)
  have mode: "S_ISREG (st_mode (stat_of_meta meta))" "\<not> S_ISDIR (st_mode (stat_of_meta meta))"
    using assms(3) regular_not_dir by (simp_all add: stat_of_meta_def meta_mode_def)
  have "Inode_Evict E ?a ?m1 = Val (status_code STATUS_OK, (put_inode ?a (?i1\<lparr>i_file := t'\<rparr>) ?m1)\<lparr>s_kv := kv'\<rparr>)"
    using ev(1) by (simp add: Inode_Evict_def Refresh_def on_file_def get_inode_def put_inode_def)
  moreover have "now (fe_env E) - st_mtime (stat_of_meta meta) \<ge> eviction_age" using assms(4) by (simp add: stat_of_meta_def)
  ultimately have "consider_inode E ino m = Val ((put_inode ?a (?i1\<lparr>i_file := t'\<rparr>) ?m1)\<lparr>s_kv := kv'\<rparr>)"
    using held attr mode by (simp add: consider_inode_def)
  with ev(2,3) show ?thesis by (auto simp: put_inode_def)
qed

text \<open>
  C30. A pass of evictions removes data that was never tiered out. Take a log without gaps in which
  the entries since the last pass that were tiered out are about one file, and which has a later entry
  for the same file that was not tiered out; the file is regular, is stored, is not held in the inode
  table and has not been modified for two seconds. The pass then removes its data from the store. It
  looks only at the entries up to the last one tiered out and does not compare them with the state of
  the inode.
\<close>

theorem eviction_removes_newer_changes:
  assumes "s_change_log m = Some l" "log_numbered z 0 l" "l_eviction_next_xid l - z < 2 ^ 31"
    and "GetInodes (filter (\<lambda>e. l_eviction_next_xid l \<le> entry_xid e \<and> entry_xid e \<le> l_tiered_out_xid l) (l_log_deque l)) = [ino]"
    and "e \<in> set (l_log_deque l)" "e_inode_num e = Some (sint ino)" "l_tiered_out_xid l < entry_xid e"
    and "km_inode_map m ino = None" "file_ok (opened (km_fs_id m) ino meta, s_kv m)" "S_ISREG (meta_mode meta)"
    and "now (fe_env E) - uint (m_mtime meta) \<ge> eviction_age" "\<And>kv. kv_data (compact kv) = kv_data kv"
  shows "\<exists>m'. ProcessEvictions E compact m = Val m' \<and> (\<forall>c < 2 ^ 63. chunk_val (s_kv m') ino c = [])"
proof -
  let ?es = "filter (\<lambda>e. l_eviction_next_xid l \<le> entry_xid e \<and> entry_xid e \<le> l_tiered_out_xid l) (l_log_deque l)"
  obtain m1 where m1: "consider_inode E ino m = Val m1" "\<forall>c < 2 ^ 63. chunk_val (s_kv m1) ino c = []"
    using consider_old_file [OF assms(8-11)] by blast
  have "FsChangeLog_Read (l_eviction_next_xid l) (l_tiered_out_xid l) l = Val (?es, max (l_eviction_next_xid l) z)"
    using Read_range [OF assms(2,3)] .
  with m1(1) assms(1,4) obtain x where
    "ProcessEvictions E compact m = Val (set_eviction_next_xid x (CompactDatabase compact m1))"
    by (simp add: ProcessEvictions_def Let_def)
  moreover have "chunk_val (compact kv) ino c = chunk_val kv ino c" for kv c using assms(12) by (simp add: chunk_val_def)
  ultimately show ?thesis using m1(2) by (simp add: set_eviction_next_xid_def CompactDatabase_def)
qed

definition twice_changed :: FsChangeLog where
  "twice_changed = (new_FsChangeLog ''/p'' 1)\<lparr>l_log_deque := map (\<lambda>x. new_entry\<lparr>e_xid := Some x, e_inode_num := Some 5\<rparr>) [1, 2],
     l_next_xid := 3\<rparr>"

theorem eviction_removes_newer_changes_witness:
  "\<exists>m'. ProcessEvictions sample_fenv id (new_KvfsMount (abc_store\<lparr>s_change_log := Some twice_changed\<rparr>) 0) = Val m' \<and>
    (\<forall>c < 2 ^ 63. chunk_val (s_kv m') 5 c = [])"
proof (rule eviction_removes_newer_changes [of _ twice_changed 1 _ "new_entry\<lparr>e_xid := Some 2, e_inode_num := Some 5\<rparr>" abc_meta])
  show "log_numbered 1 0 twice_changed"
    by (auto simp: log_numbered_def twice_changed_def nth_Cons')
  show "GetInodes (filter (\<lambda>e. l_eviction_next_xid twice_changed \<le> entry_xid e \<and> entry_xid e \<le> l_tiered_out_xid twice_changed)
      (l_log_deque twice_changed)) = [5]"
    by (simp add: twice_changed_def new_FsChangeLog_def entry_xid_def GetInodes_def)
  show "file_ok (opened (km_fs_id (new_KvfsMount (abc_store\<lparr>s_change_log := Some twice_changed\<rparr>) 0)) 5 abc_meta,
      s_kv (new_KvfsMount (abc_store\<lparr>s_change_log := Some twice_changed\<rparr>) 0))"
    using abc_file(1) by (simp add: new_KvfsMount_def)
qed (simp_all add: abc_meta_simps new_KvfsMount_def twice_changed_def new_FsChangeLog_def entry_xid_def eviction_age_def
    sample_fenv_def sample_env_def, simp add: abc_meta_def new_LogFSMetaData_def)

end
