(* ===== verification/Web.thy ===== *)
theory Web
  imports Eviction
begin

text \<open>
  The web controller (\<^verbatim>\<open>src/src/tiering/web_controller.{h,cc}\<close>) and the web server under it
  (\<^verbatim>\<open>src/src/tiering/restful_web_server.{h,cc}\<close>): commands arrive as the path of a URL and become
  requests to the agents. The HTTP library is outside the program: whether it could bind the port
  is an argument, and what is sent to a client is a list of strings.
\<close>

section \<open>The web server\<close>

record RESTfulWebServer =
  ws_http_port :: string
  ws_handler :: bool
  ws_initialized :: bool
  ws_stop_requested :: bool
  ws_polling_thread :: bool

definition new_RESTfulWebServer :: "string \<Rightarrow> RESTfulWebServer" where
  "new_RESTfulWebServer http_port = \<lparr>ws_http_port = http_port, ws_handler = False, ws_initialized = False,
     ws_stop_requested = False, ws_polling_thread = False\<rparr>"

definition ws_set_handler :: "RESTfulWebServer \<Rightarrow> RESTfulWebServer" where
  "ws_set_handler s = s\<lparr>ws_handler := True\<rparr>"

definition ws_Init :: "bool \<Rightarrow> RESTfulWebServer \<Rightarrow> bool \<times> RESTfulWebServer" where
  "ws_Init binds s = (binds, if binds then s\<lparr>ws_initialized := True\<rparr> else s)"

definition ws_StartPollingThread :: "RESTfulWebServer \<Rightarrow> int \<times> RESTfulWebServer" where
  "ws_StartPollingThread s = (if ws_polling_thread s then (EINVAL, s)
     else (0, s\<lparr>ws_stop_requested := False, ws_polling_thread := True\<rparr>))"

definition ws_RequestStop :: "RESTfulWebServer \<Rightarrow> RESTfulWebServer" where
  "ws_RequestStop s = s\<lparr>ws_stop_requested := True\<rparr>"

definition ws_Join :: "RESTfulWebServer \<Rightarrow> RESTfulWebServer outcome" where
  "ws_Join s = expect (ws_polling_thread s) (Val s)"

datatype mg_event = MG_EV_HTTP_REQUEST string | MG_EV_OTHER

definition CRLF :: string where
  "CRLF = [CHR 0x0D, CHR 0x0A]"

definition QUOTE :: string where
  "QUOTE = [CHR 0x22]"

text \<open>
  \<open>handle\<close> is \<^verbatim>\<open>HandleEvent\<close> on a state; the result is what was sent and the state. A result with
  a NUL byte is cut there, since it is printed as a C string.
\<close>

definition StaticHandleEvent ::
  "(string \<Rightarrow> 's \<Rightarrow> string \<times> 's) \<Rightarrow> mg_event \<Rightarrow> RESTfulWebServer \<Rightarrow> 's \<Rightarrow> (string list \<times> 's) outcome" where
  "StaticHandleEvent handle ev rws st =
     (case ev of
        MG_EV_HTTP_REQUEST uri \<Rightarrow>
          if ws_handler rws
          then expect (length uri < 10000)
            (let (result_string, st) = handle uri st
             in Val ([''HTTP/1.1 200 OK'' @ CRLF @ ''Transfer-Encoding: chunked'' @ CRLF @ CRLF,
                      ''{ '' @ QUOTE @ ''Result'' @ QUOTE @ '': '' @ QUOTE @ c_str result_string @ QUOTE @ '' }'' @ [CHR 0x0A],
                      []], st))
          else Abort
      | MG_EV_OTHER \<Rightarrow> Val ([], st))"

text \<open>
  The polling thread. Each poll delivers the events that arrived, and another thread may ask the
  server to stop meanwhile; the flag is looked at before each poll. The result: what was sent,
  whether the loop was left, and the state.
\<close>

datatype poll = Poll "mg_event list" bool

primrec ws_deliver ::
  "(string \<Rightarrow> 's \<Rightarrow> string \<times> 's) \<Rightarrow> mg_event list \<Rightarrow> RESTfulWebServer \<Rightarrow> 's \<Rightarrow> (string list \<times> 's) outcome" where
  "ws_deliver handle [] rws st = Val ([], st)"
| "ws_deliver handle (ev # evs) rws st =
     obind (StaticHandleEvent handle ev rws st) (\<lambda>(sent, st).
       obind (ws_deliver handle evs rws st) (\<lambda>(more, st). Val (sent @ more, st)))"

fun ws_RunLoop ::
  "(string \<Rightarrow> 's \<Rightarrow> string \<times> 's) \<Rightarrow> poll list \<Rightarrow> RESTfulWebServer \<Rightarrow> 's \<Rightarrow> (string list \<times> bool \<times> RESTfulWebServer \<times> 's) outcome" where
  "ws_RunLoop handle polls rws st =
     (if ws_stop_requested rws then Val ([], True, rws, st)
      else case polls of
             [] \<Rightarrow> Val ([], False, rws, st)
           | Poll evs stop # polls \<Rightarrow>
               obind (ws_deliver handle evs rws st) (\<lambda>(sent, st).
                 obind (ws_RunLoop handle polls (if stop then ws_RequestStop rws else rws) st)
                   (\<lambda>(more, ended, rws, st). Val (sent @ more, ended, rws, st))))"

declare ws_RunLoop.simps [simp del]

section \<open>The controller\<close>

record WebController =
  wc_tcp_port :: int
  wc_web_server :: "RESTfulWebServer option"
  wc_stop_requested :: bool

text \<open>\<^verbatim>\<open>stop_requested\<close> is not set by the constructor, and never read: the model starts it at \<open>False\<close>.\<close>

definition new_WebController :: "int \<Rightarrow> WebController" where
  "new_WebController tcp_port = \<lparr>wc_tcp_port = tcp_port, wc_web_server = None, wc_stop_requested = False\<rparr>"

definition wc_Start :: "bool \<Rightarrow> WebController \<Rightarrow> int \<times> WebController" where
  "wc_Start binds c =
     (let server = ws_set_handler (new_RESTfulWebServer (show_int (wc_tcp_port c)));
          (_, server) = ws_Init binds server;
          (_, server) = ws_StartPollingThread server
      in (0, c\<lparr>wc_web_server := Some server\<rparr>))"

definition wc_RequestStop :: "WebController \<Rightarrow> int \<times> WebController" where
  "wc_RequestStop c =
     (let c = c\<lparr>wc_stop_requested := True\<rparr>
      in case wc_web_server c of
           None \<Rightarrow> (EINVAL, c)
         | Some server \<Rightarrow> (0, c\<lparr>wc_web_server := Some (ws_RequestStop server)\<rparr>))"

definition wc_Join :: "WebController \<Rightarrow> WebController outcome" where
  "wc_Join c = (case wc_web_server c of
     None \<Rightarrow> Abort
   | Some server \<Rightarrow> obind (ws_Join server) (\<lambda>server. Val (c\<lparr>wc_web_server := Some server\<rparr>)))"

definition SetXidsInResult :: "FsChangeLog \<Rightarrow> string" where
  "SetXidsInResult l =
     '' tiered_out_xid='' @ show_int (l_tiered_out_xid l) @ '' log_last_xid='' @ show_int (get_last_xid l) @
     '' log_next_xid='' @ show_int (l_next_xid l) @ '' eviction_next_xid='' @ show_int (l_eviction_next_xid l)"

text \<open>
  The state is that of the two agents; \<open>dump\<close> and \<open>dbstats\<close> are what the store prints about
  itself.
\<close>

definition HandleWebEvent ::
  "string \<Rightarrow> string \<Rightarrow> FsChangeLog \<Rightarrow> string \<Rightarrow> TieringOutAgent \<times> EvictionAgent \<Rightarrow> string \<times> TieringOutAgent \<times> EvictionAgent" where
  "HandleWebEvent dump dbstats l event_string = (\<lambda>(toa, ea).
     let result = ''event_string='' @ event_string
     in if event_string = ''/STOP'' then (result @ ''Stop requested'', snd (to_RequestStop toa), ea)
        else if event_string = ''/SNAP'' then (result @ SetXidsInResult l, to_RequestSnapshot toa, ea)
        else if event_string = ''/STAT'' then (result @ SetXidsInResult l, toa, ea)
        else if event_string = ''/EVICT'' then (result @ SetXidsInResult l, toa, ea_RequestEviction ea)
        else if event_string = ''/DUMP'' then (result @ dump, toa, ea)
        else if event_string = ''/DBSTATS'' then (result @ dbstats, toa, ea)
        else (result @ ''Unknown command: '' @ [CHR 0x27] @ event_string @ [CHR 0x27], toa, ea))"

section \<open>The polling loop\<close>

lemma deliver_append:
  "ws_deliver handle (evs @ evs') rws st =
     obind (ws_deliver handle evs rws st) (\<lambda>(sent, st).
       obind (ws_deliver handle evs' rws st) (\<lambda>(more, st). Val (sent @ more, st)))"
proof (induction evs arbitrary: st)
  case Nil
  show ?case by (cases "ws_deliver handle evs' rws st") auto
next
  case (Cons ev evs)
  show ?case by (simp add: Cons.IH obind_assoc case_prod_unfold)
qed

text \<open>
  Everything that arrives until the server is asked to stop is handled, in the order of arrival, the
  events of the poll in which the request comes included; then the loop is left, and nothing that
  comes later is looked at.
\<close>

lemma RunLoop_serves_until_stop:
  assumes "\<not> ws_stop_requested rws"
  shows "ws_RunLoop handle (map (\<lambda>evs. Poll evs False) batches @ Poll evs True # later) rws st =
    obind (ws_deliver handle (concat batches @ evs) rws st) (\<lambda>(sent, st). Val (sent, True, ws_RequestStop rws, st))"
proof (induction batches arbitrary: st)
  case Nil
  have "ws_RunLoop handle later (ws_RequestStop rws) st' = Val ([], True, ws_RequestStop rws, st')" for st'
    by (simp add: ws_RunLoop.simps [of handle later] ws_RequestStop_def)
  then show ?case using assms by (simp add: ws_RunLoop.simps [of handle "_ # _"])
next
  case (Cons batch batches)
  then show ?case using assms
    by (simp add: ws_RunLoop.simps [of handle "_ # _"] deliver_append obind_assoc case_prod_unfold)
qed

section \<open>Requests over the web\<close>

text \<open>
  C32. A request that arrives while a snapshot is running is lost: the agent clears the flag after
  the snapshot, not before it. From any state in which the thread is at work and was not asked to
  stop, a request for a snapshot over the web followed by the end of the running snapshot leaves
  the agent asleep with no request, and its next step starts nothing.
\<close>

theorem snapshot_request_is_lost:
  assumes "\<not> to_stop_requested a"
  shows "\<exists>a'. to_step (Working, n, a) (Working, n, fst (snd (HandleWebEvent dump dbstats l ''/SNAP'' (a, ea)))) \<and>
    to_step (Working, n, fst (snd (HandleWebEvent dump dbstats l ''/SNAP'' (a, ea)))) (Sleeping, n, a') \<and>
    \<not> to_snapshot_requested a' \<and> \<not> to_step (Sleeping, n, a') (Working, Suc n, a')"
proof -
  let ?a1 = "to_RequestSnapshot a" and ?a2 = "(to_RequestSnapshot a)\<lparr>to_snapshot_requested := False\<rparr>"
  have "fst (snd (HandleWebEvent dump dbstats l ''/SNAP'' (a, ea))) = ?a1" by (simp add: HandleWebEvent_def)
  moreover have "to_step (Working, n, a) (Working, n, ?a1)" by (rule to_step.request)
  moreover have "to_step (Working, n, ?a1) (Sleeping, n, ?a2)"
    using to_step.end_snapshot [of n ?a1] assms by (simp add: to_RequestSnapshot_def)
  moreover have "\<not> to_step (Sleeping, n, ?a2) (Working, Suc n, ?a2)"
    by (auto elim: to_step.cases)
  ultimately show ?thesis by (intro exI [of _ ?a2]) auto
qed

theorem snapshot_request_is_lost_witness:
  "\<exists>a'. to_step (Working, 1, new_TieringOutAgent)
      (Working, 1, fst (snd (HandleWebEvent [] [] (sample_log 0) ''/SNAP'' (new_TieringOutAgent, new_EvictionAgent)))) \<and>
    to_step (Working, 1, fst (snd (HandleWebEvent [] [] (sample_log 0) ''/SNAP'' (new_TieringOutAgent, new_EvictionAgent))))
      (Sleeping, 1, a') \<and> \<not> to_snapshot_requested a'"
  using snapshot_request_is_lost [of new_TieringOutAgent 1 "[]" "[]" "sample_log 0" new_EvictionAgent]
  by (auto simp: new_TieringOutAgent_def)

end
