(* ===== verification/System.thy ===== *)
theory System
  imports TieringSpec Web
begin

text \<open>
  The program as a whole: a mount that serves FUSE requests while the eviction agent and the
  tiering-out agent work on the same inodes and the same change log. The agents and the FUSE
  session are threads of one process; each handler and each pass of an agent is taken as one
  step.
\<close>

inductive system_reaches ::
  "fenv \<Rightarrow> 'w segment_env \<Rightarrow> index_codec \<Rightarrow> SegmentFactory \<Rightarrow> (kvs \<Rightarrow> kvs) \<Rightarrow> (kvs \<Rightarrow> kvs) \<Rightarrow>
   IndexManager \<times> KvfsMount \<times> 'w \<Rightarrow> IndexManager \<times> KvfsMount \<times> 'w \<Rightarrow> bool"
  for E SE K sf compact snapshot where
  start: "system_reaches E SE K sf compact snapshot st st"
| serve: "system_reaches E SE K sf compact snapshot st (im, m, w) \<Longrightarrow> fk_oper E req m = Val (r, m') \<Longrightarrow>
    system_reaches E SE K sf compact snapshot st (im, m', w)"
| evict: "system_reaches E SE K sf compact snapshot st (im, m, w) \<Longrightarrow> ProcessEvictions E compact m = Val m' \<Longrightarrow>
    system_reaches E SE K sf compact snapshot st (im, m', w)"
| tier_out: "system_reaches E SE K sf compact snapshot st (im, m, w) \<Longrightarrow>
    TieringOut_Snapshot SE K sf snapshot (im, m, w) = Some (Val (im', m', w')) \<Longrightarrow>
    system_reaches E SE K sf compact snapshot st (im', m', w')"

section \<open>Snapshots keep the invariant of the mount\<close>

lemma mount_inv_tiered_out:
  assumes "mount_inv m" "s_change_log m = Some l"
  shows "mount_inv (m\<lparr>s_kv := kv, s_change_log := Some (l\<lparr>l_tiered_out_xid := x\<rparr>)\<rparr>)"
  using assms by (simp add: mount_inv_def log_inv_def table_ok_def log_ordered_def)

lemma snapshot_pass_inv:
  assumes "mount_inv m" "snapshot_pass E K sf snapshot e (im, m, w) = Some (Val (im', m', w'))"
  shows "mount_inv m'"
proof (cases "s_change_log m")
  case None
  with assms(2) show ?thesis by (simp add: snapshot_pass_def)
next
  case (Some l)
  obtain es where "s_change_log m' = Some (l\<lparr>l_tiered_out_xid := entry_xid (List.last es)\<rparr>)"
    "\<exists>kv. m' = m\<lparr>s_kv := kv, s_change_log := s_change_log m'\<rparr>"
    using snapshot_pass_Val [OF assms(2) Some] by metis
  with mount_inv_tiered_out [OF assms(1) Some] show ?thesis by metis
qed

lemma Snapshot_inv:
  assumes "mount_inv m" "TieringOut_Snapshot E K sf snapshot (im, m, w) = Some (Val (im', m', w'))"
  shows "mount_inv m'"
proof -
  obtain l where l: "s_change_log m = Some l"
    "snapshot_loop E K sf snapshot (get_last_xid l) (im, m, w) = Some (Val (im', m', w'))"
    using assms(2) by (auto simp: TieringOut_Snapshot_def split: option.splits)
  have "mount_inv (fst (snd st'))" if "mount_inv (fst (snd st))" "snapshot_pass E K sf snapshot (get_last_xid l) st = Some (Val st')" for st st'
    using snapshot_pass_inv that by (cases st; cases st') auto
  with snapshot_loop_result [of "\<lambda>st. mount_inv (fst (snd st))", OF _ _ l(2)] assms(1) show ?thesis by fastforce
qed

lemma system_inv:
  "system_reaches E SE K sf compact snapshot st st' \<Longrightarrow> mount_inv (fst (snd st)) \<Longrightarrow> mount_inv (fst (snd st'))"
proof (induction rule: system_reaches.induct)
  case (serve st im m w req r m')
  then show ?case using oper_inv [of m E req] by simp
next
  case (evict st im m w m')
  then show ?case using ProcessEvictions_wp [of m E compact] by (simp add: wpo_iff)
next
  case (tier_out st im m w im' m' w')
  then show ?case using Snapshot_inv by simp
qed simp

end
