(* ===== verification/Config.thy ===== *)
theory Config
  imports Host
begin

text \<open>
  The configuration file (\<^verbatim>\<open>src/src/Config.{h,cc}\<close>): loading a JSON document, the accessors of
  its settings, and the test program of the module that prints the settings back.

  The JSON library and the calendar functions of the C library are outside the program: they are
  records of functions that the definitions take as arguments.
\<close>

section \<open>The libraries\<close>

text \<open>
  \<^verbatim>\<open>json-c\<close>. A \<^verbatim>\<open>json_object*\<close> may be null, which is how the library represents the JSON value
  \<^verbatim>\<open>null\<close> as well. \<open>jc_get_ex\<close> is \<open>None\<close> where \<^verbatim>\<open>json_object_object_get_ex\<close> returns false, and the
  string of an object is the C string, up to its first NUL.
\<close>

datatype json_type = json_type_null | json_type_boolean | json_type_double | json_type_int
  | json_type_object | json_type_array | json_type_string

record 'j json_c =
  jc_parse :: "string \<Rightarrow> 'j option"
  jc_get_ex :: "'j option \<Rightarrow> string \<Rightarrow> 'j option option"
  jc_get_type :: "'j option \<Rightarrow> json_type"
  jc_get_string :: "'j option \<Rightarrow> string"
  jc_get_int :: "'j option \<Rightarrow> int"

text \<open>
  \<^verbatim>\<open>strptime\<close> fills in a structure it is given; \<open>cl_uninit\<close> is what an uninitialised one holds.
  \<^verbatim>\<open>mktime\<close> returns the time and normalises the structure, \<^verbatim>\<open>timezone\<close> is a global it sets.
\<close>

record 'tm calendar =
  cl_uninit :: 'tm
  cl_strptime :: "string \<Rightarrow> string \<Rightarrow> 'tm \<Rightarrow> 'tm option"
  cl_mktime :: "'tm \<Rightarrow> int \<times> 'tm"
  cl_timezone :: int
  cl_isdst :: "'tm \<Rightarrow> int"
  cl_gmtime :: "int \<Rightarrow> 'tm"
  cl_strftime :: "nat \<Rightarrow> string \<Rightarrow> 'tm \<Rightarrow> string"

section \<open>Numbers of the C library\<close>

definition c_isspace :: "char \<Rightarrow> bool" where
  "c_isspace c \<longleftrightarrow> c \<in> {CHR 0x20, CHR 0x09, CHR 0x0A, CHR 0x0B, CHR 0x0C, CHR 0x0D}"

definition c_isdigit :: "char \<Rightarrow> bool" where
  "c_isdigit c \<longleftrightarrow> 48 \<le> (of_char c :: nat) \<and> (of_char c :: nat) < 58"

text \<open>
  \<^verbatim>\<open>strtoll(s, &suffix, 10)\<close>: white space, a sign, digits; a number that does not fit becomes the
  nearest that does, and without a digit the suffix is the whole string.
\<close>

definition strtoll :: "string \<Rightarrow> int \<times> string" where
  "strtoll s =
     (let t = dropWhile c_isspace s;
          neg = (t \<noteq> [] \<and> hd t = CHR ''-'');
          t = (if t \<noteq> [] \<and> (hd t = CHR ''-'' \<or> hd t = CHR ''+'') then tl t else t);
          digits = takeWhile c_isdigit t;
          n = int (read_nat digits)
      in if digits = [] then (0, s)
         else (max (- (2 ^ 63)) (min (2 ^ 63 - 1) (if neg then - n else n)), dropWhile c_isdigit t))"

section \<open>Tables\<close>

type_synonym unit_table = "(string \<times> int) list"
type_synonym xlate = "(string \<times> int) list"

definition times_units :: unit_table where
  "times_units = [(''S'', 1), (''s'', 1), (''M'', 60), (''m'', 60), (''H'', 60 * 60), (''h'', 60 * 60),
     (''D'', 24 * 60 * 60), (''d'', 24 * 60 * 60)]"

definition sizes :: unit_table where
  "sizes = [(''B'', 1), (''b'', 1), (''KB'', 1024), (''kb'', 1024), (''MB'', 1024 * 1024), (''mb'', 1024 * 1024),
     (''GB'', 1024 * 1024 * 1024), (''gb'', 1024 * 1024 * 1024),
     (''TB'', 1024 * 1024 * 1024 * 1024), (''tb'', 1024 * 1024 * 1024 * 1024),
     (''XB'', 1024 * 1024 * 1024 * 1024 * 1024), (''xb'', 1024 * 1024 * 1024 * 1024 * 1024)]"

text \<open>The enumerations. A value of an enumeration is its code, since the accessors also return 0.\<close>

datatype kvfsImpl = LevelDB | RoxDB | RAMcloud
datatype persistenceRule = onWrite | onClose | lazy
datatype encryptionAlgorithm = unencrypted | AES_128
datatype compressionAlgorithm = uncompressed | ZIP
datatype cloudAccessProtocol = local_files | S3

primrec kvfsImpl_code :: "kvfsImpl \<Rightarrow> int" where
  "kvfsImpl_code LevelDB = 1" | "kvfsImpl_code RoxDB = 2" | "kvfsImpl_code RAMcloud = 3"

primrec persistenceRule_code :: "persistenceRule \<Rightarrow> int" where
  "persistenceRule_code onWrite = 1" | "persistenceRule_code onClose = 2" | "persistenceRule_code lazy = 3"

primrec encryptionAlgorithm_code :: "encryptionAlgorithm \<Rightarrow> int" where
  "encryptionAlgorithm_code unencrypted = 0" | "encryptionAlgorithm_code AES_128 = 1"

primrec compressionAlgorithm_code :: "compressionAlgorithm \<Rightarrow> int" where
  "compressionAlgorithm_code uncompressed = 0" | "compressionAlgorithm_code ZIP = 1"

primrec cloudAccessProtocol_code :: "cloudAccessProtocol \<Rightarrow> int" where
  "cloudAccessProtocol_code local_files = 0" | "cloudAccessProtocol_code S3 = 1"

definition e_kvs :: xlate where
  "e_kvs = [(''LevelDB'', kvfsImpl_code LevelDB), (''RoxDB'', kvfsImpl_code RoxDB), (''RAMcloud'', kvfsImpl_code RAMcloud)]"

definition e_persist :: xlate where
  "e_persist = [(''on-write'', persistenceRule_code onWrite), (''on-close'', persistenceRule_code onClose),
     (''lazy'', persistenceRule_code lazy)]"

definition e_crypt :: xlate where
  "e_crypt = [(''AES-128'', encryptionAlgorithm_code AES_128)]"

definition e_comp :: xlate where
  "e_comp = [(''ZIP'', compressionAlgorithm_code ZIP)]"

definition e_protocol :: xlate where
  "e_protocol = [(''S3'', cloudAccessProtocol_code S3)]"

section \<open>Loading\<close>

record 'j Config =
  cfg_inbuf :: "string option"
  cfg_tok :: bool
  cfg_root :: "'j option"

text \<open>
  A negative length (a file of 2 GiB or more) is a huge request to \<^verbatim>\<open>malloc\<close>, which fails; other
  requests succeed. The buffer of a short read is allocated and not read again.
\<close>

definition loadFile :: "'j json_c \<Rightarrow> 'w host \<Rightarrow> string \<Rightarrow> 'w \<Rightarrow> 'j Config \<times> 'w" where
  "loadFile J H path w =
     (let this = \<lparr>cfg_inbuf = None, cfg_tok = False, cfg_root = None\<rparr>;
          (fd, w) = hs_open H path w
      in case fd of
           None \<Rightarrow> (this, w)
         | Some f \<Rightarrow>
             (case fd_fstat_size f of
                None \<Rightarrow> (this, w)
              | Some st_size \<Rightarrow>
                  let file_len = to_int32 st_size
                  in if file_len < 0 then (this, w)
                     else case fd_pread f 0 (nat file_len) of
                            None \<Rightarrow> (this\<lparr>cfg_inbuf := Some []\<rparr>, w)
                          | Some inbuf \<Rightarrow>
                              let this = this\<lparr>cfg_inbuf := Some inbuf\<rparr>
                              in if int (length inbuf) \<noteq> file_len then (this, w)
                                 else (this\<lparr>cfg_tok := True, cfg_root := jc_parse J inbuf\<rparr>, w)))"

text \<open>A literal plus an integer is pointer arithmetic: defined up to the end of the literal.\<close>

definition literal_plus :: "string \<Rightarrow> nat \<Rightarrow> string outcome" where
  "literal_plus s n = (if n \<le> length s then Val (drop n s) else Undef)"

definition CBFS_CFG_DIR :: string where
  "CBFS_CFG_DIR = ''/etc/cbfs''"

definition Config_default :: "'j json_c \<Rightarrow> 'w host \<Rightarrow> string \<Rightarrow> 'w \<Rightarrow> ('j Config \<times> 'w) outcome" where
  "Config_default J H file_name w =
     obind (literal_plus CBFS_CFG_DIR (of_char CHR 0x2F)) (\<lambda>p.
     let name = p @ file_name in Val (loadFile J H name w))"

definition Config_in :: "'j json_c \<Rightarrow> 'w host \<Rightarrow> string \<Rightarrow> string \<Rightarrow> 'w \<Rightarrow> 'j Config \<times> 'w" where
  "Config_in J H file_name directory w =
     (let name = directory @ [CHR 0x2F] @ file_name in loadFile J H name w)"

section \<open>Values of an object\<close>

definition getString :: "'j json_c \<Rightarrow> 'j option \<Rightarrow> string \<Rightarrow> string" where
  "getString J obj name =
     (case jc_get_ex J obj name of
        None \<Rightarrow> []
      | Some found \<Rightarrow> if jc_get_type J found \<noteq> json_type_string then [] else jc_get_string J found)"

text \<open>The loop over the units: the multiplier of the first suffix with the same first letter.\<close>

fun find_unit :: "char option \<Rightarrow> unit_table \<Rightarrow> int option" where
  "find_unit c [] = None"
| "find_unit c (u # units) = (if c = Some (hd (fst u)) then Some (snd u) else find_unit c units)"

definition first_char :: "string \<Rightarrow> char option" where
  "first_char s = (case s of [] \<Rightarrow> None | c # _ \<Rightarrow> Some c)"

definition getNumber :: "'j json_c \<Rightarrow> 'j option \<Rightarrow> string \<Rightarrow> unit_table \<Rightarrow> int outcome" where
  "getNumber J obj name units =
     (case jc_get_ex J obj name of
        None \<Rightarrow> Val 0
      | Some found \<Rightarrow>
          if jc_get_type J found = json_type_int then Val (jc_get_int J found)
          else if jc_get_type J found = json_type_string
          then let (val, suffix) = strtoll (jc_get_string J found)
               in case find_unit (first_char suffix) units of
                    None \<Rightarrow> Val val
                  | Some multiplier \<Rightarrow> if in_int64 (val * multiplier) then Val (val * multiplier) else Undef
          else Val 0)"

fun match_enum :: "string \<Rightarrow> xlate \<Rightarrow> int" where
  "match_enum s [] = 0"
| "match_enum s (x # xtable) = (if s = fst x then snd x else match_enum s xtable)"

definition getEnum :: "'j json_c \<Rightarrow> 'j option \<Rightarrow> string \<Rightarrow> xlate \<Rightarrow> int" where
  "getEnum J obj name xtable =
     (case jc_get_ex J obj name of
        None \<Rightarrow> 0
      | Some found \<Rightarrow> if jc_get_type J found \<noteq> json_type_string then 0 else match_enum (jc_get_string J found) xtable)"

section \<open>The settings\<close>

text \<open>Every setting but the name and the identifier is in a section; without the section it has a default.\<close>

definition in_section :: "'j json_c \<Rightarrow> 'j Config \<Rightarrow> string \<Rightarrow> 'a \<Rightarrow> ('j option \<Rightarrow> 'a) \<Rightarrow> 'a" where
  "in_section J this name dflt get =
     (case jc_get_ex J (cfg_root this) name of None \<Rightarrow> dflt | Some obj \<Rightarrow> get obj)"

definition fsName :: "'j json_c \<Rightarrow> 'j Config \<Rightarrow> string" where
  "fsName J this = getString J (cfg_root this) ''name''"

definition fsUUID :: "'j json_c \<Rightarrow> 'j Config \<Rightarrow> string" where
  "fsUUID J this = getString J (cfg_root this) ''uuid''"

definition fsPrimary :: "'j json_c \<Rightarrow> 'j Config \<Rightarrow> string" where
  "fsPrimary J this = in_section J this ''primary'' [] (\<lambda>primary. getString J primary ''host'')"

definition fsEpoch :: "'j json_c \<Rightarrow> 'j Config \<Rightarrow> int outcome" where
  "fsEpoch J this = in_section J this ''primary'' (Val 0) (\<lambda>primary. getNumber J primary ''epoch'' [])"

definition TIMESTAMP :: string where
  "TIMESTAMP = ''%Y-%m-%dT%H:%M:%SZ''"

definition fsEpochStart :: "'j json_c \<Rightarrow> 'tm calendar \<Rightarrow> 'j Config \<Rightarrow> int" where
  "fsEpochStart J C this = in_section J this ''primary'' 0 (\<lambda>primary.
     let s = getString J primary ''starting''
     in case cl_strptime C s TIMESTAMP (cl_uninit C) of
          None \<Rightarrow> 0
        | Some parsedTime \<Rightarrow>
            let (time, parsedTime) = cl_mktime C parsedTime;
                time = time - cl_timezone C
            in if cl_isdst C parsedTime = 1 then time + 3600 else time)"

definition kvsLoc :: "'j json_c \<Rightarrow> 'j Config \<Rightarrow> string" where
  "kvsLoc J this = in_section J this ''kvs'' [] (\<lambda>kvs. getString J kvs ''file'')"

definition kvsType :: "'j json_c \<Rightarrow> 'j Config \<Rightarrow> int" where
  "kvsType J this = in_section J this ''kvs'' 0 (\<lambda>kvs. getEnum J kvs ''type'' e_kvs)"

definition kvsMaxBytes :: "'j json_c \<Rightarrow> 'j Config \<Rightarrow> int outcome" where
  "kvsMaxBytes J this = in_section J this ''kvs'' (Val 0) (\<lambda>kvs. getNumber J kvs ''max_size'' sizes)"

definition persistence :: "'j json_c \<Rightarrow> 'j Config \<Rightarrow> int" where
  "persistence J this = in_section J this ''kvs'' 0 (\<lambda>kvs. getEnum J kvs ''persistence'' e_persist)"

definition encryption :: "'j json_c \<Rightarrow> 'j Config \<Rightarrow> int" where
  "encryption J this = in_section J this ''tiering'' (encryptionAlgorithm_code unencrypted)
     (\<lambda>tier. getEnum J tier ''encryption'' e_crypt)"

definition keyFile :: "'j json_c \<Rightarrow> 'j Config \<Rightarrow> string" where
  "keyFile J this = in_section J this ''tiering'' [] (\<lambda>tier. getString J tier ''encryption_key'')"

definition compression :: "'j json_c \<Rightarrow> 'j Config \<Rightarrow> int" where
  "compression J this = in_section J this ''tiering'' (compressionAlgorithm_code uncompressed)
     (\<lambda>tier. getEnum J tier ''compression'' e_comp)"

definition cacheDir :: "'j json_c \<Rightarrow> 'j Config \<Rightarrow> string" where
  "cacheDir J this = in_section J this ''tiering'' [] (\<lambda>tier. getString J tier ''cache_dir'')"

text \<open>The two settings of type \<^verbatim>\<open>int\<close> keep the low 32 bits of the number.\<close>

definition mirrorLag :: "'j json_c \<Rightarrow> 'j Config \<Rightarrow> int outcome" where
  "mirrorLag J this = in_section J this ''tiering'' (Val 0)
     (\<lambda>tier. obind (getNumber J tier ''mirror_lag'' times_units) (\<lambda>n. Val (to_int32 n)))"

definition freePercent :: "'j json_c \<Rightarrow> 'j Config \<Rightarrow> int outcome" where
  "freePercent J this = in_section J this ''tiering'' (Val 0)
     (\<lambda>tier. obind (getNumber J tier ''free_pct'' []) (\<lambda>n. Val (to_int32 n)))"

definition cacheMaxBytes :: "'j json_c \<Rightarrow> 'j Config \<Rightarrow> int outcome" where
  "cacheMaxBytes J this = in_section J this ''tiering'' (Val 0) (\<lambda>tier. getNumber J tier ''cache_size'' sizes)"

definition objectMaxBytes :: "'j json_c \<Rightarrow> 'j Config \<Rightarrow> int outcome" where
  "objectMaxBytes J this = in_section J this ''tiering'' (Val 0) (\<lambda>tier. getNumber J tier ''max_object'' sizes)"

definition cloudProtocol :: "'j json_c \<Rightarrow> 'j Config \<Rightarrow> int" where
  "cloudProtocol J this = in_section J this ''cloud'' 0 (\<lambda>cloud. getEnum J cloud ''protocol'' e_protocol)"

definition cloudEndpoint :: "'j json_c \<Rightarrow> 'j Config \<Rightarrow> string" where
  "cloudEndpoint J this = in_section J this ''cloud'' [] (\<lambda>cloud. getString J cloud ''endpoint'')"

section \<open>Printing the settings\<close>

definition showDate :: "'tm calendar \<Rightarrow> int \<Rightarrow> string" where
  "showDate C t = cl_strftime C 32 TIMESTAMP (cl_gmtime C t)"

text \<open>The loop of \<^verbatim>\<open>showNumber\<close> on a table that has an entry.\<close>

fun pick_unit :: "int \<Rightarrow> (string \<times> int) \<Rightarrow> unit_table \<Rightarrow> string \<times> int" where
  "pick_unit v x [] = x"
| "pick_unit v x (y # units) = (if v > snd y then pick_unit v y units else x)"

definition showNumber :: "int \<Rightarrow> unit_table option \<Rightarrow> string" where
  "showNumber v table =
     (case table of
        None \<Rightarrow> show_int v
      | Some units \<Rightarrow>
          let (suffix, multiplier) = pick_unit v (hd units) (tl units)
          in show_int (cquot v multiplier) @ suffix)"

fun showEnum :: "int \<Rightarrow> xlate \<Rightarrow> string" where
  "showEnum code [] = ''none''"
| "showEnum code (x # table) = (if snd x = code then fst x else showEnum code table)"

record settings =
  set_name :: string
  set_uuid :: string
  set_primary :: string
  set_epoch :: int
  set_since :: int
  set_kvstype :: int
  set_kvsloc :: string
  set_freepct :: int
  set_persist :: int
  set_kvssize :: int
  set_cachedir :: string
  set_crypt :: int
  set_key :: string
  set_squeeze :: int
  set_lag :: int
  set_cachesize :: int
  set_objsize :: int
  set_proto :: int
  set_url :: string

text \<open>The calls of the test program, in its order.\<close>

definition read_settings :: "'j json_c \<Rightarrow> 'tm calendar \<Rightarrow> 'j Config \<Rightarrow> settings outcome" where
  "read_settings J C cfg =
     obind (fsEpoch J cfg) (\<lambda>epoch.
     obind (freePercent J cfg) (\<lambda>freepct.
     obind (kvsMaxBytes J cfg) (\<lambda>kvssize.
     obind (mirrorLag J cfg) (\<lambda>lag.
     obind (cacheMaxBytes J cfg) (\<lambda>cachesize.
     obind (objectMaxBytes J cfg) (\<lambda>objsize.
     Val \<lparr>set_name = fsName J cfg, set_uuid = fsUUID J cfg, set_primary = fsPrimary J cfg,
          set_epoch = epoch, set_since = fsEpochStart J C cfg,
          set_kvstype = kvsType J cfg, set_kvsloc = kvsLoc J cfg, set_freepct = freepct,
          set_persist = persistence J cfg, set_kvssize = kvssize, set_cachedir = cacheDir J cfg,
          set_crypt = encryption J cfg, set_key = keyFile J cfg, set_squeeze = compression J cfg,
          set_lag = lag, set_cachesize = cachesize, set_objsize = objsize,
          set_proto = cloudProtocol J cfg, set_url = cloudEndpoint J cfg\<rparr>))))))"

text \<open>
  The document the test program prints: the two settings of the root, and the sections with their
  settings, in the order they are printed.
\<close>

definition top_fields :: "settings \<Rightarrow> (string \<times> string) list" where
  "top_fields s = [(''name'', set_name s), (''uuid'', set_uuid s)]"

definition section_fields :: "'tm calendar \<Rightarrow> settings \<Rightarrow> (string \<times> (string \<times> string) list) list" where
  "section_fields C s =
     [(''primary'', [(''host'', set_primary s), (''epoch'', showNumber (set_epoch s) None), (''starting'', showDate C (set_since s))]),
      (''kvs'', [(''type'', showEnum (set_kvstype s) e_kvs), (''file'', set_kvsloc s),
                 (''persistence'', showEnum (set_persist s) e_persist), (''max_size'', showNumber (set_kvssize s) (Some sizes))]),
      (''tiering'', [(''cache_dir'', set_cachedir s), (''encryption'', showEnum (set_crypt s) e_crypt),
                 (''encryption_key'', set_key s), (''compression'', showEnum (set_squeeze s) e_comp),
                 (''mirror_lag'', showNumber (set_lag s) (Some times_units)), (''cache_size'', showNumber (set_cachesize s) (Some sizes)),
                 (''free_pct'', showNumber (set_freepct s) None), (''max_object'', showNumber (set_objsize s) (Some sizes))]),
      (''cloud'', [(''protocol'', showEnum (set_proto s) e_protocol), (''endpoint'', set_url s)])]"

text \<open>
  The text: each setting on a line, with a comma unless it is the last of its section; the last
  section ends its last setting with a comma as well.
\<close>

definition dquoted :: "string \<Rightarrow> string" where
  "dquoted x = [CHR 0x22] @ x @ [CHR 0x22]"

definition print_field :: "string \<Rightarrow> bool \<Rightarrow> string \<times> string \<Rightarrow> string" where
  "print_field indent comma kv =
     [CHR 0x09] @ indent @ dquoted (fst kv) @ '': '' @ dquoted (snd kv) @ (if comma then '','' else []) @ [CHR 0x0A]"

definition print_section :: "bool \<Rightarrow> string \<times> (string \<times> string) list \<Rightarrow> string" where
  "print_section last_one sec =
     [CHR 0x0A, CHR 0x09] @ dquoted (fst sec) @ '': {'' @ [CHR 0x0A] @
     concat (map (print_field ''    '' True) (butlast (snd sec))) @ print_field ''    '' last_one (last (snd sec)) @
     [CHR 0x09] @ ''}'' @ (if last_one then [] else '','') @ [CHR 0x0A]"

definition print_settings :: "'tm calendar \<Rightarrow> settings \<Rightarrow> string" where
  "print_settings C s =
     ''{'' @ [CHR 0x0A] @ concat (map (print_field [] True) (top_fields s)) @
     concat (map (print_section False) (butlast (section_fields C s))) @ print_section True (last (section_fields C s)) @
     ''}'' @ [CHR 0x0A]"

text \<open>The arguments after the name of the program; without any it exits and prints nothing.\<close>

definition config_main ::
  "'j json_c \<Rightarrow> 'tm calendar \<Rightarrow> 'w host \<Rightarrow> string list \<Rightarrow> 'w \<Rightarrow> (string option \<times> 'w) outcome" where
  "config_main J C H args w =
     (case args of
        [] \<Rightarrow> Val (None, w)
      | file_name # rest \<Rightarrow>
          obind (case rest of [] \<Rightarrow> Config_default J H file_name w | dir # _ \<Rightarrow> Val (Config_in J H file_name dir w)) (\<lambda>(cfg, w).
          obind (read_settings J C cfg) (\<lambda>s. Val (Some (print_settings C s), w))))"

text \<open>
  The constructor without a directory adds the code of the slash to a pointer to the nine
  characters of the default directory.
\<close>

lemma default_directory_undefined: "Config_default J H file_name w = Undef"
  by (simp add: Config_default_def literal_plus_def CBFS_CFG_DIR_def)

section \<open>Reading a printed number\<close>

lemma show_int_digits: "c \<in> set (show_nat n) \<Longrightarrow> c_isdigit c"
  using set_show_nat by (simp add: c_isdigit_def)

lemma show_nat_nonempty [simp]: "show_nat n \<noteq> []"
  by (simp add: show_nat.simps [of n])

lemma hd_show_nat: "c_isdigit (hd (show_nat n))"
  by (rule show_int_digits [of _ n]) simp

lemma digit_facts: "c_isdigit c \<Longrightarrow> \<not> c_isspace c" "c_isdigit c \<Longrightarrow> c \<noteq> CHR ''-''" "c_isdigit c \<Longrightarrow> c \<noteq> CHR ''+''"
  "\<not> c_isspace CHR ''-''"
  by (auto simp: c_isdigit_def c_isspace_def)

lemma digits_append:
  assumes "\<forall>c \<in> set ds. c_isdigit c" "suffix = [] \<or> \<not> c_isdigit (hd suffix)"
  shows "takeWhile c_isdigit (ds @ suffix) = ds" "dropWhile c_isdigit (ds @ suffix) = suffix"
  using assms by (cases suffix; simp)+

lemma strtoll_show:
  assumes "in_int64 q" "suffix = [] \<or> \<not> c_isdigit (hd suffix)"
  shows "strtoll (show_int q @ suffix) = (q, suffix)"
proof -
  obtain c ds where n: "show_nat (nat \<bar>q\<bar>) = c # ds" by (cases "show_nat (nat \<bar>q\<bar>)") simp_all
  have c: "c_isdigit c" using hd_show_nat [of "nat \<bar>q\<bar>"] by (simp add: n)
  have all: "\<forall>c \<in> set (show_nat (nat \<bar>q\<bar>)). c_isdigit c" using show_int_digits by blast
  have split: "takeWhile c_isdigit (c # ds @ suffix) = c # ds" "dropWhile c_isdigit (c # ds @ suffix) = suffix"
    using digits_append [OF all assms(2)] by (simp_all add: n)
  have val: "int (read_nat (c # ds)) = \<bar>q\<bar>" using read_show_nat [of "nat \<bar>q\<bar>"] unfolding n by simp
  show ?thesis
  proof (cases "q < 0")
    case True
    then have "show_int q = CHR ''-'' # c # ds" using n by (simp add: show_int_def)
    with True split val assms(1) show ?thesis
      by (simp add: strtoll_def Let_def digit_facts c)
  next
    case False
    then have "show_int q = c # ds" using n by (simp add: show_int_def)
    with False split val assms(1) c show ?thesis
      by (simp add: strtoll_def Let_def digit_facts c)
  qed
qed

text \<open>
  A table of units that can be read back: ascending, as the comment above the tables asks for,
  and with first letters that tell the multipliers apart.
\<close>

definition units_ok :: "unit_table \<Rightarrow> bool" where
  "units_ok units \<longleftrightarrow> units \<noteq> [] \<and> snd (hd units) = 1 \<and> sorted (map snd units) \<and>
     list_all (\<lambda>u. fst u \<noteq> [] \<and> \<not> c_isdigit (hd (fst u)) \<and> 0 < snd u \<and>
       find_unit (Some (hd (fst u))) units = Some (snd u)) units"

lemma tables_ok: "units_ok times_units" "units_ok sizes"
  by (simp_all add: units_ok_def times_units_def sizes_def c_isdigit_def)

text \<open>A number in whole units: the largest unit below it, or one.\<close>

definition whole_units :: "unit_table \<Rightarrow> int \<Rightarrow> int" where
  "whole_units units v = (let u = Max (insert 1 ({m \<in> snd ` set units. m < v})) in v div u * u)"

lemma pick_unit_in: "pick_unit v x units \<in> set (x # units)"
  by (induction v x units rule: pick_unit.induct) auto

lemma pick_unit_Max:
  "sorted (map snd (x # units)) \<Longrightarrow> snd (pick_unit v x units) = Max (insert (snd x) ({m \<in> snd ` set units. m < v}))"
proof (induction v x units rule: pick_unit.induct)
  case (1 v x)
  then show ?case by simp
next
  case (2 v x y units)
  let ?S = "{m \<in> snd ` set units. m < v}"
  show ?case
  proof (cases "v > snd y")
    case True
    have "{m \<in> snd ` set (y # units). m < v} = insert (snd y) ?S" using True by auto
    moreover have "Max (insert (snd x) (insert (snd y) ?S)) = Max (insert (snd y) ?S)"
      using "2.prems" by (auto simp: Max_insert2 max_def Max_ge_iff intro!: antisym)
    ultimately show ?thesis using 2 True by simp
  next
    case False
    then have "{m \<in> snd ` set (y # units). m < v} = {}" using "2.prems" by auto
    then have "insert (snd x) {m \<in> snd ` set (y # units). m < v} = {snd x}" by blast
    with False show ?thesis by (simp only: pick_unit.simps if_False Max_singleton)
  qed
qed

lemma shown_unit:
  assumes "units_ok units" "pick_unit v (hd units) (tl units) = (suffix, u)"
  shows "suffix \<noteq> []" "\<not> c_isdigit (hd suffix)" "0 < u" "find_unit (first_char suffix) units = Some u"
    "u = Max (insert 1 ({m \<in> snd ` set units. m < v}))" "u = 1 \<or> u < v"
proof -
  obtain x rest where units: "units = x # rest" using assms(1) by (cases units) (auto simp: units_ok_def)
  have "(suffix, u) \<in> set units" using pick_unit_in [of v x rest] assms(2) units by simp
  then show "suffix \<noteq> []" "\<not> c_isdigit (hd suffix)" "0 < u" "find_unit (first_char suffix) units = Some u"
    using assms(1) by (auto simp: units_ok_def list_all_iff first_char_def split: list.splits)
  have u: "u = Max (insert 1 ({m \<in> snd ` set rest. m < v}))"
    using pick_unit_Max [of x rest v] assms units by (auto simp: units_ok_def)
  also have "insert 1 ({m \<in> snd ` set rest. m < v}) = insert 1 ({m \<in> snd ` set units. m < v})"
    using assms(1) units by (auto simp: units_ok_def)
  finally show "u = Max (insert 1 ({m \<in> snd ` set units. m < v}))" .
  have "u \<in> insert 1 ({m \<in> snd ` set rest. m < v})" unfolding u by (rule Max_in) auto
  then show "u = 1 \<or> u < v" by auto
qed

definition string_field_is :: "'j json_c \<Rightarrow> 'j option \<Rightarrow> string \<Rightarrow> string \<Rightarrow> bool" where
  "string_field_is J obj name v \<longleftrightarrow>
     (\<exists>x. jc_get_ex J obj name = Some x \<and> jc_get_type J x = json_type_string \<and> jc_get_string J x = v)"

lemma getString_field: "string_field_is J obj name v \<Longrightarrow> getString J obj name = v"
  by (auto simp: string_field_is_def getString_def)

lemma getNumber_shown:
  assumes "string_field_is J obj name (showNumber v (Some units))" "units_ok units" "in_int64 v"
  shows "getNumber J obj name units = Val (whole_units units v)"
proof -
  obtain suffix u where p: "pick_unit v (hd units) (tl units) = (suffix, u)" by fastforce
  note u = shown_unit [OF assms(2) p]
  have q: "cquot v u = v div u" using u(3,6) by (cases "0 \<le> v") (auto simp: cquot_def sgn_if)
  have le: "v div u * u \<le> v" "v div u * u > v - u" 
    using u(3) by (simp_all add: minus_mod_eq_div_mult [symmetric])
  have "in_int64 (v div u)"
  proof (cases "u = 1")
    case True
    with assms(3) show ?thesis by simp
  next
    case False
    with u(3,6) have "0 < v" by simp
    then have "0 \<le> v div u" "v div u \<le> v" using u(3) by (simp add: pos_imp_zdiv_nonneg_iff) (smt (verit) \<open>0 < v\<close> int_div_less_self u(3) div_by_1)
    with assms(3) show ?thesis by simp
  qed
  then have st: "strtoll (showNumber v (Some units)) = (v div u, suffix)"
    using u(1,2) q strtoll_show by (simp add: showNumber_def p)
  have "in_int64 (v div u * u)" using u(6) le assms(3) by auto
  with st assms(1) u(4,5) show ?thesis
    by (auto simp: getNumber_def string_field_is_def whole_units_def Let_def)
qed

lemma getNumber_plain:
  assumes "string_field_is J obj name (showNumber v None)" "in_int64 v"
  shows "getNumber J obj name [] = Val v"
  using assms strtoll_show [of v "[]"] by (auto simp: getNumber_def string_field_is_def showNumber_def)

definition enum_ok :: "xlate \<Rightarrow> bool" where
  "enum_ok table \<longleftrightarrow> distinct (map fst table) \<and> distinct (map snd table) \<and> 0 \<notin> snd ` set table \<and> ''none'' \<notin> fst ` set table"

lemma enum_tables_ok: "enum_ok e_kvs" "enum_ok e_persist" "enum_ok e_crypt" "enum_ok e_comp" "enum_ok e_protocol"
  by (simp_all add: enum_ok_def e_kvs_def e_persist_def e_crypt_def e_comp_def e_protocol_def)

lemma match_enum_map_of: "match_enum s table = (case map_of table s of None \<Rightarrow> 0 | Some c \<Rightarrow> c)"
  by (induction table) auto

lemma showEnum_in: "code \<in> snd ` set table \<Longrightarrow> (showEnum code table, code) \<in> set table"
  by (induction table) auto

lemma showEnum_none: "code \<notin> snd ` set table \<Longrightarrow> showEnum code table = ''none''"
  by (induction table) auto

lemma match_enum_shown:
  assumes "enum_ok table" "code = 0 \<or> code \<in> snd ` set table"
  shows "match_enum (showEnum code table) table = code"
proof (cases "code \<in> snd ` set table")
  case True
  with assms(1) showEnum_in [OF True] show ?thesis by (simp add: match_enum_map_of enum_ok_def)
next
  case False
  moreover have "map_of table ''none'' = None" using assms(1) by (simp add: enum_ok_def map_of_eq_None_iff)
  ultimately show ?thesis using assms(2) by (simp add: showEnum_none match_enum_map_of)
qed

lemma getEnum_shown:
  "string_field_is J obj name (showEnum code table) \<Longrightarrow> enum_ok table \<Longrightarrow> code = 0 \<or> code \<in> snd ` set table \<Longrightarrow>
   getEnum J obj name table = code"
  using match_enum_shown [of table code] by (auto simp: getEnum_def string_field_is_def)

section \<open>Reading the printed settings\<close>

text \<open>What a document holds: the root and its sections have the given settings as strings.\<close>

definition reads_fields :: "'j json_c \<Rightarrow> 'j option \<Rightarrow> (string \<times> string) list \<Rightarrow> bool" where
  "reads_fields J obj kvs \<longleftrightarrow> list_all (\<lambda>(k, v). string_field_is J obj k v) kvs"

definition reads_document ::
  "'j json_c \<Rightarrow> 'j option \<Rightarrow> (string \<times> string) list \<Rightarrow> (string \<times> (string \<times> string) list) list \<Rightarrow> bool" where
  "reads_document J root tops sections \<longleftrightarrow> reads_fields J root tops \<and>
     list_all (\<lambda>(k, kvs). \<exists>x. jc_get_ex J root k = Some x \<and> reads_fields J x kvs) sections"

text \<open>The ranges of the settings: what their C++ types and enumerations hold.\<close>

definition settings_ok :: "settings \<Rightarrow> bool" where
  "settings_ok s \<longleftrightarrow> in_int64 (set_epoch s) \<and> in_int64 (set_kvssize s) \<and> in_int64 (set_cachesize s) \<and>
     in_int64 (set_objsize s) \<and> in_int32 (set_freepct s) \<and> in_int32 (set_lag s) \<and>
     (set_kvstype s = 0 \<or> set_kvstype s \<in> range kvfsImpl_code) \<and>
     (set_persist s = 0 \<or> set_persist s \<in> range persistenceRule_code) \<and>
     set_crypt s \<in> range encryptionAlgorithm_code \<and> set_squeeze s \<in> range compressionAlgorithm_code \<and>
     set_proto s \<in> range cloudAccessProtocol_code"

definition whole_settings :: "settings \<Rightarrow> settings" where
  "whole_settings s = s\<lparr>set_kvssize := whole_units sizes (set_kvssize s), set_cachesize := whole_units sizes (set_cachesize s),
     set_objsize := whole_units sizes (set_objsize s), set_lag := whole_units times_units (set_lag s)\<rparr>"

lemma code_ranges:
  "range kvfsImpl_code = {1, 2, 3}" "range persistenceRule_code = {1, 2, 3}"
  "range encryptionAlgorithm_code = {0, 1}" "range compressionAlgorithm_code = {0, 1}" "range cloudAccessProtocol_code = {0, 1}"
proof -
  have U: "(UNIV :: kvfsImpl set) = {LevelDB, RoxDB, RAMcloud}" "(UNIV :: persistenceRule set) = {onWrite, onClose, lazy}"
    "(UNIV :: encryptionAlgorithm set) = {unencrypted, AES_128}" "(UNIV :: compressionAlgorithm set) = {uncompressed, ZIP}"
    "(UNIV :: cloudAccessProtocol set) = {local_files, S3}"
    using kvfsImpl.exhaust persistenceRule.exhaust encryptionAlgorithm.exhaust compressionAlgorithm.exhaust
      cloudAccessProtocol.exhaust by blast+
  show "range kvfsImpl_code = {1, 2, 3}" "range persistenceRule_code = {1, 2, 3}"
    "range encryptionAlgorithm_code = {0, 1}" "range compressionAlgorithm_code = {0, 1}" "range cloudAccessProtocol_code = {0, 1}"
    unfolding U by simp_all
qed

lemma table_codes:
  "snd ` set e_kvs = {1, 2, 3}" "snd ` set e_persist = {1, 2, 3}" "snd ` set e_crypt = {1}"
  "snd ` set e_comp = {1}" "snd ` set e_protocol = {1}"
  by (simp_all add: e_kvs_def e_persist_def e_crypt_def e_comp_def e_protocol_def insert_commute)

lemma whole_units_in_int32:
  assumes "in_int32 v" "units_ok units"
  shows "in_int32 (whole_units units v)"
proof -
  obtain suffix u where p: "pick_unit v (hd units) (tl units) = (suffix, u)" by fastforce
  note u = shown_unit [OF assms(2) p]
  have "v div u * u \<le> v" "v div u * u > v - u" 
    using u(3) by (simp_all add: minus_mod_eq_div_mult [symmetric])
  with u(6) assms(1) have "in_int32 (v div u * u)" by auto
  then show ?thesis by (simp add: whole_units_def Let_def u(5) [symmetric])
qed

lemma in_section_eq: "jc_get_ex J (cfg_root this) name = Some obj \<Longrightarrow> in_section J this name d f = f obj"
  by (simp add: in_section_def)

lemma read_settings_printed:
  assumes "reads_document J (cfg_root cfg) (top_fields s) (section_fields C s)" "settings_ok s"
  shows "\<exists>since. read_settings J C cfg = Val ((whole_settings s)\<lparr>set_since := since\<rparr>)"
proof -
  obtain primary kvs tier cloud where sec:
    "jc_get_ex J (cfg_root cfg) ''primary'' = Some primary" "jc_get_ex J (cfg_root cfg) ''kvs'' = Some kvs"
    "jc_get_ex J (cfg_root cfg) ''tiering'' = Some tier" "jc_get_ex J (cfg_root cfg) ''cloud'' = Some cloud"
    and "list_all (\<lambda>(k, v). string_field_is J (cfg_root cfg) k v) (top_fields s)"
    and f: "list_all (\<lambda>(x, kvs). reads_fields J x kvs) (zip [primary, kvs, tier, cloud] (map snd (section_fields C s)))"
    using assms(1) by (auto simp: reads_document_def reads_fields_def section_fields_def)
  note fs = this(5) f [unfolded section_fields_def reads_fields_def]
  note in_sec = sec [THEN in_section_eq]
  have r: "in_int64 (set_epoch s)" "in_int64 (set_kvssize s)" "in_int64 (set_cachesize s)" "in_int64 (set_objsize s)"
    "in_int64 (set_lag s)" "in_int64 (set_freepct s)" "to_int32 (set_freepct s) = set_freepct s"
    using assms(2) by (simp_all add: settings_ok_def to_int32_id)
  have l32: "to_int32 (whole_units times_units (set_lag s)) = whole_units times_units (set_lag s)"
    using assms(2) by (intro to_int32_id whole_units_in_int32 tables_ok) (simp add: settings_ok_def)
  have n: "string_field_is J primary ''epoch'' (showNumber (set_epoch s) None)"
    "string_field_is J tier ''free_pct'' (showNumber (set_freepct s) None)"
    "string_field_is J kvs ''max_size'' (showNumber (set_kvssize s) (Some sizes))"
    "string_field_is J tier ''mirror_lag'' (showNumber (set_lag s) (Some times_units))"
    "string_field_is J tier ''cache_size'' (showNumber (set_cachesize s) (Some sizes))"
    "string_field_is J tier ''max_object'' (showNumber (set_objsize s) (Some sizes))"
    using fs by simp_all
  have nums: "fsEpoch J cfg = Val (set_epoch s)" "freePercent J cfg = Val (set_freepct s)"
    "kvsMaxBytes J cfg = Val (whole_units sizes (set_kvssize s))" "mirrorLag J cfg = Val (whole_units times_units (set_lag s))"
    "cacheMaxBytes J cfg = Val (whole_units sizes (set_cachesize s))" "objectMaxBytes J cfg = Val (whole_units sizes (set_objsize s))"
    using r(7) l32 getNumber_plain [OF n(1) r(1)] getNumber_plain [OF n(2) r(6)] getNumber_shown [OF n(3) tables_ok(2) r(2)]
      getNumber_shown [OF n(4) tables_ok(1) r(5)] getNumber_shown [OF n(5) tables_ok(2) r(3)] getNumber_shown [OF n(6) tables_ok(2) r(4)]
    by (simp_all add: in_sec fsEpoch_def freePercent_def kvsMaxBytes_def mirrorLag_def cacheMaxBytes_def objectMaxBytes_def)
  have strs: "fsName J cfg = set_name s" "fsUUID J cfg = set_uuid s" "fsPrimary J cfg = set_primary s"
    "kvsLoc J cfg = set_kvsloc s" "cacheDir J cfg = set_cachedir s" "keyFile J cfg = set_key s" "cloudEndpoint J cfg = set_url s"
    using fs by (auto simp: in_sec top_fields_def fsName_def fsUUID_def fsPrimary_def kvsLoc_def cacheDir_def keyFile_def
        cloudEndpoint_def getString_field)
  have enums: "kvsType J cfg = set_kvstype s" "persistence J cfg = set_persist s" "encryption J cfg = set_crypt s"
    "compression J cfg = set_squeeze s" "cloudProtocol J cfg = set_proto s"
    using fs assms(2) by (simp_all add: in_sec kvsType_def persistence_def encryption_def compression_def cloudProtocol_def
        settings_ok_def code_ranges table_codes getEnum_shown enum_tables_ok)
  show ?thesis
    by (rule exI [of _ "fsEpochStart J C cfg"]) (simp add: read_settings_def nums strs enums whole_settings_def)
qed

text \<open>A small JSON library, with the documents it has already parsed.\<close>

datatype jval = JObj "(string \<times> jval) list" | JStr string | JInt int

fun jval_get :: "jval option \<Rightarrow> string \<Rightarrow> jval option option" where
  "jval_get (Some (JObj fs)) k = map_option Some (map_of fs k)"
| "jval_get _ k = None"

fun jval_type :: "jval option \<Rightarrow> json_type" where
  "jval_type None = json_type_null"
| "jval_type (Some (JObj _)) = json_type_object"
| "jval_type (Some (JStr _)) = json_type_string"
| "jval_type (Some (JInt _)) = json_type_int"

fun jval_string :: "jval option \<Rightarrow> string" where
  "jval_string (Some (JStr s)) = s"
| "jval_string _ = []"

fun jval_int :: "jval option \<Rightarrow> int" where
  "jval_int (Some (JInt n)) = max (- (2 ^ 31)) (min (2 ^ 31 - 1) n)"
| "jval_int _ = 0"

definition jval_lib :: "(string \<Rightarrow> jval option) \<Rightarrow> jval json_c" where
  "jval_lib parse = \<lparr>jc_parse = parse, jc_get_ex = jval_get, jc_get_type = jval_type, jc_get_string = jval_string, jc_get_int = jval_int\<rparr>"

definition jval_document :: "(string \<times> string) list \<Rightarrow> (string \<times> (string \<times> string) list) list \<Rightarrow> jval" where
  "jval_document tops sections =
     JObj (map (\<lambda>(k, v). (k, JStr v)) tops @ map (\<lambda>(k, kvs). (k, JObj (map (\<lambda>(k, v). (k, JStr v)) kvs))) sections)"

definition sample_calendar :: "int calendar" where
  "sample_calendar = \<lparr>cl_uninit = 0, cl_strptime = (\<lambda>s f t. None), cl_mktime = (\<lambda>t. (t, t)), cl_timezone = 0,
     cl_isdst = (\<lambda>t. 0), cl_gmtime = id, cl_strftime = (\<lambda>n f t. [])\<rparr>"

definition sample_settings :: settings where
  "sample_settings = \<lparr>set_name = ''fs'', set_uuid = ''u1'', set_primary = ''host'', set_epoch = 3, set_since = 0,
     set_kvstype = 1, set_kvsloc = ''/db'', set_freepct = 10, set_persist = 3, set_kvssize = 5 * 1024 * 1024 + 7,
     set_cachedir = ''/c'', set_crypt = 1, set_key = ''k'', set_squeeze = 0, set_lag = 120, set_cachesize = 1024,
     set_objsize = - 4, set_proto = 1, set_url = ''s3:b''\<rparr>"

lemma sample_settings_ok: "settings_ok sample_settings"
  by (simp add: settings_ok_def sample_settings_def code_ranges)

section \<open>Properties\<close>

text \<open>
  C16. What the test program prints for a setting is what the program reads back: on a document in
  which every setting is the string that is printed for it, reading all settings gives them back,
  with sizes and the mirror delay in whole units (the largest unit below the value), and whatever
  the calendar makes of the date. It is about the printed values, their names and their sections;
  the text around them is not JSON, since the last setting is followed by a comma.
\<close>

theorem settings_roundtrip:
  assumes "settings_ok s" "reads_document J (cfg_root cfg) (top_fields s) (section_fields C s)"
  shows "\<exists>since. read_settings J C cfg = Val ((whole_settings s)\<lparr>set_since := since\<rparr>)"
  using read_settings_printed [OF assms(2,1)] .

theorem settings_roundtrip_witness:
  "\<exists>since. read_settings (jval_lib (\<lambda>_. None)) sample_calendar
      \<lparr>cfg_inbuf = None, cfg_tok = True,
       cfg_root = Some (jval_document (top_fields sample_settings) (section_fields sample_calendar sample_settings))\<rparr> =
    Val (sample_settings\<lparr>set_kvssize := 5 * 1024 * 1024, set_since := since\<rparr>)"
proof -
  let ?cfg = "\<lparr>cfg_inbuf = None, cfg_tok = True,
      cfg_root = Some (jval_document (top_fields sample_settings) (section_fields sample_calendar sample_settings))\<rparr>"
  have doc: "reads_document (jval_lib (\<lambda>_. None)) (cfg_root ?cfg) (top_fields sample_settings) (section_fields sample_calendar sample_settings)"
    by (simp add: reads_document_def reads_fields_def string_field_is_def jval_lib_def jval_document_def top_fields_def section_fields_def)
  have "whole_settings sample_settings = sample_settings\<lparr>set_kvssize := 5 * 1024 * 1024\<rparr>" by code_simp
  with settings_roundtrip [OF sample_settings_ok doc] show ?thesis by simp
qed

text \<open>The printed text ends with a comma before the brace that closes the last section, which JSON does not allow.\<close>

lemma printed_text_is_not_json:
  "\<exists>t. print_settings C s = t @ '','' @ [CHR 0x0A, CHR 0x09] @ ''}'' @ [CHR 0x0A] @ ''}'' @ [CHR 0x0A]"
  by (simp add: print_settings_def print_section_def print_field_def section_fields_def)

lemma to_int32_wrap:
  assumes "2 ^ 31 \<le> x" "x < 2 ^ 32"
  shows "to_int32 x = x - 2 ^ 32"
proof -
  have "(x + 2 ^ 31) mod 2 ^ 32 = (x + 2 ^ 31 - 2 ^ 32) mod 2 ^ 32" by (rule minus_mod_self2 [symmetric])
  also have "\<dots> = x + 2 ^ 31 - 2 ^ 32" using assms by (intro mod_pos_pos_trivial) simp_all
  finally show ?thesis by (simp add: to_int32_def signed_take_bit_eq_take_bit_shift take_bit_eq_mod)
qed

lemma getNumber_with_unit:
  assumes "string_field_is J obj name (show_int q @ suffix)" "in_int64 q" "suffix \<noteq> []" "\<not> c_isdigit (hd suffix)"
    and "find_unit (Some (hd suffix)) units = Some u"
  shows "getNumber J obj name units = (if in_int64 (q * u) then Val (q * u) else Undef)"
proof -
  have "strtoll (show_int q @ suffix) = (q, suffix)" using strtoll_show [OF assms(2)] assms(4) by blast
  moreover have "first_char suffix = Some (hd suffix)" using assms(3) by (cases suffix) (simp_all add: first_char_def)
  ultimately show ?thesis using assms(1,5) by (auto simp: getNumber_def string_field_is_def)
qed

text \<open>
  C40. Large settings with a unit are not what the file says: a size of 8192XB or more multiplies to a
  signed number that does not fit, which is undefined, while every smaller one is read as it is; and a
  mirror delay of more than 24855 days, up to 49710, is read as a negative number of seconds, because
  the 64 bits of the product are returned as an \<^verbatim>\<open>int\<close>.
\<close>

theorem large_settings_overflow:
  assumes "jc_get_ex J (cfg_root cfg) ''kvs'' = Some kvs" "string_field_is J kvs ''max_size'' (show_int n @ ''XB'')" "0 \<le> n" "n < 2 ^ 63"
    and "jc_get_ex J (cfg_root cfg) ''tiering'' = Some tier" "string_field_is J tier ''mirror_lag'' (show_int d @ ''d'')" "0 \<le> d" "d \<le> 49710"
  shows "kvsMaxBytes J cfg = (if n < 8192 then Val (n * 1024 ^ 5) else Undef) \<and>
    mirrorLag J cfg = Val (if d \<le> 24855 then d * 86400 else d * 86400 - 2 ^ 32) \<and> (24855 < d \<longrightarrow> d * 86400 - 2 ^ 32 < 0)"
proof -
  have "in_int64 (n * 1024 ^ 5) \<longleftrightarrow> n < 8192" using assms(3) by simp
  then have "getNumber J kvs ''max_size'' sizes = (if n < 8192 then Val (n * 1024 ^ 5) else Undef)"
    using getNumber_with_unit [OF assms(2), of sizes "1024 ^ 5"] assms(3,4) by (simp add: sizes_def c_isdigit_def)
  moreover have "getNumber J tier ''mirror_lag'' times_units = Val (d * 86400)"
    using getNumber_with_unit [OF assms(6), of times_units 86400] assms(7,8) by (simp add: times_units_def c_isdigit_def)
  moreover have "to_int32 (d * 86400) = (if d \<le> 24855 then d * 86400 else d * 86400 - 2 ^ 32)"
    using assms(7,8) to_int32_id [of "d * 86400"] to_int32_wrap [of "d * 86400"] by simp
  ultimately show ?thesis using assms(1,5,8) by (simp add: kvsMaxBytes_def mirrorLag_def in_section_def)
qed

theorem large_settings_overflow_witness:
  "kvsMaxBytes (jval_lib (\<lambda>_. None)) \<lparr>cfg_inbuf = None, cfg_tok = True, cfg_root = Some (JObj [(''kvs'', JObj [(''max_size'', JStr (show_int 9000 @ ''XB''))]),
      (''tiering'', JObj [(''mirror_lag'', JStr (show_int 30000 @ ''d''))])])\<rparr> = Undef \<and>
   mirrorLag (jval_lib (\<lambda>_. None)) \<lparr>cfg_inbuf = None, cfg_tok = True, cfg_root = Some (JObj [(''kvs'', JObj [(''max_size'', JStr (show_int 9000 @ ''XB''))]),
      (''tiering'', JObj [(''mirror_lag'', JStr (show_int 30000 @ ''d''))])])\<rparr> = Val (- 1702967296)"
  using large_settings_overflow [of "jval_lib (\<lambda>_. None)" "\<lparr>cfg_inbuf = None, cfg_tok = True, cfg_root = Some (JObj [(''kvs'',
          JObj [(''max_size'', JStr (show_int 9000 @ ''XB''))]), (''tiering'', JObj [(''mirror_lag'', JStr (show_int 30000 @ ''d''))])])\<rparr>" _ 9000 _ 30000]
  by (simp add: jval_lib_def string_field_is_def)

text \<open>
  A size written as a number and not as a string is clamped to 32 bits: the file system of a
  configuration that says \<^verbatim>\<open>"max_size": 5000000000\<close> is limited to 2147483647 bytes, because
  \<^verbatim>\<open>getNumber\<close> reads it with \<^verbatim>\<open>json_object_get_int\<close>, which is documented to return the nearest value
  of 32 bits. The same size in quotes is read in full.
\<close>

theorem unquoted_size_is_clamped:
  assumes "jc_get_ex J (cfg_root cfg) ''kvs'' = Some kvs" "jc_get_ex J kvs ''max_size'' = Some x"
    and "jc_get_type J x = json_type_int" "2 ^ 31 - 1 < n" "jc_get_int J x = max (- (2 ^ 31)) (min (2 ^ 31 - 1) n)"
    and "jc_get_ex J (cfg_root cfg') ''kvs'' = Some kvs'" "string_field_is J kvs' ''max_size'' (show_int n)" "n < 2 ^ 63"
  shows "kvsMaxBytes J cfg = Val (2 ^ 31 - 1) \<and> kvsMaxBytes J cfg' = Val n"
proof
  show "kvsMaxBytes J cfg = Val (2 ^ 31 - 1)" using assms(1-5) by (simp add: kvsMaxBytes_def in_section_def getNumber_def)
  have "strtoll (show_int n) = (n, [])" using strtoll_show [of n "[]"] assms(4,8) by simp
  moreover have "find_unit None units = None" for units by (induction units) simp_all
  ultimately show "kvsMaxBytes J cfg' = Val n"
    using assms(6,7) by (auto simp: kvsMaxBytes_def in_section_def getNumber_def string_field_is_def first_char_def)
qed

theorem unquoted_size_is_clamped_witness:
  "kvsMaxBytes (jval_lib (\<lambda>_. None)) \<lparr>cfg_inbuf = None, cfg_tok = True, cfg_root = Some (JObj [(''kvs'', JObj [(''max_size'', JInt 5000000000)])])\<rparr> =
     Val 2147483647 \<and>
   kvsMaxBytes (jval_lib (\<lambda>_. None)) \<lparr>cfg_inbuf = None, cfg_tok = True, cfg_root = Some (JObj [(''kvs'', JObj [(''max_size'', JStr (show_int 5000000000))])])\<rparr> =
     Val 5000000000"
  using unquoted_size_is_clamped [of "jval_lib (\<lambda>_. None)"
      "\<lparr>cfg_inbuf = None, cfg_tok = True, cfg_root = Some (JObj [(''kvs'', JObj [(''max_size'', JInt 5000000000)])])\<rparr>"
      "Some (JObj [(''max_size'', JInt 5000000000)])" "Some (JInt 5000000000)" 5000000000
      "\<lparr>cfg_inbuf = None, cfg_tok = True, cfg_root = Some (JObj [(''kvs'', JObj [(''max_size'', JStr (show_int 5000000000))])])\<rparr>"
      "Some (JObj [(''max_size'', JStr (show_int 5000000000))])"]
  by (simp add: jval_lib_def string_field_is_def)

end
