(* ===== verification/Startup.thy ===== *)
theory Startup
  imports System Config
begin

text \<open>
  Starting and stopping the program (\<^verbatim>\<open>src/src/fuse_kvfs_main.cc\<close>), with the manager of its
  configuration file (\<^verbatim>\<open>src/src/config/config_manager.{h,cc}\<close>). What the FUSE library makes of the
  command line, the environment variable with the port, the stores the factories open and the
  text format of protocol buffers are fields of a record the definitions take as an argument.
\<close>

section \<open>The configuration manager\<close>

text \<open>
  The fields of the message that the program reads. \<open>pc_cloud\<close>: whether the message has a cloud
  section, and whether that has an endpoint; the two flags have defaults.
\<close>

record proto_config =
  pc_cloud :: "string option option"
  pc_fuse_cache_enable :: bool
  pc_fuse_direct_io :: bool

definition empty_config :: proto_config where
  "empty_config = \<lparr>pc_cloud = None, pc_fuse_cache_enable = True, pc_fuse_direct_io = False\<rparr>"

record ConfigManager =
  cm_config_path :: string
  cm_config :: proto_config

definition new_ConfigManager :: "string \<Rightarrow> ConfigManager" where
  "new_ConfigManager config_path = \<lparr>cm_config_path = config_path, cm_config = empty_config\<rparr>"

text \<open>A parse that fails leaves in the message what it read until then; here, what was there.\<close>

definition ConfigManager_Refresh ::
  "(string \<Rightarrow> proto_config \<Rightarrow> proto_config option) \<Rightarrow> 'w host \<Rightarrow> ConfigManager \<Rightarrow> 'w \<Rightarrow> (int \<times> ConfigManager \<times> 'w) outcome" where
  "ConfigManager_Refresh merge H this w =
     (let (config_ifs, w) = hs_open H (cm_config_path this) w
      in case config_ifs of
           None \<Rightarrow> Abort
         | Some f \<Rightarrow>
             (case merge (fd_contents f) (cm_config this) of
                None \<Rightarrow> Val (EINVAL, this, w)
              | Some config \<Rightarrow> Val (0, this\<lparr>cm_config := config\<rparr>, w)))"

section \<open>The main program\<close>

record FkOptions =
  fo_use_rocksdb :: int
  fo_cloud_proxy_dir :: "string option"
  fo_config_file :: "string option"
  fo_force_leak :: int

text \<open>
  \<open>me_options\<close> and \<open>me_mountpoint\<close>: what the FUSE library parsed, \<open>None\<close> when it failed. \<open>me_store\<close>:
  whether the store of the factory can be opened, and what it holds then. \<open>me_port\<close>: the variable
  \<^verbatim>\<open>WEB_SERVER_PORT\<close>. \<open>me_binds\<close>: whether the web server can bind it.
\<close>

record 'w main_env =
  me_host :: "'w host"
  me_options :: "FkOptions option"
  me_mountpoint :: "string option"
  me_port :: "string option"
  me_binds :: bool
  me_store :: "bool \<Rightarrow> bool \<times> kvs"
  me_merge :: "string \<Rightarrow> proto_config \<Rightarrow> proto_config option"
  me_super :: super_codec
  me_index :: index_codec
  me_fenv :: fenv

text \<open>The objects of a running program.\<close>

record 'w program =
  pg_mount :: KvfsMount
  pg_index :: IndexManager
  pg_factory :: SegmentFactory
  pg_tiering_out :: TieringOutAgent
  pg_tiering_in :: TieringInAgent
  pg_eviction :: EvictionAgent
  pg_web :: WebController
  pg_world :: 'w

definition atoi :: "string \<Rightarrow> int" where
  "atoi s = to_int32 (fst (strtoll s))"

definition choose_cloud_dir :: "FkOptions \<Rightarrow> proto_config \<Rightarrow> string outcome" where
  "choose_cloud_dir fk_options config =
     (let cloud_proxy_dir = (case fo_cloud_proxy_dir fk_options of None \<Rightarrow> [] | Some d \<Rightarrow> d)
      in if cloud_proxy_dir = []
         then (case pc_cloud config of
                 None \<Rightarrow> Abort
               | Some endpoint \<Rightarrow> (case endpoint of None \<Rightarrow> Abort | Some e \<Rightarrow> Val e))
         else Val cloud_proxy_dir)"

text \<open>From the construction of the cloud proxy to the start of the FUSE session.\<close>

definition start_mount :: "'w main_env \<Rightarrow> CloudProxy \<Rightarrow> kvs \<Rightarrow> bool \<Rightarrow> proto_config \<Rightarrow> 'w \<Rightarrow> 'w program outcome" where
  "start_mount M cloud_proxy store store_opens config w =
     (let filesystem_manager = new_FileSystemManager store;
          kvfs_mount = new_KvfsMount filesystem_manager TEST_FSID;
          index_manager = new_IndexManager cloud_proxy TEXT_FORMAT
      in obind (index_Refresh (me_index M) (me_host M) False index_manager w) (\<lambda>(_, index_manager, w).
         let kvfs_mount = kvfs_mount\<lparr>km_fuse_keep_cache := pc_fuse_cache_enable config,
                                     km_fuse_direct_io := pc_fuse_direct_io config\<rparr>;
             (_, w) = hs_system (me_host M) (proxy_Init_cmd cloud_proxy) w
         in obind (Mount_Init (me_super M) cloud_proxy store_opens (map_option atoi (me_port M)) kvfs_mount) (\<lambda>(_, kvfs_mount).
         let segment_factory = new_SegmentFactory ''./seg_'' cloud_proxy TEST_FSID;
             tiering_in_agent = new_TieringInAgent;
             (_, tiering_out_agent) = to_Start new_TieringOutAgent;
             (_, eviction_agent) = ea_Start new_EvictionAgent
         in case me_port M of
              None \<Rightarrow> Abort
            | Some port \<Rightarrow>
                let port_num = atoi port
                in expect (port_num > 1024)
                     (let (_, web_controller) = wc_Start (me_binds M) (new_WebController port_num)
                      in obind (fm_createRoot (fe_env (me_fenv M)) (fe_city (me_fenv M)) (km_fs_id kvfs_mount) 0x1FF kvfs_mount)
                           (\<lambda>(_, kvfs_mount).
                            Val \<lparr>pg_mount = kvfs_mount, pg_index = index_manager, pg_factory = segment_factory,
                                 pg_tiering_out = tiering_out_agent, pg_tiering_in = tiering_in_agent,
                                 pg_eviction = eviction_agent, pg_web = web_controller, pg_world = w\<rparr>)))))"

definition main_start :: "'w main_env \<Rightarrow> 'w \<Rightarrow> 'w program outcome" where
  "main_start M w =
     obind (case me_options M of None \<Rightarrow> Abort | Some o1 \<Rightarrow> Val o1) (\<lambda>fk_options.
     obind (case fo_config_file fk_options of None \<Rightarrow> Abort | Some f \<Rightarrow> Val f) (\<lambda>config_file.
     obind (ConfigManager_Refresh (me_merge M) (me_host M) (new_ConfigManager config_file) w) (\<lambda>(error, config_manager, w).
     expect (error = 0)
       (let config = cm_config config_manager;
            (store_opens, store) = me_store M (fo_use_rocksdb fk_options \<noteq> 0)
        in expect (me_mountpoint M \<noteq> None)
             (obind (choose_cloud_dir fk_options config) (\<lambda>cloud_proxy_dir.
              start_mount M (new_CloudProxy (''proxy_dir/'' @ show_lu TEST_FSID) cloud_proxy_dir) store store_opens config w))))))"

text \<open>
  After the session: stop the threads, wait for them, and write the superblock and the log. When
  the file system could not be mounted, the program goes straight to \<^verbatim>\<open>out\<close>, with the threads
  running.
\<close>

definition main_out :: "'w main_env \<Rightarrow> (ChangeLogEntry \<Rightarrow> string) \<Rightarrow> 'w program \<Rightarrow> log_host \<Rightarrow> ('w program \<times> log_host) outcome" where
  "main_out M serialize p h =
     obind (Mount_Shutdown (me_super M) serialize (pg_mount p) h) (\<lambda>(kvfs_mount, h). Val (p\<lparr>pg_mount := kvfs_mount\<rparr>, h))"

definition main_stop :: "'w main_env \<Rightarrow> (ChangeLogEntry \<Rightarrow> string) \<Rightarrow> 'w program \<Rightarrow> log_host \<Rightarrow> ('w program \<times> log_host) outcome" where
  "main_stop M serialize p h =
     (let (_, eviction_agent) = ea_RequestStop (pg_eviction p);
          (_, tiering_out_agent) = to_RequestStop (pg_tiering_out p);
          (_, web_controller) = wc_RequestStop (pg_web p)
      in obind (ea_Join eviction_agent) (\<lambda>eviction_agent.
         obind (to_Join tiering_out_agent) (\<lambda>tiering_out_agent.
         obind (wc_Join web_controller) (\<lambda>web_controller.
         main_out M serialize (p\<lparr>pg_eviction := eviction_agent, pg_tiering_out := tiering_out_agent, pg_web := web_controller\<rparr>) h))))"

section \<open>Starting gives a consistent mount\<close>

lemma mount_inv_super [simp]: "mount_inv (m\<lparr>km_super := sb\<rparr>) = mount_inv m"
  by (simp add: mount_inv_def table_ok_def log_inv_def)

lemma mount_inv_handle [simp]: "mount_inv (SetNextInode h m) = mount_inv m"
  by (simp add: mount_inv_def table_ok_def log_inv_def SetNextInode_def)

lemma mount_inv_flags [simp]: "mount_inv (m\<lparr>km_fuse_keep_cache := a, km_fuse_direct_io := b\<rparr>) = mount_inv m"
  by (simp add: mount_inv_def table_ok_def log_inv_def)

lemma ReadSuperblock_inv: "mount_inv m \<Longrightarrow> mount_inv (snd (ReadSuperblock C cp m))"
  by (auto simp: ReadSuperblock_def WriteSuperblock_def Let_def case_prod_unfold split: option.splits)

lemma Mount_Init_wp:
  assumes "mount_inv m" "\<And>r m'. mount_inv m' \<Longrightarrow> Q (r, m')"
  shows "wpo Q (Mount_Init C cp opens port m)"
proof -
  show ?thesis
    using ReadSuperblock_inv [OF assms(1), of C cp] assms(2)
    by (auto simp: Mount_Init_def mountFileSystem_def case_prod_unfold Let_def new_FsChangeLog_def
        mount_inv_def table_ok_def log_inv_def log_ordered_def split: option.splits)
qed

lemma fm_createRoot_wp:
  fixes m :: KvfsMount
  assumes "mount_inv m" "\<And>r m'. mount_inv m' \<Longrightarrow> Q (r, m')"
  shows "wpo Q (fm_createRoot env city fs mode m)"
  using assms by (auto simp: fm_createRoot_def Let_def case_prod_unfold new_entry_def
      intro!: wpo_all [where x = "createRoot a b c d" for a b c d] log_append_wp split: if_splits)

lemma start_mount_inv: "start_mount M cp store opens config w = Val p \<Longrightarrow> mount_inv (pg_mount p)"
proof -
  have "mount_inv (new_KvfsMount (new_FileSystemManager store) TEST_FSID)"
    by (rule mount_inv_new) (simp add: new_FileSystemManager_def)
  then have "wpo (\<lambda>p. mount_inv (pg_mount p)) (start_mount M cp store opens config w)"
    by (auto simp: start_mount_def Let_def case_prod_unfold 
        intro!: wpo_all [where x = "index_Refresh a b c d e" for a b c d e] Mount_Init_wp fm_createRoot_wp split: option.splits)
  then show "start_mount M cp store opens config w = Val p \<Longrightarrow> mount_inv (pg_mount p)" by (simp add: wpo_iff)
qed

lemma main_start_inv: "main_start M w = Val p \<Longrightarrow> mount_inv (pg_mount p)"
  by (auto simp: main_start_def outcome_simps case_prod_unfold Let_def split: option.splits dest: start_mount_inv)

section \<open>The first start\<close>

text \<open>What the program needs to come up: options, a configuration, a mount point, a port and a cloud directory.\<close>

definition can_start :: "'w main_env \<Rightarrow> 'w \<Rightarrow> FkOptions \<Rightarrow> proto_config \<Rightarrow> string \<Rightarrow> bool" where
  "can_start M w fk_options config cloud_dir \<longleftrightarrow>
     me_options M = Some fk_options \<and> me_mountpoint M \<noteq> None \<and>
     (\<exists>port. me_port M = Some port \<and> atoi port > 1024) \<and>
     (\<exists>path f. fo_config_file fk_options = Some path \<and> fst (hs_open (me_host M) path w) = Some f \<and>
        me_merge M (fd_contents f) empty_config = Some config) \<and>
     choose_cloud_dir fk_options config = Val cloud_dir"

text \<open>The mount after \<^verbatim>\<open>Init\<close> on a store without a superblock.\<close>

lemma Mount_Init_fresh:
  assumes "reliable (s_kv m)" "kv_data (s_kv m) (super_key (km_fs_id m)) = None" "port > 1024"
  obtains m' where "Mount_Init C cp True (Some port) m = Val (0, m')" "reliable (s_kv m')"
    "\<And>k. k \<noteq> super_key (km_fs_id m) \<Longrightarrow> kv_data (s_kv m') k = kv_data (s_kv m) k"
    "s_change_log m' = Some ((new_FsChangeLog (cp_local_dir cp) 0)\<lparr>l_next_xid := 1\<rparr>)"
    "km_fs_id m' = km_fs_id m" "km_inode_map m' = km_inode_map m"
proof -
  let ?m = "snd (ReadSuperblock C cp m)"
  have rs: "fst (ReadSuperblock C cp m) = 0" "reliable (s_kv ?m)" "sb_next_xid (km_super ?m) = 1"
    "\<And>k. k \<noteq> super_key (km_fs_id m) \<Longrightarrow> kv_data (s_kv ?m) k = kv_data (s_kv m) k"
    "km_fs_id ?m = km_fs_id m" "km_inode_map ?m = km_inode_map m"
    using assms(1,2) by (simp_all add: ReadSuperblock_def WriteSuperblock_def Let_def kv_simps split: option.splits)
  let ?l = "(new_FsChangeLog (cp_local_dir cp) 0)\<lparr>l_next_xid := 1\<rparr>"
  have "Mount_Init C cp True (Some port) m = Val (0, ?m\<lparr>s_change_log := Some ?l\<rparr>)"
    using assms(3) rs(1,3) by (simp add: Mount_Init_def mountFileSystem_def case_prod_unfold)
  then show thesis by (rule that) (simp_all add: rs)
qed

lemma fm_createRoot_fresh:
  fixes m :: KvfsMount
  assumes "reliable (s_kv m)" "\<And>p. kv_data (s_kv m) (partition_key ROOT_HANDLE p) = None" "s_change_log m = Some l"
  obtains root kv where
    "fm_createRoot env city fs mode m = Val (STATUS_OK, m\<lparr>s_kv := kv, s_change_log := Some (snd (Append
       (new_entry\<lparr>e_operation := Some OP_MKDIR, e_fs_id := Some (sint fs), e_inode_num := Some (sint ROOT_HANDLE),
         e_parent_inode_num := Some (sint ROOT_HANDLE)\<rparr>) l))\<rparr>)"
    "f_handle root = ROOT_HANDLE" "f_fsId root = fs" "m_nLink (f_meta root) = 2" "dir_inv (root, kv)"
    "dir_lookup city (root, kv) = [''.'' \<mapsto> ROOT_HANDLE, ''..'' \<mapsto> ROOT_HANDLE]"
    "kv_data kv (inode_key ROOT_HANDLE) = Some (meta_encode (f_meta root))"
proof -
  let ?root = "new_LogFSFile fs None ROOT_HANDLE (S_IFDIR OR mode) DEFAULT_FILE_INITIAL_SIZE DEFAULT_FILE_CHUNK_SIZE"
  note new = dir_inv_new [OF assms(1,2)]
  have root: "f_handle ?root = ROOT_HANDLE" "f_fsId ?root = fs" "meta_wf (f_meta ?root)" by (simp_all add: new_LogFSFile_def)
  obtain objs kv where run: "createRoot env city () (\<lambda>_. ?root, s_kv m) = Val (STATUS_OK, objs, kv)"
    "dir_inv (objs (), kv)" "inode_inv (objs (), kv)" "m_nLink (f_meta (objs ())) = 2"
    "f_handle (objs ()) = ROOT_HANDLE" "f_fsId (objs ()) = fs" "dir_lookup city (objs (), kv) = [''.'' \<mapsto> ROOT_HANDLE, ''..'' \<mapsto> ROOT_HANDLE]"
    using createRoot_spec [of "\<lambda>_. ?root" "()" "s_kv m" city env] new root by auto
  show thesis
    using run assms(3) by (intro that [of kv "objs ()"]) (simp_all add: fm_createRoot_def log_append_def inode_inv_def)
qed

lemma main_start_run:
  assumes "can_start M w fk_options config cloud_dir" "me_store M (fo_use_rocksdb fk_options \<noteq> 0) = (opens, store)"
  shows "\<exists>w'. main_start M w =
    start_mount M (new_CloudProxy (''proxy_dir/'' @ show_lu TEST_FSID) cloud_dir) store opens config w'"
  using assms
  by (auto simp: can_start_def main_start_def ConfigManager_Refresh_def new_ConfigManager_def case_prod_unfold Let_def)

lemma index_Refresh_text:
  "\<exists>r im' w'. index_Refresh K H False (new_IndexManager cp TEXT_FORMAT) w = Val (r, im', w')"
  by (simp add: index_Refresh_def new_IndexManager_def case_prod_unfold Let_def split: option.splits)

lemma WriteSuperblock_log [simp]: "s_change_log (snd (WriteSuperblock C m)) = s_change_log m"
  by (simp add: WriteSuperblock_def Let_def case_prod_unfold split: option.splits)

lemma main_stop_ok:
  assumes "to_run_thread (pg_tiering_out p)" "ea_run_thread (pg_eviction p)" "wc_web_server (pg_web p) = Some server"
    and "ws_polling_thread server" "s_change_log (pg_mount p) = Some l" "l_log_deque l \<noteq> []" "\<And>f. h_can_create h f"
  shows "\<exists>p' h'. main_stop M serialize p h = Val (p', h') \<and> \<not> to_run_thread (pg_tiering_out p') \<and> \<not> ea_run_thread (pg_eviction p') \<and>
    wc_web_server (pg_web p') = Some (ws_RequestStop server) \<and> pg_mount p' = snd (WriteSuperblock (me_super M) (pg_mount p)) \<and>
    FsChangeLog_Flush serialize l h = Val h'"
proof -
  obtain b where b: "ea_Join (snd (ea_RequestStop (pg_eviction p))) = Val b" "\<not> ea_run_thread b"
    using ea.stop_and_join [OF assms(2)] by blast
  obtain c where c: "to_Join (snd (to_RequestStop (pg_tiering_out p))) = Val c" "\<not> to_run_thread c"
    using toa.stop_and_join [OF assms(1)] by blast
  show ?thesis
    using assms(3-7) b c
    by (simp add: main_stop_def main_out_def Mount_Shutdown_def FsChangeLog_Flush_def case_prod_unfold Let_def
        wc_RequestStop_def ws_RequestStop_def wc_Join_def ws_Join_def)
qed

text \<open>The mount object as \<^verbatim>\<open>main\<close> makes it.\<close>

abbreviation made_mount :: "proto_config \<Rightarrow> kvs \<Rightarrow> KvfsMount" where
  "made_mount config store \<equiv> (new_KvfsMount (new_FileSystemManager store) TEST_FSID)\<lparr>km_fuse_keep_cache := pc_fuse_cache_enable config,
     km_fuse_direct_io := pc_fuse_direct_io config\<rparr>"

abbreviation made_proxy :: "string \<Rightarrow> CloudProxy" where
  "made_proxy cloud_dir \<equiv> new_CloudProxy (''proxy_dir/'' @ show_lu TEST_FSID) cloud_dir"

lemma made_mount_simps:
  "s_kv (made_mount config store) = store" "km_fs_id (made_mount config store) = TEST_FSID" "km_inode_map (made_mount config store) = (\<lambda>_. None)"
  by (simp_all add: new_KvfsMount_def new_FileSystemManager_def)

lemma start_program:
  assumes "can_start M w fk_options config cloud_dir" "me_store M (fo_use_rocksdb fk_options \<noteq> 0) = (True, store)"
    and "me_port M = Some port" "Mount_Init (me_super M) (made_proxy cloud_dir) True (Some (atoi port)) (made_mount config store) = Val (0, m1)"
    and "fm_createRoot (fe_env (me_fenv M)) (fe_city (me_fenv M)) (km_fs_id m1) 0x1FF m1 = Val (status, m2)"
  obtains p server where "main_start M w = Val p" "pg_mount p = m2" "to_run_thread (pg_tiering_out p)" "ea_run_thread (pg_eviction p)"
    "wc_web_server (pg_web p) = Some server" "ws_polling_thread server" "\<not> ws_stop_requested server"
proof -
  obtain w1 where run: "main_start M w = start_mount M (made_proxy cloud_dir) store True config w1" using main_start_run [OF assms(1,2)] by blast
  have port: "atoi port > 1024" using assms(1,3) by (auto simp: can_start_def)
  obtain r im w2 where im: "index_Refresh (me_index M) (me_host M) False (new_IndexManager (made_proxy cloud_dir) TEXT_FORMAT) w1 = Val (r, im, w2)"
    using index_Refresh_text [of "me_index M" "me_host M" "made_proxy cloud_dir" w1] by blast
  obtain p where p: "main_start M w = Val p" "pg_mount p = m2"
    "pg_tiering_out p = snd (to_Start new_TieringOutAgent)" "pg_eviction p = snd (ea_Start new_EvictionAgent)"
    "pg_web p = snd (wc_Start (me_binds M) (new_WebController (atoi port)))"
    using run im assms(3-5) port by (simp add: start_mount_def case_prod_unfold)
  have "to_run_thread (pg_tiering_out p)" "ea_run_thread (pg_eviction p)"
    by (simp_all add: p to_Start_def new_TieringOutAgent_def ea_Start_def new_EvictionAgent_def)
  moreover obtain server where "wc_web_server (pg_web p) = Some server" "ws_polling_thread server" "\<not> ws_stop_requested server"
    by (simp add: p wc_Start_def Let_def case_prod_unfold ws_StartPollingThread_def ws_Init_def ws_set_handler_def new_RESTfulWebServer_def)
  ultimately show thesis by (rule that [OF p(1,2)])
qed

text \<open>The web server has its thread; it was told to leave its polling loop.\<close>

definition web_polls :: "WebController \<Rightarrow> bool" where
  "web_polls c \<longleftrightarrow> (\<exists>server. wc_web_server c = Some server \<and> ws_polling_thread server \<and> \<not> ws_stop_requested server)"

definition web_told_to_stop :: "WebController \<Rightarrow> bool" where
  "web_told_to_stop c \<longleftrightarrow> (\<exists>server. wc_web_server c = Some server \<and> ws_polling_thread server \<and> ws_stop_requested server)"

lemma Flush_one:
  assumes "FsChangeLog_Flush serialize l h = Val h'" "l_log_deque l = [e]" "entry_xid e = 1" "\<And>f. h_can_create h f"
  shows "h_files h' = (h_files h)(l_log_dir l @ ''/1-1.pqfslog'' \<mapsto> log_frame (serialize e))"
proof -
  have "show_int 1 = ''1''" by code_simp
  with assms show ?thesis by (auto simp: FsChangeLog_Flush_def Let_def)
qed

lemma first_start:
  assumes "can_start M w fk_options config cloud_dir" "me_store M (fo_use_rocksdb fk_options \<noteq> 0) = (True, store)"
    and "reliable store" "kv_data store = (\<lambda>_. None)" "\<And>f. h_can_create h f"
  shows "\<exists>p root l e p' h'. main_start M w = Val p \<and> km_inode_map (pg_mount p) = (\<lambda>_. None) \<and> km_fs_id (pg_mount p) = TEST_FSID \<and>
    f_handle root = ROOT_HANDLE \<and> f_fsId root = TEST_FSID \<and> m_nLink (f_meta root) = 2 \<and> dir_inv (root, s_kv (pg_mount p)) \<and>
    dir_lookup (fe_city (me_fenv M)) (root, s_kv (pg_mount p)) = [''.'' \<mapsto> ROOT_HANDLE, ''..'' \<mapsto> ROOT_HANDLE] \<and>
    kv_data (s_kv (pg_mount p)) (inode_key ROOT_HANDLE) = Some (meta_encode (f_meta root)) \<and>
    s_change_log (pg_mount p) = Some l \<and> l_log_deque l = [e] \<and> e_operation e = Some OP_MKDIR \<and> entry_xid e = 1 \<and>
    to_run_thread (pg_tiering_out p) \<and> ea_run_thread (pg_eviction p) \<and> web_polls (pg_web p) \<and>
    main_stop M serialize p h = Val (p', h') \<and> \<not> to_run_thread (pg_tiering_out p') \<and> \<not> ea_run_thread (pg_eviction p') \<and>
    web_told_to_stop (pg_web p') \<and> pg_mount p' = snd (WriteSuperblock (me_super M) (pg_mount p)) \<and>
    h_files h' = (h_files h)(l_log_dir l @ ''/1-1.pqfslog'' \<mapsto> log_frame (serialize e))"
proof -
  let ?cp = "made_proxy cloud_dir" let ?l0 = "(new_FsChangeLog (cp_local_dir ?cp) 0)\<lparr>l_next_xid := 1\<rparr>"
  obtain port where port: "me_port M = Some port" "atoi port > 1024" using assms(1) by (auto simp: can_start_def)
  obtain m1 where m1: "Mount_Init (me_super M) ?cp True (Some (atoi port)) (made_mount config store) = Val (0, m1)"
    "reliable (s_kv m1)" "\<And>k. k \<noteq> super_key TEST_FSID \<Longrightarrow> kv_data (s_kv m1) k = None"
    "s_change_log m1 = Some ?l0" "km_fs_id m1 = TEST_FSID" "km_inode_map m1 = (\<lambda>_. None)"
    using Mount_Init_fresh [of "made_mount config store" "atoi port" "me_super M" ?cp] assms(3,4) made_mount_simps [of config store] port(2) by metis
  let ?l = "snd (Append (new_entry\<lparr>e_operation := Some OP_MKDIR, e_fs_id := Some (sint TEST_FSID),
    e_inode_num := Some (sint ROOT_HANDLE), e_parent_inode_num := Some (sint ROOT_HANDLE)\<rparr>) ?l0)"
  obtain root kv where root:
    "fm_createRoot (fe_env (me_fenv M)) (fe_city (me_fenv M)) (km_fs_id m1) 0x1FF m1 = Val (STATUS_OK, m1\<lparr>s_kv := kv, s_change_log := Some ?l\<rparr>)"
    "f_handle root = ROOT_HANDLE" "f_fsId root = TEST_FSID" "m_nLink (f_meta root) = 2" "dir_inv (root, kv)"
    "dir_lookup (fe_city (me_fenv M)) (root, kv) = [''.'' \<mapsto> ROOT_HANDLE, ''..'' \<mapsto> ROOT_HANDLE]"
    "kv_data kv (inode_key ROOT_HANDLE) = Some (meta_encode (f_meta root))"
    using fm_createRoot_fresh [OF m1(2) _ m1(4), of _ _ TEST_FSID] m1(3,5) super_key_distinct(6) by metis
  obtain e where l: "l_log_deque ?l = [e]" "e_operation e = Some OP_MKDIR" "entry_xid e = 1"
    by (simp add: Append_def NextXid_def new_FsChangeLog_def new_entry_def entry_xid_def)
  obtain p server where p: "main_start M w = Val p" "pg_mount p = m1\<lparr>s_kv := kv, s_change_log := Some ?l\<rparr>"
    "to_run_thread (pg_tiering_out p)" "ea_run_thread (pg_eviction p)" "wc_web_server (pg_web p) = Some server" "ws_polling_thread server" "\<not> ws_stop_requested server"
    using start_program [OF assms(1,2) port(1) m1(1) root(1)] .
  have log: "s_change_log (pg_mount p) = Some ?l" "s_kv (pg_mount p) = kv" "km_inode_map (pg_mount p) = (\<lambda>_. None)" "km_fs_id (pg_mount p) = TEST_FSID"
    using p(2) m1(5,6) by simp_all
  have "l_log_deque ?l \<noteq> []" unfolding l(1) by simp
  with main_stop_ok [OF p(3-6) log(1) _ assms(5), of M serialize] obtain p' h' where p':
    "main_stop M serialize p h = Val (p', h')" "\<not> to_run_thread (pg_tiering_out p')" "\<not> ea_run_thread (pg_eviction p')"
    "wc_web_server (pg_web p') = Some (ws_RequestStop server)" "pg_mount p' = snd (WriteSuperblock (me_super M) (pg_mount p))"
    "FsChangeLog_Flush serialize ?l h = Val h'" by blast
  have "h_files h' = (h_files h)(l_log_dir ?l @ ''/1-1.pqfslog'' \<mapsto> log_frame (serialize e))"
    by (rule Flush_one [OF p'(6) l(1,3) assms(5)])
  moreover have "web_polls (pg_web p)" "web_told_to_stop (pg_web p')"
    using p(5-7) p'(4) by (simp_all add: web_polls_def web_told_to_stop_def ws_RequestStop_def)
  ultimately show ?thesis using p(1,3,4) p'(1-3,5) log root(2-7) l by metis
qed

text \<open>
  C10. The first start on an empty store brings the program up: with options, a configuration, a
  mount point and a port above 1024 the start succeeds; the root directory is stored, with two
  links and its two dots; the change log holds one entry, the creation of the root under the first
  transaction number; the agents and the web server run. Stopping the program right away succeeds
  where the file of the log can be created: the threads of the agents have ended, the web server
  was told to leave its polling loop before it was waited for, the mount is left as writing the
  superblock leaves it, and the host has one file more, the log file named after the first and the
  last transaction, with that one entry.
\<close>

theorem first_start_brings_up:
  assumes "can_start M w fk_options config cloud_dir" "me_store M (fo_use_rocksdb fk_options \<noteq> 0) = (True, store)"
    and "reliable store" "kv_data store = (\<lambda>_. None)" "\<And>f. h_can_create h f"
  shows "\<exists>p root l e p' h'. main_start M w = Val p \<and>
    f_handle root = ROOT_HANDLE \<and> m_nLink (f_meta root) = 2 \<and> dir_inv (root, s_kv (pg_mount p)) \<and>
    dir_lookup (fe_city (me_fenv M)) (root, s_kv (pg_mount p)) = [''.'' \<mapsto> ROOT_HANDLE, ''..'' \<mapsto> ROOT_HANDLE] \<and>
    kv_data (s_kv (pg_mount p)) (inode_key ROOT_HANDLE) = Some (meta_encode (f_meta root)) \<and>
    s_change_log (pg_mount p) = Some l \<and> l_log_deque l = [e] \<and> e_operation e = Some OP_MKDIR \<and> entry_xid e = 1 \<and>
    to_run_thread (pg_tiering_out p) \<and> ea_run_thread (pg_eviction p) \<and> web_polls (pg_web p) \<and>
    main_stop M serialize p h = Val (p', h') \<and> \<not> to_run_thread (pg_tiering_out p') \<and> \<not> ea_run_thread (pg_eviction p') \<and>
    web_told_to_stop (pg_web p') \<and> pg_mount p' = snd (WriteSuperblock (me_super M) (pg_mount p)) \<and>
    h_files h' = (h_files h)(l_log_dir l @ ''/1-1.pqfslog'' \<mapsto> log_frame (serialize e))"
  using first_start [OF assms, of serialize] by blast

text \<open>A machine with a configuration file and an empty store.\<close>

definition sample_main :: "(string \<Rightarrow> string option) main_env" where
  "sample_main = \<lparr>me_host = plain_host,
     me_options = Some \<lparr>fo_use_rocksdb = 0, fo_cloud_proxy_dir = None, fo_config_file = Some ''cfg'', fo_force_leak = 0\<rparr>,
     me_mountpoint = Some ''/mnt'', me_port = Some ''8080'', me_binds = True, me_store = (\<lambda>_. (True, empty_kvs)),
     me_merge = (\<lambda>text c. Some (c\<lparr>pc_cloud := Some (Some text)\<rparr>)), me_super = Superblock.sample_codec, me_index = TieringLive.sample_codec,
     me_fenv = sample_fenv\<rparr>"

lemma sample_main_starts:
  "can_start sample_main [''cfg'' \<mapsto> ''s3:b''] \<lparr>fo_use_rocksdb = 0, fo_cloud_proxy_dir = None, fo_config_file = Some ''cfg'', fo_force_leak = 0\<rparr>
     (empty_config\<lparr>pc_cloud := Some (Some ''s3:b'')\<rparr>) ''s3:b''"
proof -
  have "strtoll ''8080'' = (8080, [])" by code_simp
  then have "atoi ''8080'' = 8080" by (simp add: atoi_def to_int32_id)
  then show ?thesis by (simp add: can_start_def sample_main_def plain_host_def choose_cloud_dir_def)
qed

lemma sample_main_store: "me_store sample_main b = (True, empty_kvs)" "reliable empty_kvs" "kv_data empty_kvs = (\<lambda>_. None)"
  by (simp_all add: sample_main_def) (simp_all add: empty_kvs_def)

theorem first_start_brings_up_witness:
  "\<exists>p (root :: LogFSFile) p' h'. main_start sample_main [''cfg'' \<mapsto> ''s3:b''] = Val p \<and> m_nLink (f_meta root) = 2 \<and>
    kv_data (s_kv (pg_mount p)) (inode_key 1) = Some (meta_encode (f_meta root)) \<and> to_run_thread (pg_tiering_out p) \<and>
    main_stop sample_main (\<lambda>_. []) p \<lparr>h_files = (\<lambda>_. None), h_can_create = (\<lambda>_. True), h_last_log_file = []\<rparr> = Val (p', h') \<and>
    \<not> to_run_thread (pg_tiering_out p')"
proof -
  let ?h = "\<lparr>h_files = (\<lambda>_. None), h_can_create = (\<lambda>_. True), h_last_log_file = []\<rparr>"
  have "h_can_create ?h f" for f by simp
  from first_start_brings_up [OF sample_main_starts sample_main_store this, of "\<lambda>_. []"]
  show ?thesis unfolding ROOT_HANDLE_def by blast
qed

section \<open>Every later start\<close>

lemma Mount_Init_again:
  assumes "reliable store" "kv_data store (super_key TEST_FSID) = Some v" "sc_merge C v no_super = Some sb" "port > 1024"
  obtains m where "Mount_Init C cp True (Some port) (made_mount config store) = Val (0, m)" "s_kv m = store" "km_fs_id m = TEST_FSID"
    "s_change_log m = Some ((new_FsChangeLog (cp_local_dir cp) 0)\<lparr>l_next_xid := sb_next_xid sb\<rparr>)"
  using assms
  by (simp add: Mount_Init_def ReadSuperblock_def new_KvfsMount_def new_FileSystemManager_def kv_simps mountFileSystem_def SetNextInode_def)

text \<open>
  C28. Every start of the program but the first damages the root directory: on a store with a
  superblock and a root directory that has its dot, the start succeeds, the names in the root stay,
  and the inode of the root is stored again with a link count of 0, at which closing a file deletes
  it. \<^verbatim>\<open>createRoot\<close> resets the metadata and counts the two dots only where it can enter them.
\<close>

theorem later_start_drops_root_links:
  assumes "can_start M w fk_options config cloud_dir" "me_store M (fo_use_rocksdb fk_options \<noteq> 0) = (True, store)"
    and "kv_data store (super_key TEST_FSID) = Some v" "sc_merge (me_super M) v no_super = Some sb"
    and "dir_inv (root, store)" "f_handle root = ROOT_HANDLE" "f_fsId root = TEST_FSID"
    and "dir_lookup (fe_city (me_fenv M)) (root, store) ''.'' \<noteq> None"
  shows "\<exists>p root'. main_start M w = Val p \<and> dir_inv (root', s_kv (pg_mount p)) \<and>
    dir_lookup (fe_city (me_fenv M)) (root', s_kv (pg_mount p)) = dir_lookup (fe_city (me_fenv M)) (root, store) \<and>
    kv_data (s_kv (pg_mount p)) (inode_key ROOT_HANDLE) = Some (meta_encode (f_meta root')) \<and> m_nLink (f_meta root') = 0"
proof -
  let ?city = "fe_city (me_fenv M)"
  obtain port where port: "me_port M = Some port" "atoi port > 1024" using assms(1) by (auto simp: can_start_def)
  obtain m1 l where m1: "Mount_Init (me_super M) (made_proxy cloud_dir) True (Some (atoi port)) (made_mount config store) = Val (0, m1)"
    "s_kv m1 = store" "km_fs_id m1 = TEST_FSID" "s_change_log m1 = Some l"
    using Mount_Init_again [OF dir_inv_reliable [OF assms(5)] assms(3,4) port(2)] by metis
  let ?new = "new_LogFSFile TEST_FSID None ROOT_HANDLE (S_IFDIR OR 0x1FF) DEFAULT_FILE_INITIAL_SIZE DEFAULT_FILE_CHUNK_SIZE"
  note new = dir_inv_reopen [OF assms(5-7)]
  have "dir_inv (?new, store)" "dir_lookup ?city (?new, store) ''.'' \<noteq> None" using new assms(8) by simp_all
  then obtain objs kv where run: "createRoot (fe_env (me_fenv M)) ?city () (\<lambda>_. ?new, store) = Val (STATUS_OK, objs, kv)"
    "m_nLink (f_meta (objs ())) = 0" "dir_inv (objs (), kv)" "dir_lookup ?city (objs (), kv) = dir_lookup ?city (?new, store)"
    "kv_data kv (inode_key (f_handle ?new)) = Some (meta_encode (f_meta (objs ())))"
    using createRoot_again_drops_links [of "\<lambda>_. ?new" "()" store ?city "fe_env (me_fenv M)"] by auto
  obtain m2 where m2: "fm_createRoot (fe_env (me_fenv M)) ?city (km_fs_id m1) 0x1FF m1 = Val (STATUS_OK, m2)" "s_kv m2 = kv"
    using run(1) m1(2-4) by (simp add: fm_createRoot_def log_append_def)
  obtain p where "main_start M w = Val p" "pg_mount p = m2"
    using start_program [OF assms(1,2) port(1) m1(1) m2(1)] .
  moreover have "f_handle ?new = ROOT_HANDLE" by (simp add: new_LogFSFile_def)
  ultimately show ?thesis using m2(2) run(2-5) new(2) by (intro exI [of _ p] exI [of _ "objs ()"]) simp
qed

text \<open>The store a program leaves behind is the one it ran on, with its superblock.\<close>

lemma main_stop_store:
  "main_stop M serialize p h = Val (p', h') \<Longrightarrow> s_kv (pg_mount p') = s_kv (snd (WriteSuperblock (me_super M) (pg_mount p)))"
  by (auto simp: main_stop_def main_out_def Mount_Shutdown_def outcome_simps case_prod_unfold Let_def split: option.splits)

lemma WriteSuperblock_store:
  assumes "reliable (s_kv m)" "sc_print C ((km_super m)\<lparr>sb_next_inode := sint (GetCurrentInode m + 1000)\<rparr>) = Some v"
  shows "reliable (s_kv (snd (WriteSuperblock C m)))"
    "kv_data (s_kv (snd (WriteSuperblock C m))) = (kv_data (s_kv m))(super_key (km_fs_id m) \<mapsto> v)"
  using assms by (simp_all add: WriteSuperblock_def Let_def kv_simps)

theorem later_start_drops_root_links_witness:
  "\<exists>p p' h' p'' (root :: LogFSFile). main_start sample_main [''cfg'' \<mapsto> ''s3:b''] = Val p \<and>
    main_stop sample_main (\<lambda>_. []) p \<lparr>h_files = (\<lambda>_. None), h_can_create = (\<lambda>_. True), h_last_log_file = []\<rparr> = Val (p', h') \<and>
    main_start (sample_main\<lparr>me_store := \<lambda>_. (True, s_kv (pg_mount p'))\<rparr>) [''cfg'' \<mapsto> ''s3:b''] = Val p'' \<and>
    kv_data (s_kv (pg_mount p'')) (inode_key 1) = Some (meta_encode (f_meta root)) \<and> m_nLink (f_meta root) = 0"
proof -
  let ?h = "\<lparr>h_files = (\<lambda>_. None), h_can_create = (\<lambda>_. True), h_last_log_file = []\<rparr>" let ?city = "fe_city (me_fenv sample_main)"
  have "h_can_create ?h f" for f by simp
  from first_start [OF sample_main_starts sample_main_store this, of "\<lambda>_. []"]
  obtain p root p' h' where p: "main_start sample_main [''cfg'' \<mapsto> ''s3:b''] = Val p" "km_fs_id (pg_mount p) = TEST_FSID"
    "f_handle root = ROOT_HANDLE" "f_fsId root = TEST_FSID" "dir_inv (root, s_kv (pg_mount p))"
    "dir_lookup ?city (root, s_kv (pg_mount p)) = [''.'' \<mapsto> ROOT_HANDLE, ''..'' \<mapsto> ROOT_HANDLE]"
    "main_stop sample_main (\<lambda>_. []) p ?h = Val (p', h')" by metis
  let ?M = "sample_main\<lparr>me_store := \<lambda>_. (True, s_kv (pg_mount p'))\<rparr>"
  obtain v where v: "reliable (s_kv (pg_mount p'))" "kv_data (s_kv (pg_mount p')) = (kv_data (s_kv (pg_mount p)))(super_key TEST_FSID \<mapsto> v)"
    using WriteSuperblock_store [OF dir_inv_reliable [OF p(5)], of "Superblock.sample_codec"] main_stop_store [OF p(7)] p(2)
    by (simp add: sample_main_def Superblock.sample_codec_def)
  have "dir_inv (root, s_kv (pg_mount p'))" "dir_lookup ?city (root, s_kv (pg_mount p')) = dir_lookup ?city (root, s_kv (pg_mount p))"
    by (intro dir_inv_frame [OF p(5) v(1)]; use v(2) super_key_distinct(6) in simp)+
  then have dir: "dir_inv (root, s_kv (pg_mount p'))" "dir_lookup (fe_city (me_fenv ?M)) (root, s_kv (pg_mount p')) ''.'' \<noteq> None"
    using p(6) by simp_all
  have start: "can_start ?M [''cfg'' \<mapsto> ''s3:b''] \<lparr>fo_use_rocksdb = 0, fo_cloud_proxy_dir = None, fo_config_file = Some ''cfg'', fo_force_leak = 0\<rparr>
     (empty_config\<lparr>pc_cloud := Some (Some ''s3:b'')\<rparr>) ''s3:b''"
    using sample_main_starts by (simp add: can_start_def)
  have store: "me_store ?M b = (True, s_kv (pg_mount p'))" "kv_data (s_kv (pg_mount p')) (super_key TEST_FSID) = Some v"
    "sc_merge (me_super ?M) v no_super = Some (no_super\<lparr>sb_next_inode := read_int v\<rparr>)" for b
    using v(2) by (simp_all add: sample_main_def Superblock.sample_codec_def)
  from later_start_drops_root_links [OF start store dir(1) p(3,4) dir(2)]
  obtain p'' and root' :: LogFSFile where "main_start ?M [''cfg'' \<mapsto> ''s3:b''] = Val p''" "m_nLink (f_meta root') = 0"
    "kv_data (s_kv (pg_mount p'')) (inode_key ROOT_HANDLE) = Some (meta_encode (f_meta root'))" by blast
  then show ?thesis using p(1,7) unfolding ROOT_HANDLE_def by blast
qed

end
