(* ===== verification/Hexdump.thy ===== *)
theory Hexdump
  imports Stores
begin

text \<open>
  What the program prints about its store: the hexadecimal dump of a value
  (\<^verbatim>\<open>src/src/hexdump.cc\<close>) and the \<^verbatim>\<open>dump\<close> and \<^verbatim>\<open>dbstats\<close> methods of the two stores. Scanning a
  database and its statistics are calls of the library, a record of functions.
\<close>

section \<open>Hexadecimal dump\<close>

definition hex_char :: "nat \<Rightarrow> char" where
  "hex_char d = (if d < 10 then char_of (48 + d) else char_of (87 + d))"

fun show_hex :: "nat \<Rightarrow> string" where
  "show_hex n = (if n < 16 then [hex_char n] else show_hex (n div 16) @ [hex_char (n mod 16)])"

declare show_hex.simps [simp del]

text \<open>\<^verbatim>\<open>setfill('0') << setw(w)\<close>.\<close>

definition hex_width :: "nat \<Rightarrow> nat \<Rightarrow> string" where
  "hex_width w n = replicate (w - length (show_hex n)) CHR ''0'' @ show_hex n"

definition c_isprint :: "char \<Rightarrow> bool" where
  "c_isprint c \<longleftrightarrow> 32 \<le> (of_char c :: nat) \<and> (of_char c :: nat) < 127"

text \<open>One line: the address, sixteen places in two groups, and the printable characters.\<close>

definition hex_places :: "string \<Rightarrow> string" where
  "hex_places buf = concat (map (\<lambda>i. (if i mod 8 = 0 then '' '' else []) @
     (if i < length buf then '' '' @ hex_width 2 (of_char (buf ! i)) else ''   '')) [0..<16])"

definition hex_line :: "nat \<Rightarrow> string \<Rightarrow> string" where
  "hex_line address buf =
     hex_width 8 address @ hex_places buf @ ''  '' @ map (\<lambda>c. if c_isprint c then c else CHR ''.'') buf @ [CHR 0x0A]"

function hexdump_loop :: "nat \<Rightarrow> string \<Rightarrow> string" where
  "hexdump_loop address bytes =
     (if bytes = [] then [] else hex_line address (take 16 bytes) @ hexdump_loop (address + 16) (drop 16 bytes))"
  by pat_completeness auto
termination
  by (relation "measure (\<lambda>(_, bytes). length bytes)") auto

declare hexdump_loop.simps [simp del]

text \<open>The number of bytes is converted to \<^verbatim>\<open>int\<close>; the address counts from 0.\<close>

definition hexdump :: "string \<Rightarrow> string" where
  "hexdump bytes = hexdump_loop 0 (take (nat (to_int32 (int (length bytes)))) bytes)"

lemma hexdump_loop_append:
  assumes "16 dvd length xs"
  shows "hexdump_loop a (xs @ ys) = hexdump_loop a xs @ hexdump_loop (a + length xs) ys"
  using assms
proof (induction a xs rule: hexdump_loop.induct)
  case (1 a xs)
  show ?case
  proof (cases "xs = []")
    case True
    then show ?thesis by (simp add: hexdump_loop.simps [of a "[]"])
  next
    case False
    then have len: "16 \<le> length xs" "16 dvd length (drop 16 xs)" using "1.prems" by (auto dest: dvd_imp_le simp: dvd_diff_nat)
    with "1.IH" False show ?thesis
      by (simp add: hexdump_loop.simps [of a "xs @ ys"] hexdump_loop.simps [of a xs])
  qed
qed

section \<open>The stores\<close>

text \<open>
  \<open>DI_Scan\<close>: the pairs an iterator visits from the first one on, and its status at the end.
  \<open>DI_GetProperty\<close>: \<open>None\<close> for a property the library does not know.
\<close>

record 'd db_inspect =
  DI_Scan :: "'d \<Rightarrow> (string \<times> string) list \<times> bool"
  DI_GetApproximateSizes :: "string \<Rightarrow> string \<Rightarrow> 'd \<Rightarrow> u64"
  DI_GetProperty :: "string \<Rightarrow> 'd \<Rightarrow> string option"

definition dump_entry :: "string \<times> string \<Rightarrow> string" where
  "dump_entry kv = ''key '' @ fst kv @ '' size: '' @ show_nat (length (snd kv)) @ [CHR 0x0A] @ hexdump (snd kv)"

definition dump_database :: "'d db_inspect \<Rightarrow> 'd \<Rightarrow> string outcome" where
  "dump_database I d = (let (entries, ok) = DI_Scan I d in expect ok (Val (concat (map dump_entry entries))))"

definition LevelDBStore_dump :: "'d db_inspect \<Rightarrow> LevelDBStore \<Rightarrow> 'd option \<Rightarrow> string outcome" where
  "LevelDBStore_dump I this heap = obind (ldb_deref this heap) (dump_database I)"

definition RocksDBStore_dump :: "'d db_inspect \<Rightarrow> RocksDBStore \<Rightarrow> 'd option \<Rightarrow> string outcome" where
  "RocksDBStore_dump I this heap = obind (rdb_deref this heap) (dump_database I)"

definition range_end :: string where
  "range_end = replicate 4 (CHR 0xFF)"

definition show_props :: "'d db_inspect \<Rightarrow> string list \<Rightarrow> 'd \<Rightarrow> string" where
  "show_props I props d =
     [CHR 0x0A] @ ''Approximate database size: '' @ show_lu (DI_GetApproximateSizes I [] range_end d) @
     concat (map (\<lambda>prop. [CHR 0x0A] @ ''prop: '' @ prop @ '': '' @
       (case DI_GetProperty I prop d of None \<Rightarrow> [] | Some val \<Rightarrow> val)) props)"

definition LevelDBStore_dbstats :: "'d db_inspect \<Rightarrow> LevelDBStore \<Rightarrow> 'd option \<Rightarrow> string outcome" where
  "LevelDBStore_dbstats I this heap = obind (ldb_deref this heap) (\<lambda>d.
     Val (show_props I [''leveldb.stats'', ''leveldb.sstables'', ''leveldb.approximate-memory-usage''] d))"

definition RocksDBStore_dbstats :: "'d db_inspect \<Rightarrow> RocksDBStore \<Rightarrow> 'd option \<Rightarrow> string outcome" where
  "RocksDBStore_dbstats I this heap = obind (rdb_deref this heap) (\<lambda>d.
     Val (show_props I [''rocksdb.stats'', ''rocksdb.sstables'', ''rocksdb.approximate-memory-usage''] d))"

end
