(* ===== verification/StoreLife.thy ===== *)
theory StoreLife
  imports Hexdump
begin

text \<open>
  The life of the store object: who opens, borrows and closes it. The file system manager of the
  mount and the main program hold the same store; each snapshot of the tiering-out agent borrows its
  database through a second object (\<^verbatim>\<open>MountSnapshot\<close>, \<^verbatim>\<open>UnmountSnapshot\<close> and \<^verbatim>\<open>umountFileSystem\<close> of
  \<^verbatim>\<open>src/src/FileSystemManager.cc\<close>, \<^verbatim>\<open>Close\<close> of \<^verbatim>\<open>src/src/tiering/snapshot_persister.cc\<close>, and the end of
  \<^verbatim>\<open>main\<close>). The other theories read and write a store that stays open; this one shows when that
  is so.
\<close>

section \<open>The virtual methods\<close>

record ('s, 'd) kv_object =
  ko_put :: "string \<Rightarrow> string \<Rightarrow> 's \<Rightarrow> 'd option \<Rightarrow> (bool \<times> 'd option) outcome"
  ko_get :: "string \<Rightarrow> 's \<Rightarrow> 'd option \<Rightarrow> (string option) outcome"
  ko_remove :: "string \<Rightarrow> 's \<Rightarrow> 'd option \<Rightarrow> (bool \<times> 'd option) outcome"
  ko_Compact :: "'s \<Rightarrow> 'd option \<Rightarrow> ('d option) outcome"
  ko_close :: "'s \<Rightarrow> 'd option \<Rightarrow> bool \<times> 's \<times> 'd option"
  ko_Snapshot :: "'s \<Rightarrow> 'd option \<Rightarrow> ('s option \<times> 'd option) outcome"
  ko_delete :: "'s \<Rightarrow> 'd option \<Rightarrow> ('d option) outcome"
  ko_dump :: "'s \<Rightarrow> 'd option \<Rightarrow> string outcome"
  ko_dbstats :: "'s \<Rightarrow> 'd option \<Rightarrow> string outcome"

definition LevelDB_object :: "'d db_api \<Rightarrow> 'd db_inspect \<Rightarrow> (LevelDBStore, 'd) kv_object" where
  "LevelDB_object api I = \<lparr>ko_put = LevelDBStore_put api, ko_get = LevelDBStore_get api,
     ko_remove = LevelDBStore_remove api, ko_Compact = LevelDBStore_Compact api, ko_close = LevelDBStore_close,
     ko_Snapshot = (\<lambda>this db. obind (LevelDBStore_Snapshot api this db) (\<lambda>(snapshot, db). Val (Some snapshot, db))),
     ko_delete = LevelDBStore_delete api, ko_dump = LevelDBStore_dump I, ko_dbstats = LevelDBStore_dbstats I\<rparr>"

definition RocksDB_object :: "'d db_api \<Rightarrow> 'd db_inspect \<Rightarrow> (RocksDBStore, 'd) kv_object" where
  "RocksDB_object api I = \<lparr>ko_put = RocksDBStore_put api, ko_get = RocksDBStore_get api,
     ko_remove = RocksDBStore_remove api, ko_Compact = RocksDBStore_Compact api, ko_close = RocksDBStore_close,
     ko_Snapshot = RocksDBStore_Snapshot api, ko_delete = RocksDBStore_delete api, ko_dump = RocksDBStore_dump I,
     ko_dbstats = RocksDBStore_dbstats I\<rparr>"

section \<open>The holders of the store\<close>

text \<open>
  \<open>ps_base\<close>: the object that \<^verbatim>\<open>main\<close> and the manager of the mount point to; \<open>ps_db\<close>: the database, \<open>None\<close>
  when it was deleted; \<open>ps_snapshot\<close>: the store of the manager that \<^verbatim>\<open>MountSnapshot\<close> made, null when
  there is none. \<open>ps_tiering\<close>, \<open>ps_evicting\<close>, \<open>ps_polling\<close>: the threads of the two agents and of the web
  server have not ended.
\<close>

datatype main_pc = Serving | Joined | Unmounted | Closed | Deleted

record ('s, 'd) store_state =
  ps_base :: 's
  ps_db :: "'d option"
  ps_snapshot :: "'s option"
  ps_tiering :: bool
  ps_evicting :: bool
  ps_polling :: bool
  ps_main :: main_pc

definition object_MountSnapshot :: "('s, 'd) kv_object \<Rightarrow> ('s, 'd) store_state \<Rightarrow> ('s, 'd) store_state outcome" where
  "object_MountSnapshot V s =
     obind (ko_Snapshot V (ps_base s) (ps_db s)) (\<lambda>(store_snapshot, db).
       Val (s\<lparr>ps_snapshot := store_snapshot, ps_db := db\<rparr>))"

text \<open>\<^verbatim>\<open>delete\<close> of a null pointer does nothing.\<close>

definition UnmountSnapshot :: "('s, 'd) kv_object \<Rightarrow> ('s, 'd) store_state \<Rightarrow> ('s, 'd) store_state outcome" where
  "UnmountSnapshot V s =
     (case ps_snapshot s of
        None \<Rightarrow> Val s
      | Some kvstore \<Rightarrow> obind (ko_delete V kvstore (ps_db s)) (\<lambda>db. Val (s\<lparr>ps_db := db, ps_snapshot := None\<rparr>)))"

definition Persister_Close :: "('s, 'd) kv_object \<Rightarrow> ('s, 'd) store_state \<Rightarrow> (int \<times> ('s, 'd) store_state) outcome" where
  "Persister_Close V s = obind (UnmountSnapshot V s) (\<lambda>s. Val (0, s))"

definition umountFileSystem :: "('s, 'd) kv_object \<Rightarrow> ('s, 'd) store_state \<Rightarrow> bool \<times> ('s, 'd) store_state" where
  "umountFileSystem V s =
     (let (ok, base, db) = ko_close V (ps_base s) (ps_db s) in (ok, s\<lparr>ps_base := base, ps_db := db\<rparr>))"

text \<open>What \<^verbatim>\<open>Shutdown\<close> does to the store: the superblock is put, then the file system unmounted.\<close>

definition Shutdown_store :: "('s, 'd) kv_object \<Rightarrow> string \<Rightarrow> string \<Rightarrow> ('s, 'd) store_state \<Rightarrow> ('s, 'd) store_state outcome" where
  "Shutdown_store V key value s =
     obind (ko_put V key value (ps_base s) (ps_db s)) (\<lambda>(_, db).
       Val (snd (umountFileSystem V (s\<lparr>ps_db := db\<rparr>))))"

definition main_close :: "('s, 'd) kv_object \<Rightarrow> ('s, 'd) store_state \<Rightarrow> ('s, 'd) store_state" where
  "main_close V s = (let (_, base, db) = ko_close V (ps_base s) (ps_db s) in s\<lparr>ps_base := base, ps_db := db\<rparr>)"

definition main_delete :: "('s, 'd) kv_object \<Rightarrow> ('s, 'd) store_state \<Rightarrow> ('s, 'd) store_state outcome" where
  "main_delete V s = obind (ko_delete V (ps_base s) (ps_db s)) (\<lambda>db. Val (s\<lparr>ps_db := db\<rparr>))"

definition DumpKVStore :: "('s, 'd) kv_object \<Rightarrow> ('s, 'd) store_state \<Rightarrow> string outcome" where
  "DumpKVStore V s = ko_dump V (ps_base s) (ps_db s)"

definition agent_DBStats :: "('s, 'd) kv_object \<Rightarrow> ('s, 'd) store_state \<Rightarrow> string outcome" where
  "agent_DBStats V s = ko_dbstats V (ps_base s) (ps_db s)"

section \<open>The program's use of its store\<close>

text \<open>The calls that the file system makes of its store to read and change data.\<close>

datatype data_call = Put_call string string | Get_call string | Remove_call string

primrec base_call :: "('s, 'd) kv_object \<Rightarrow> data_call \<Rightarrow> ('s, 'd) store_state \<Rightarrow> ('s, 'd) store_state outcome" where
  "base_call V (Put_call k v) s = obind (ko_put V k v (ps_base s) (ps_db s)) (\<lambda>(_, db). Val (s\<lparr>ps_db := db\<rparr>))"
| "base_call V (Get_call k) s = obind (ko_get V k (ps_base s) (ps_db s)) (\<lambda>_. Val s)"
| "base_call V (Remove_call k) s = obind (ko_remove V k (ps_base s) (ps_db s)) (\<lambda>(_, db). Val (s\<lparr>ps_db := db\<rparr>))"

definition object_Compact :: "('s, 'd) kv_object \<Rightarrow> ('s, 'd) store_state \<Rightarrow> ('s, 'd) store_state outcome" where
  "object_Compact V s = obind (ko_Compact V (ps_base s) (ps_db s)) (\<lambda>db. Val (s\<lparr>ps_db := db\<rparr>))"

text \<open>
  One step of a thread, with the state it leads to or the fault it is. \<open>mounted\<close>: the call of
  \<^verbatim>\<open>fuse_mount\<close> succeeded; when it fails, \<^verbatim>\<open>main\<close> jumps to \<^verbatim>\<open>out\<close> and shuts down without waiting for the
  threads. The handlers read, write and remove data. A segment copies files through the manager of
  the mount, which restores evicted ones, and the persister reads paths through the snapshot. A pass
  of evictions changes files and then compacts the store. The web server's thread serves \<^verbatim>\<open>/DUMP\<close> and
  \<^verbatim>\<open>/DBSTATS\<close> through the tiering-out agent, with the store of the mount.
\<close>

inductive life_step :: "('s, 'd) kv_object \<Rightarrow> bool \<Rightarrow> ('s, 'd) store_state \<Rightarrow> ('s, 'd) store_state outcome \<Rightarrow> bool"
  for V :: "('s, 'd) kv_object" and mounted :: bool where
  serve: "mounted \<Longrightarrow> ps_main s = Serving \<Longrightarrow> life_step V mounted s (base_call V c s)"
| take_snapshot: "ps_tiering s \<Longrightarrow> ps_snapshot s = None \<Longrightarrow> life_step V mounted s (object_MountSnapshot V s)"
| read_path: "ps_tiering s \<Longrightarrow> ps_snapshot s = Some sn \<Longrightarrow>
    life_step V mounted s (obind (ko_get V k sn (ps_db s)) (\<lambda>_. Val s))"
| copy_file: "ps_tiering s \<Longrightarrow> ps_snapshot s \<noteq> None \<Longrightarrow> life_step V mounted s (base_call V c s)"
| close_snapshot: "ps_tiering s \<Longrightarrow> ps_snapshot s \<noteq> None \<Longrightarrow>
    life_step V mounted s (obind (Persister_Close V s) (\<lambda>(_, s). Val s))"
| tiering_ends: "ps_tiering s \<Longrightarrow> ps_snapshot s = None \<Longrightarrow> life_step V mounted s (Val (s\<lparr>ps_tiering := False\<rparr>))"
| evict: "ps_evicting s \<Longrightarrow> life_step V mounted s (base_call V c s)"
| compact: "ps_evicting s \<Longrightarrow> life_step V mounted s (object_Compact V s)"
| eviction_ends: "ps_evicting s \<Longrightarrow> life_step V mounted s (Val (s\<lparr>ps_evicting := False\<rparr>))"
| web_dump: "ps_polling s \<Longrightarrow> life_step V mounted s (obind (DumpKVStore V s) (\<lambda>_. Val s))"
| web_stats: "ps_polling s \<Longrightarrow> life_step V mounted s (obind (agent_DBStats V s) (\<lambda>_. Val s))"
| polling_ends: "ps_polling s \<Longrightarrow> life_step V mounted s (Val (s\<lparr>ps_polling := False\<rparr>))"
| joined: "mounted \<Longrightarrow> ps_main s = Serving \<Longrightarrow> \<not> ps_evicting s \<Longrightarrow> \<not> ps_tiering s \<Longrightarrow> \<not> ps_polling s \<Longrightarrow>
    life_step V mounted s (Val (s\<lparr>ps_main := Joined\<rparr>))"
| shut_down: "ps_main s = (if mounted then Joined else Serving) \<Longrightarrow>
    life_step V mounted s (obind (Shutdown_store V k v s) (\<lambda>s. Val (s\<lparr>ps_main := Unmounted\<rparr>)))"
| closed: "ps_main s = Unmounted \<Longrightarrow> life_step V mounted s (Val ((main_close V s)\<lparr>ps_main := Closed\<rparr>))"
| deleted: "ps_main s = Closed \<Longrightarrow> life_step V mounted s (obind (main_delete V s) (\<lambda>s. Val (s\<lparr>ps_main := Deleted\<rparr>)))"

definition life_steps :: "('s, 'd) kv_object \<Rightarrow> bool \<Rightarrow> ('s, 'd) store_state \<Rightarrow> ('s, 'd) store_state \<Rightarrow> bool" where
  "life_steps V mounted = (\<lambda>s s'. life_step V mounted s (Val s'))\<^sup>*\<^sup>*"

text \<open>The program after its start, on a store that was just opened.\<close>

definition life_start :: "'s \<Rightarrow> 'd option \<Rightarrow> ('s, 'd) store_state" where
  "life_start store db = \<lparr>ps_base = store, ps_db = db, ps_snapshot = None, ps_tiering = True, ps_evicting = True, ps_polling = True, ps_main = Serving\<rparr>"

section \<open>The contract of a store object\<close>

text \<open>
  \<open>opened\<close>: a store with its own database; \<open>shut\<close>: one without; \<open>borrowed\<close>: a snapshot of an open
  store. A borrowed database must be given back while the database is there. \<open>broken\<close>: a database
  in which a scan finds an error, for which \<^verbatim>\<open>dump\<close> has an assertion.
\<close>

locale store_object =
  fixes V :: "('s, 'd) kv_object"
    and opened :: "'s \<Rightarrow> bool"
    and shut :: "'s \<Rightarrow> bool"
    and borrowed :: "'s \<Rightarrow> bool"
    and broken :: "'d \<Rightarrow> bool"
  assumes put_open: "opened s \<or> borrowed s \<Longrightarrow> \<exists>ok d'. ko_put V k v s (Some d) = Val (ok, Some d')"
    and get_open: "opened s \<or> borrowed s \<Longrightarrow> \<exists>r. ko_get V k s (Some d) = Val r"
    and remove_open: "opened s \<Longrightarrow> \<exists>ok d'. ko_remove V k s (Some d) = Val (ok, Some d')"
    and Compact_open: "opened s \<Longrightarrow> \<exists>d'. ko_Compact V s (Some d) = Val (Some d')"
    and dbstats_open: "opened s \<Longrightarrow> \<exists>t. ko_dbstats V s (Some d) = Val t"
    and dump_open: "opened s \<Longrightarrow> \<not> broken d \<Longrightarrow> \<exists>t. ko_dump V s (Some d) = Val t"
    and dump_broken: "opened s \<Longrightarrow> broken d \<Longrightarrow> ko_dump V s (Some d) = Abort"
    and snapshot_open: "opened s \<Longrightarrow> \<exists>sn d'. ko_Snapshot V s (Some d) = Val (Some sn, Some d') \<and> borrowed sn"
    and delete_borrowed: "borrowed s \<Longrightarrow> \<exists>d'. ko_delete V s (Some d) = Val (Some d')"
    and delete_dangling: "borrowed s \<Longrightarrow> ko_delete V s None = Undef"
    and close_open: "opened s \<Longrightarrow> \<exists>s'. ko_close V s db = (True, s', None) \<and> shut s'"
    and close_shut: "shut s \<Longrightarrow> ko_close V s db = (True, s, db)"
    and delete_shut: "shut s \<Longrightarrow> ko_delete V s db = Val db"

definition life_inv :: "('s \<Rightarrow> bool) \<Rightarrow> ('s \<Rightarrow> bool) \<Rightarrow> ('s \<Rightarrow> bool) \<Rightarrow> ('s, 'd) store_state \<Rightarrow> bool" where
  "life_inv opened shut borrowed s \<longleftrightarrow>
     (if ps_main s \<in> {Serving, Joined} then opened (ps_base s) \<and> ps_db s \<noteq> None else shut (ps_base s) \<and> ps_db s = None) \<and>
     (\<forall>sn. ps_snapshot s = Some sn \<longrightarrow> borrowed sn \<and> ps_tiering s) \<and>
     (ps_main s \<noteq> Serving \<longrightarrow> \<not> ps_tiering s \<and> \<not> ps_evicting s \<and> \<not> ps_polling s)"

text \<open>Some thread may still call the store.\<close>

definition in_use :: "('s, 'd) store_state \<Rightarrow> bool" where
  "in_use s \<longleftrightarrow> ps_main s \<in> {Serving, Joined} \<or> ps_tiering s \<or> ps_evicting s \<or> ps_polling s"

context store_object
begin

lemma inv_live:
  assumes "life_inv opened shut borrowed s" "in_use s"
  obtains d where "ps_db s = Some d" "opened (ps_base s)" "ps_main s \<in> {Serving, Joined}"
  using assms by (auto simp: life_inv_def in_use_def split: if_splits)

lemma inv_db: "life_inv opened shut borrowed s \<Longrightarrow> ps_main s \<in> {Serving, Joined} \<Longrightarrow> life_inv opened shut borrowed (s\<lparr>ps_db := Some d\<rparr>)"
  by (auto simp: life_inv_def)

lemma call_is_safe:
  assumes "life_inv opened shut borrowed s" "in_use s"
  shows "\<exists>s'. base_call V c s = Val s' \<and> life_inv opened shut borrowed s'"
    "\<exists>s'. object_Compact V s = Val s' \<and> life_inv opened shut borrowed s'"
    "\<exists>t. agent_DBStats V s = Val t"
    "(\<exists>t. DumpKVStore V s = Val t) \<or> DumpKVStore V s = Abort \<and> (\<exists>d. ps_db s = Some d \<and> broken d)"
    "borrowed sn \<Longrightarrow> \<exists>v. ko_get V k sn (ps_db s) = Val v"
proof -
  obtain d where d: "ps_db s = Some d" "opened (ps_base s)" "ps_main s \<in> {Serving, Joined}"
    using inv_live [OF assms] by blast
  note inv = inv_db [OF assms(1) d(3)]
  show "\<exists>s'. base_call V c s = Val s' \<and> life_inv opened shut borrowed s'"
  proof (cases c)
    case (Put_call k v)
    obtain ok d' where "ko_put V k v (ps_base s) (Some d) = Val (ok, Some d')" using put_open d(2) by blast
    with Put_call d(1) inv show ?thesis by simp
  next
    case (Get_call k)
    obtain v where "ko_get V k (ps_base s) (Some d) = Val v" using get_open d(2) by blast
    with Get_call d(1) assms(1) show ?thesis by simp
  next
    case (Remove_call k)
    obtain ok d' where "ko_remove V k (ps_base s) (Some d) = Val (ok, Some d')" using remove_open d(2) by blast
    with Remove_call d(1) inv show ?thesis by simp
  qed
  obtain d' where "ko_Compact V (ps_base s) (Some d) = Val (Some d')" using Compact_open d(2) by blast
  with d(1) inv show "\<exists>s'. object_Compact V s = Val s' \<and> life_inv opened shut borrowed s'" by (simp add: object_Compact_def)
  show "\<exists>t. agent_DBStats V s = Val t" using dbstats_open d by (simp add: agent_DBStats_def)
  show "(\<exists>t. DumpKVStore V s = Val t) \<or> DumpKVStore V s = Abort \<and> (\<exists>d. ps_db s = Some d \<and> broken d)"
    using dump_open [OF d(2)] dump_broken [OF d(2)] d(1) by (cases "broken d") (simp_all add: DumpKVStore_def)
  show "borrowed sn \<Longrightarrow> \<exists>v. ko_get V k sn (ps_db s) = Val v" using get_open d(1) by simp
qed

lemma take_is_safe:
  assumes "life_inv opened shut borrowed s" "ps_tiering s" "ps_snapshot s = None"
  shows "\<exists>s'. object_MountSnapshot V s = Val s' \<and> life_inv opened shut borrowed s'"
proof -
  obtain d where d: "ps_db s = Some d" "opened (ps_base s)" "ps_main s \<in> {Serving, Joined}"
    using inv_live [OF assms(1)] assms(2) by (auto simp: in_use_def)
  with snapshot_open obtain sn d' where "ko_Snapshot V (ps_base s) (Some d) = Val (Some sn, Some d')" "borrowed sn" by blast
  with d assms show ?thesis by (auto simp: life_inv_def object_MountSnapshot_def)
qed

lemma close_snapshot_is_safe:
  assumes "life_inv opened shut borrowed s" "ps_snapshot s \<noteq> None"
  shows "\<exists>d'. obind (Persister_Close V s) (\<lambda>(_, s). Val s) = Val (s\<lparr>ps_db := Some d', ps_snapshot := None\<rparr>) \<and>
    life_inv opened shut borrowed (s\<lparr>ps_db := Some d', ps_snapshot := None\<rparr>)"
proof -
  obtain sn where sn: "ps_snapshot s = Some sn" "borrowed sn" "ps_tiering s" using assms by (auto simp: life_inv_def)
  obtain d where d: "ps_db s = Some d" "ps_main s \<in> {Serving, Joined}" using inv_live [OF assms(1)] sn(3) by (auto simp: in_use_def)
  with delete_borrowed [OF sn(2)] obtain d' where "ko_delete V sn (Some d) = Val (Some d')" by blast
  with d sn assms(1) show ?thesis by (auto simp: life_inv_def UnmountSnapshot_def Persister_Close_def)
qed

lemma shutdown_is_safe:
  assumes "life_inv opened shut borrowed s" "ps_main s = Joined"
  shows "\<exists>s'. obind (Shutdown_store V k v s) (\<lambda>s. Val (s\<lparr>ps_main := Unmounted\<rparr>)) = Val s' \<and>
    life_inv opened shut borrowed s' \<and> ps_main s' = Unmounted"
proof -
  obtain d where d: "ps_db s = Some d" "opened (ps_base s)" using inv_live [OF assms(1)] assms(2) by (auto simp: in_use_def)
  with put_open obtain ok d' where "ko_put V k v (ps_base s) (Some d) = Val (ok, Some d')" by blast
  moreover obtain b where "ko_close V (ps_base s) (Some d') = (True, b, None)" "shut b" using close_open d(2) by blast
  ultimately show ?thesis using d assms
    by (auto simp: life_inv_def Shutdown_store_def umountFileSystem_def)
qed

lemma step_is_safe:
  assumes "life_step V True s r" "life_inv opened shut borrowed s"
  shows "(\<exists>s'. r = Val s' \<and> life_inv opened shut borrowed s') \<or> r = Abort \<and> (\<exists>d. ps_db s = Some d \<and> broken d)"
  using assms(1)
proof cases
  case (serve c)
  with call_is_safe(1) [OF assms(2)] show ?thesis by (simp add: in_use_def)
next
  case take_snapshot
  with take_is_safe [OF assms(2)] show ?thesis by simp
next
  case (read_path sn k)
  then have "borrowed sn" "in_use s" using assms(2) by (simp_all add: life_inv_def in_use_def)
  then obtain v where "ko_get V k sn (ps_db s) = Val v" using call_is_safe(5) [OF assms(2)] by blast
  with read_path assms(2) show ?thesis by simp
next
  case (copy_file c)
  with call_is_safe(1) [OF assms(2)] show ?thesis by (simp add: in_use_def)
next
  case close_snapshot
  with close_snapshot_is_safe [OF assms(2)] show ?thesis by auto
next
  case (evict c)
  with call_is_safe(1) [OF assms(2)] show ?thesis by (simp add: in_use_def)
next
  case compact
  with call_is_safe(2) [OF assms(2)] show ?thesis by (simp add: in_use_def)
next
  case web_dump
  then have "in_use s" by (simp add: in_use_def)
  from call_is_safe(4) [OF assms(2) this] web_dump(1) assms(2) show ?thesis by auto
next
  case web_stats
  then have "in_use s" by (simp add: in_use_def)
  from call_is_safe(3) [OF assms(2) this] web_stats(1) assms(2) show ?thesis by auto
next
  case (shut_down k v)
  with shutdown_is_safe [OF assms(2), of k v] show ?thesis by auto
next
  case closed
  with assms(2) show ?thesis by (auto simp: life_inv_def main_close_def close_shut)
next
  case deleted
  with assms(2) show ?thesis by (auto simp: life_inv_def main_delete_def delete_shut)
qed (use assms(2) in \<open>simp_all add: life_inv_def\<close>)

lemma steps_inv:
  assumes "life_steps V True s s'" "life_inv opened shut borrowed s"
  shows "life_inv opened shut borrowed s'"
  using assms(1) unfolding life_steps_def
  by (induction rule: rtranclp_induct) (use assms(2) step_is_safe in blast)+

lemma step_extends:
  "life_steps V m s t \<Longrightarrow> life_step V m t (Val u) \<Longrightarrow> life_steps V m s u"
  unfolding life_steps_def by (rule rtranclp.rtrancl_into_rtrancl)

lemma steps_trans: "life_steps V m s t \<Longrightarrow> life_steps V m t u \<Longrightarrow> life_steps V m s u"
  unfolding life_steps_def by (rule rtranclp_trans)

lemma steps_refl [simp]: "life_steps V m s s"
  by (simp add: life_steps_def)

text \<open>Each phase of the stop leads to the next.\<close>

lemma snapshot_given_back:
  assumes "life_inv opened shut borrowed s"
  shows "\<exists>t. life_steps V True s t \<and> ps_snapshot t = None \<and> ps_main t = ps_main s"
proof (cases "ps_snapshot s = None")
  case True
  then show ?thesis by (intro exI [of _ s]) simp
next
  case False
  then have "ps_tiering s" using assms by (auto simp: life_inv_def)
  with False have "life_step V True s (obind (Persister_Close V s) (\<lambda>(_, s). Val s))" by (rule life_step.close_snapshot [rotated])
  with close_snapshot_is_safe [OF assms False] obtain d' where
    "life_step V True s (Val (s\<lparr>ps_db := Some d', ps_snapshot := None\<rparr>))" by auto
  then show ?thesis using step_extends [OF steps_refl] by fastforce
qed

lemma thread_ends:
  assumes "b \<Longrightarrow> life_step V m s (Val s')"
  shows "life_steps V m s (if b then s' else s)"
  using step_extends [OF steps_refl assms] by simp

lemma threads_end:
  assumes "ps_snapshot s = None"
  shows "\<exists>t. life_steps V m s t \<and> \<not> ps_tiering t \<and> \<not> ps_evicting t \<and> \<not> ps_polling t \<and> ps_main t = ps_main s"
proof -
  let ?t = "if ps_tiering s then s\<lparr>ps_tiering := False\<rparr> else s"
  let ?u = "if ps_evicting ?t then ?t\<lparr>ps_evicting := False\<rparr> else ?t"
  let ?v = "if ps_polling ?u then ?u\<lparr>ps_polling := False\<rparr> else ?u"
  have "life_steps V m s ?t" using assms by (intro thread_ends life_step.tiering_ends)
  moreover have "life_steps V m ?t ?u" by (intro thread_ends life_step.eviction_ends)
  moreover have "life_steps V m ?u ?v" by (intro thread_ends life_step.polling_ends)
  ultimately have "life_steps V m s ?v" by (blast intro: steps_trans)
  then show ?thesis by (rule exI [of _ ?v, OF conjI]) simp
qed

text \<open>A program whose threads are asked to stop can always come to its end.\<close>

lemma can_finish:
  assumes "life_inv opened shut borrowed s"
  shows "\<exists>t. life_steps V True s t \<and> ps_main t = Deleted"
proof -
  have closed: "\<exists>t. life_steps V True s t \<and> ps_main t = Deleted" if "life_inv opened shut borrowed s" "ps_main s = Closed" for s
  proof -
    have "life_step V True s (Val (s\<lparr>ps_db := None, ps_main := Deleted\<rparr>))"
      using life_step.deleted [of s V True] that by (simp add: life_inv_def main_delete_def delete_shut)
    then show ?thesis using step_extends [OF steps_refl] by fastforce
  qed
  have unmounted: "\<exists>t. life_steps V True s t \<and> ps_main t = Deleted" if "life_inv opened shut borrowed s" "ps_main s = Unmounted" for s
    using step_extends [OF steps_refl life_step.closed [of s V True]] that(2) closed steps_trans steps_inv [OF _ that(1)] by fastforce
  have joined: "\<exists>t. life_steps V True s t \<and> ps_main t = Deleted" if st: "life_inv opened shut borrowed s" "ps_main s = Joined" for s
  proof -
    obtain u where "obind (Shutdown_store V [] [] s) (\<lambda>s. Val (s\<lparr>ps_main := Unmounted\<rparr>)) = Val u"
      "life_inv opened shut borrowed u" "ps_main u = Unmounted" using shutdown_is_safe [OF st] by blast
    moreover from this(1) have "life_steps V True s u"
      using step_extends [OF steps_refl] life_step.shut_down [of s True V "[]" "[]"] st(2) by simp
    ultimately show ?thesis using unmounted steps_trans by blast
  qed
  obtain t where t: "life_steps V True s t" "ps_snapshot t = None" "ps_main t = ps_main s"
    using snapshot_given_back [OF assms] by blast
  obtain u where u: "life_steps V True t u" "\<not> ps_tiering u" "\<not> ps_evicting u" "\<not> ps_polling u" "ps_main u = ps_main s"
    using threads_end [OF t(2), of True] t(3) by auto
  have su: "life_steps V True s u" "life_inv opened shut borrowed u" using t(1) u(1) steps_trans steps_inv assms by blast+
  have "\<exists>t. life_steps V True u t \<and> ps_main t = Deleted"
  proof (cases "ps_main u")
    case Serving
    then have "life_steps V True u (u\<lparr>ps_main := Joined\<rparr>)"
      using step_extends [OF steps_refl life_step.joined [of True u V]] u by simp
    then show ?thesis using joined [of "u\<lparr>ps_main := Joined\<rparr>"] steps_inv [OF _ su(2)] steps_trans by fastforce
  qed (use joined unmounted closed su(2) steps_refl in blast)+
  then show ?thesis using su(1) steps_trans by blast
qed

end

section \<open>The two stores\<close>

text \<open>A store with a database of its own, one without, and one that \<^verbatim>\<open>Snapshot\<close> made.\<close>

definition ldb_opened :: "LevelDBStore \<Rightarrow> bool" where
  "ldb_opened s \<longleftrightarrow> ldb_db s \<and> \<not> ldb_is_snapshot s"

definition ldb_shut :: "LevelDBStore \<Rightarrow> bool" where
  "ldb_shut s \<longleftrightarrow> \<not> ldb_db s \<and> \<not> ldb_is_snapshot s"

definition ldb_borrowed :: "LevelDBStore \<Rightarrow> bool" where
  "ldb_borrowed s \<longleftrightarrow> ldb_db s \<and> ldb_is_snapshot s \<and> (\<exists>n. ldb_read_options s = Some (Some n))"

definition rdb_opened :: "RocksDBStore \<Rightarrow> bool" where
  "rdb_opened s \<longleftrightarrow> rdb_db s \<and> \<not> rdb_is_snapshot s"

definition rdb_shut :: "RocksDBStore \<Rightarrow> bool" where
  "rdb_shut s \<longleftrightarrow> \<not> rdb_db s \<and> \<not> rdb_is_snapshot s"

definition rdb_borrowed :: "RocksDBStore \<Rightarrow> bool" where
  "rdb_borrowed s \<longleftrightarrow> rdb_db s \<and> rdb_is_snapshot s \<and> (\<exists>n. rdb_read_options s = Some (Some n))"

definition scan_fails :: "'d db_inspect \<Rightarrow> 'd \<Rightarrow> bool" where
  "scan_fails I d \<longleftrightarrow> \<not> snd (DI_Scan I d)"

interpretation lo: store_object "LevelDB_object api I" ldb_opened ldb_shut ldb_borrowed "scan_fails I" for api I
  by unfold_locales
    (auto simp: LevelDB_object_def ldb_opened_def ldb_shut_def ldb_borrowed_def LevelDBStore_put_def LevelDBStore_get_def
      LevelDBStore_remove_def LevelDBStore_Compact_def LevelDBStore_dump_def LevelDBStore_dbstats_def dump_database_def scan_fails_def
      LevelDBStore_Snapshot_def LevelDBStore_delete_def LevelDBStore_close_def ldb_deref_def case_prod_unfold Let_def
      split: option.splits)

interpretation ro: store_object "RocksDB_object api I" rdb_opened rdb_shut rdb_borrowed "scan_fails I" for api I
  by unfold_locales
    (auto simp: RocksDB_object_def rdb_opened_def rdb_shut_def rdb_borrowed_def RocksDBStore_put_def RocksDBStore_get_def
      RocksDBStore_remove_def RocksDBStore_Compact_def RocksDBStore_dump_def RocksDBStore_dbstats_def dump_database_def scan_fails_def
      RocksDBStore_Snapshot_def RocksDBStore_delete_def RocksDBStore_close_def rdb_deref_def case_prod_unfold Let_def
      split: option.splits)

lemma ldb_open_inv:
  "LevelDBStore_open api name LevelDBStore_new = (True, store, db) \<Longrightarrow>
   life_inv ldb_opened ldb_shut ldb_borrowed (life_start store db)"
  by (cases "DB_Open api name") (auto simp: LevelDBStore_open_def LevelDBStore_new_def life_inv_def life_start_def ldb_opened_def dest: sym)

lemma rdb_open_inv:
  "RocksDBStore_open api name RocksDBStore_new = (True, store, db) \<Longrightarrow>
   life_inv rdb_opened rdb_shut rdb_borrowed (life_start store db)"
  by (cases "DB_Open api name") (auto simp: RocksDBStore_open_def RocksDBStore_new_def life_inv_def life_start_def rdb_opened_def dest: sym)

text \<open>
  C11. The store outlives its users: once the file system is mounted, whatever the handlers, the
  threads of the two agents, the thread of the web server and the main program do with the store, in
  whatever order (read, write, remove, compact, take and release a snapshot, dump, report statistics,
  close, delete), none of their calls goes through a null or dangling database pointer, and none ends
  the process but a dump of a database in which the scan reports an error, by its assertion; from
  every state the program can run to its end; and at the end the database is closed, once although
  it is closed by \<^verbatim>\<open>umountFileSystem\<close> and again by \<^verbatim>\<open>main\<close>, no thread runs and no snapshot is left.
\<close>

theorem store_outlives_its_users:
  assumes "LevelDBStore_open api name LevelDBStore_new = (True, store, db)"
    and "life_steps (LevelDB_object api I) True (life_start store db) s"
  shows "(\<forall>r. life_step (LevelDB_object api I) True s r \<longrightarrow>
      (\<exists>s'. r = Val s') \<or> r = Abort \<and> (\<exists>d. ps_db s = Some d \<and> \<not> snd (DI_Scan I d))) \<and>
    (\<exists>t. life_steps (LevelDB_object api I) True s t \<and> ps_main t = Deleted) \<and>
    (ps_main s = Deleted \<longrightarrow> ps_db s = None \<and> \<not> ldb_db (ps_base s) \<and> ps_snapshot s = None \<and>
      \<not> ps_tiering s \<and> \<not> ps_evicting s \<and> \<not> ps_polling s)"
proof -
  have inv: "life_inv ldb_opened ldb_shut ldb_borrowed s" using lo.steps_inv [OF assms(2) ldb_open_inv [OF assms(1)]] .
  have "ps_db s = None \<and> \<not> ldb_db (ps_base s) \<and> ps_snapshot s = None \<and> \<not> ps_tiering s \<and> \<not> ps_evicting s \<and> \<not> ps_polling s"
    if "ps_main s = Deleted"
    using inv that by (auto simp: life_inv_def ldb_shut_def)
  then show ?thesis using lo.step_is_safe [OF _ inv] lo.can_finish [OF inv] unfolding scan_fails_def by blast
qed

text \<open>The same of the other store.\<close>

theorem rocksdb_store_outlives_its_users:
  assumes "RocksDBStore_open api name RocksDBStore_new = (True, store, db)"
    and "life_steps (RocksDB_object api I) True (life_start store db) s"
  shows "(\<forall>r. life_step (RocksDB_object api I) True s r \<longrightarrow>
      (\<exists>s'. r = Val s') \<or> r = Abort \<and> (\<exists>d. ps_db s = Some d \<and> \<not> snd (DI_Scan I d))) \<and>
    (\<exists>t. life_steps (RocksDB_object api I) True s t \<and> ps_main t = Deleted)"
  using ro.step_is_safe ro.can_finish ro.steps_inv [OF assms(2) rdb_open_inv [OF assms(1)]] unfolding scan_fails_def by blast

definition memdb_inspect :: "memdb db_inspect" where
  "memdb_inspect = \<lparr>DI_Scan = (\<lambda>_. ([], True)), DI_GetApproximateSizes = (\<lambda>_ _ _. 0), DI_GetProperty = (\<lambda>_ _. None)\<rparr>"

lemma memdb_opens:
  "LevelDBStore_open memdb_api ''fs'' LevelDBStore_new =
     (True, LevelDBStore_new\<lparr>ldb_db := True, ldb_db_name := ''fs''\<rparr>, DB_Open memdb_api ''fs'')"
  by (simp add: LevelDBStore_open_def memdb_api_def)

theorem store_outlives_its_users_witness:
  "\<exists>t. life_steps (LevelDB_object memdb_api memdb_inspect) True
     (life_start (LevelDBStore_new\<lparr>ldb_db := True, ldb_db_name := ''fs''\<rparr>) (DB_Open memdb_api ''fs'')) t \<and> ps_main t = Deleted"
  using store_outlives_its_users [OF memdb_opens lo.steps_refl, of memdb_inspect] by blast

text \<open>
  C35. When \<^verbatim>\<open>fuse_mount\<close> fails, the main program closes and deletes the store without waiting for the
  threads: from the start on a LevelDB store that opened, there is a run in which the tiering-out agent
  has a snapshot open when the store is deleted, so that \<^verbatim>\<open>Close\<close> of its persister is undefined, a release
  through a pointer to the deleted database.
\<close>

theorem failed_mount_leaves_agent_dangling:
  assumes "LevelDBStore_open api name LevelDBStore_new = (True, store, db)"
  shows "\<exists>s. life_steps (LevelDB_object api I) False (life_start store db) s \<and> ps_main s = Deleted \<and>
    ps_tiering s \<and> ps_snapshot s \<noteq> None \<and> Persister_Close (LevelDB_object api I) s = Undef \<and>
    life_step (LevelDB_object api I) False s Undef"
proof -
  let ?V = "LevelDB_object api I" and ?s0 = "life_start store db"
  have inv: "life_inv ldb_opened ldb_shut ldb_borrowed ?s0" by (rule ldb_open_inv [OF assms])
  obtain d where d: "db = Some d" "ldb_opened store" using inv by (auto simp: life_inv_def life_start_def)
  obtain sn d1 where sn: "ko_Snapshot ?V store (Some d) = Val (Some sn, Some d1)" "ldb_borrowed sn" using lo.snapshot_open [OF d(2), of api I d] by blast
  obtain ok d2 where put: "ko_put ?V [] [] store (Some d1) = Val (ok, Some d2)" using lo.put_open [of store api I "[]" "[]" d1] d(2) by blast
  obtain b where b: "ko_close ?V store (Some d2) = (True, b, None)" "ldb_shut b" using lo.close_open [OF d(2), of api I "Some d2"] by blast
  let ?s1 = "?s0\<lparr>ps_snapshot := Some sn, ps_db := Some d1\<rparr>"
  let ?s2 = "?s1\<lparr>ps_base := b, ps_db := None, ps_main := Unmounted\<rparr>"
  let ?s3 = "?s2\<lparr>ps_main := Closed\<rparr>" let ?s4 = "?s3\<lparr>ps_main := Deleted\<rparr>"
  have "life_step ?V False ?s0 (Val ?s1)"
    using life_step.take_snapshot [of ?s0 ?V False] sn(1) d(1) by (simp add: object_MountSnapshot_def life_start_def)
  moreover have "life_step ?V False ?s1 (Val ?s2)"
    using life_step.shut_down [of ?s1 False ?V "[]" "[]"] put b(1)
    by (simp add: Shutdown_store_def umountFileSystem_def life_start_def)
  moreover have "life_step ?V False ?s2 (Val ?s3)"
    using life_step.closed [of ?s2 ?V False] lo.close_shut [OF b(2), of api I] by (simp add: main_close_def life_start_def)
  moreover have "life_step ?V False ?s3 (Val ?s4)"
    using life_step.deleted [of ?s3 ?V False] lo.delete_shut [OF b(2), of api I] by (simp add: main_delete_def life_start_def)
  ultimately have s4: "life_steps ?V False ?s0 ?s4" by (meson lo.step_extends lo.steps_refl)
  have close: "Persister_Close ?V ?s4 = Undef"
    using lo.delete_dangling [OF sn(2), of api I] by (simp add: Persister_Close_def UnmountSnapshot_def life_start_def)
  then have "life_step ?V False ?s4 Undef"
    using life_step.close_snapshot [of ?s4 ?V False] by (simp add: life_start_def)
  with s4 close show ?thesis by (intro exI [of _ ?s4]) (simp add: life_start_def)
qed

theorem failed_mount_leaves_agent_dangling_witness:
  "\<exists>s. life_steps (LevelDB_object memdb_api memdb_inspect) False
      (life_start (LevelDBStore_new\<lparr>ldb_db := True, ldb_db_name := ''fs''\<rparr>) (DB_Open memdb_api ''fs'')) s \<and>
    ps_main s = Deleted \<and> Persister_Close (LevelDB_object memdb_api memdb_inspect) s = Undef"
  using failed_mount_leaves_agent_dangling [OF memdb_opens, of memdb_inspect] by blast

end
