(* ===== verification/ErrOps.thy ===== *)
theory ErrOps
  imports FuseOps
begin

text \<open>
  The table of handlers given to the FUSE library: the handlers that only report an error
  (\<^verbatim>\<open>src/src/fuse_err_ops.cc\<close>), which the environment variable \<^verbatim>\<open>FUSE_KVFS_ERR_OPS\<close> turns on, and
  \<^verbatim>\<open>fk_init_oper\<close> of \<^verbatim>\<open>src/src/fuse_kvfs_ops.cc\<close>, which puts the handlers of the file system over
  them.
\<close>

datatype fuse_op = Op_init | Op_destroy | Op_lookup | Op_forget | Op_getattr | Op_setattr | Op_readlink | Op_mknod
  | Op_mkdir | Op_unlink | Op_rmdir | Op_symlink | Op_rename | Op_link | Op_open | Op_read | Op_write | Op_flush
  | Op_release | Op_fsync | Op_opendir | Op_readdir | Op_readdirplus | Op_releasedir | Op_fsyncdir | Op_statfs
  | Op_setxattr | Op_getxattr | Op_listxattr | Op_removexattr | Op_access | Op_create | Op_getlk | Op_setlk | Op_bmap
  | Op_ioctl | Op_poll | Op_write_buf | Op_retrieve_reply | Op_forget_multi | Op_flock | Op_fallocate

definition ENOSYS :: int where
  "ENOSYS = 38"

text \<open>The reply of an \<^verbatim>\<open>ERR_OP\<close> handler; \<^verbatim>\<open>err_init\<close> and \<^verbatim>\<open>err_destroy\<close> reply nothing.\<close>

definition err_reply :: "fuse_op \<Rightarrow> reply" where
  "err_reply oper = (if oper \<in> {Op_init, Op_destroy} then reply_none
     else if oper \<in> {Op_release, Op_releasedir} then reply_err 0 else reply_err ENOSYS)"

datatype handler = fk_handler | err_handler

type_synonym oper_table = "fuse_op \<Rightarrow> handler option"

text \<open>Entries that are commented out, or missing, in the source are empty.\<close>

definition err_init_oper :: oper_table where
  "err_init_oper oper =
     (if oper \<in> {Op_init, Op_readdirplus, Op_write_buf, Op_retrieve_reply, Op_forget_multi} then None else Some err_handler)"

definition fk_ops :: "fuse_op list" where
  "fk_ops = [Op_create, Op_forget, Op_getattr, Op_setattr, Op_lookup, Op_mkdir, Op_rmdir, Op_unlink, Op_link, Op_mknod,
     Op_opendir, Op_open, Op_read, Op_write, Op_flush, Op_readdir, Op_readlink, Op_releasedir, Op_release]"

definition fk_init_oper :: "bool \<Rightarrow> oper_table" where
  "fk_init_oper err_ops =
     fold (\<lambda>oper table. table(oper := Some fk_handler)) fk_ops (if err_ops then err_init_oper else (\<lambda>_. None))"

text \<open>The operation of the table that a request is for.\<close>

primrec op_of :: "request \<Rightarrow> fuse_op" where
  "op_of (Req_create parent name mode) = Op_create"
| "op_of (Req_forget ino nlookup) = Op_forget"
| "op_of (Req_getattr ino) = Op_getattr"
| "op_of (Req_setattr ino attr to_set) = Op_setattr"
| "op_of (Req_lookup parent name) = Op_lookup"
| "op_of (Req_mkdir parent name mode) = Op_mkdir"
| "op_of (Req_rmdir parent name) = Op_rmdir"
| "op_of (Req_unlink parent name) = Op_unlink"
| "op_of (Req_link ino newparent newname) = Op_link"
| "op_of (Req_mknod parent name mode) = Op_mknod"
| "op_of (Req_opendir ino) = Op_opendir"
| "op_of (Req_open ino) = Op_open"
| "op_of (Req_read ino sz off fh) = Op_read"
| "op_of (Req_write ino buf sz off fh) = Op_write"
| "op_of (Req_flush ino fh) = Op_flush"
| "op_of (Req_readdir ino sz offset fh) = Op_readdir"
| "op_of (Req_readlink ino) = Op_readlink"
| "op_of (Req_releasedir ino fh) = Op_releasedir"
| "op_of (Req_release ino fh) = Op_release"

lemma fold_fun_upd: "fold (\<lambda>x t. t(x := v)) xs t y = (if y \<in> set xs then v else t y)"
  by (induction xs arbitrary: t) simp_all

lemma fk_init_oper_eq:
  "fk_init_oper err_ops oper =
     (if oper \<in> set fk_ops then Some fk_handler else if err_ops then err_init_oper oper else None)"
  by (simp add: fk_init_oper_def fold_fun_upd)

text \<open>Every request of the model has a handler of the file system, with or without the variable.\<close>

lemma requests_are_handled: "fk_init_oper err_ops (op_of req) = Some fk_handler"
  by (cases req) (simp_all add: fk_init_oper_eq fk_ops_def)

text \<open>With the variable, an operation the file system has no handler for is refused, with five exceptions.\<close>

lemma other_ops_are_refused:
  "oper \<notin> set fk_ops \<Longrightarrow> oper \<notin> {Op_init, Op_readdirplus, Op_write_buf, Op_retrieve_reply, Op_forget_multi} \<Longrightarrow>
   fk_init_oper True oper = Some err_handler \<and> (oper = Op_destroy \<or> err_reply oper = reply_err ENOSYS)"
  by (auto simp: fk_init_oper_eq err_init_oper_def err_reply_def fk_ops_def)

end
