(* ===== verification/WallTime.thy ===== *)
theory WallTime
  imports Prelude
begin

text \<open>
  The clock (\<^verbatim>\<open>src/src/WallTime.{h,cc}\<close>): seconds since an epoch of its own, from one reading of the
  system time and the cycle counter. The conversion of cycles to nanoseconds
  (\<^verbatim>\<open>src/src/Cycles.cc\<close>) calibrates the counter and computes in floating point: it is an argument.
\<close>

definition RAMCLOUD_UNIX_OFFSET :: u32 where
  "RAMCLOUD_UNIX_OFFSET = 41 * 365 * 86400"

record walltime =
  wt_baseTime :: int
  wt_baseTsc :: u64

definition new_walltime :: walltime where
  "new_walltime = \<lparr>wt_baseTime = 0, wt_baseTsc = 0\<rparr>"

text \<open>
  \<open>systime\<close>: what \<^verbatim>\<open>time(NULL)\<close> returns; \<open>tsc0\<close> and \<open>tsc\<close>: the counter when the clock is set and when
  it is read. A clock that cannot be set ends the process.
\<close>

definition set_base :: "int \<Rightarrow> u64 \<Rightarrow> walltime \<Rightarrow> walltime outcome" where
  "set_base systime tsc0 st =
     (if wt_baseTime st = 0
      then (if systime = -1 then Abort
            else if systime < uint RAMCLOUD_UNIX_OFFSET then Abort
            else Val \<lparr>wt_baseTime = systime, wt_baseTsc = tsc0\<rparr>)
      else Val st)"

definition secondsTimestamp :: "(u64 \<Rightarrow> u64) \<Rightarrow> int \<Rightarrow> u64 \<Rightarrow> u64 \<Rightarrow> walltime \<Rightarrow> (u32 \<times> walltime) outcome" where
  "secondsTimestamp toNanoseconds systime tsc0 tsc st =
     obind (set_base systime tsc0 st) (\<lambda>st.
       let tscSecondsOffset = ucast (toNanoseconds (tsc - wt_baseTsc st + 500000000) div 1000000000) :: u32
       in Val (word_of_int (wt_baseTime st) - RAMCLOUD_UNIX_OFFSET + tscSecondsOffset, st))"

definition secondsTimestampToUnix :: "u32 \<Rightarrow> int" where
  "secondsTimestampToUnix timestamp = uint timestamp + uint RAMCLOUD_UNIX_OFFSET"

lemma offset_value [simp]: "uint RAMCLOUD_UNIX_OFFSET = 1292976000"
  by (simp add: RAMCLOUD_UNIX_OFFSET_def)

text \<open>
  The two functions together give the system time the clock was set with plus the seconds since
  then, until the 32 bits are used up, 136 years after the epoch of the clock.
\<close>

lemma timestamp_is_unix_time:
  assumes "uint RAMCLOUD_UNIX_OFFSET \<le> systime"
    and "toNanoseconds (tsc - tsc0 + 500000000) div 1000000000 = word_of_int secs" "0 \<le> secs" "secs < 2 ^ 32"
    and "systime + secs < uint RAMCLOUD_UNIX_OFFSET + 2 ^ 32"
  shows "\<exists>ts st. secondsTimestamp toNanoseconds systime tsc0 tsc new_walltime = Val (ts, st) \<and>
    secondsTimestampToUnix ts = systime + secs"
proof -
  have off: "RAMCLOUD_UNIX_OFFSET = word_of_int 1292976000" by (simp add: RAMCLOUD_UNIX_OFFSET_def)
  have u: "uint (word_of_int secs :: u64) = secs"
    using assms(3,4) by (simp add: unsigned_of_int take_bit_int_eq_self)
  have "ucast (word_of_int secs :: u64) = (word_of_int secs :: u32)" unfolding ucast_eq u ..
  then have ts: "(word_of_int systime - RAMCLOUD_UNIX_OFFSET + ucast (word_of_int secs :: u64) :: u32) =
      word_of_int (systime - 1292976000 + secs)"
    by (simp add: off)
  have ui: "uint (word_of_int x :: u32) = x" if "0 \<le> x" "x < 2 ^ 32" for x
    using that by (simp add: unsigned_of_int take_bit_int_eq_self)
  have "uint (word_of_int (systime - 1292976000 + secs) :: u32) = systime - 1292976000 + secs"
    by (rule ui) (use assms(1,3,5) in simp_all)
  then have "secondsTimestampToUnix (word_of_int systime - RAMCLOUD_UNIX_OFFSET + ucast (word_of_int secs :: u64)) = systime + secs"
    unfolding ts secondsTimestampToUnix_def offset_value by linarith
  then show ?thesis
    using assms(1,2) by (simp add: secondsTimestamp_def set_base_def new_walltime_def)
qed

end
