(* ===== verification/MountData.thy ===== *)
theory MountData
  imports MountNames
begin

text \<open>
  Data through the mount. A program that has files open sees each as a string of bytes: the
  requests it makes (reading, writing, truncating, asking for the size) are answered as a map from
  open files to strings would answer them, whatever the order and however the files are mixed. The
  requests go through the handlers, the table of inodes, the reference counts and the change log.
\<close>

section \<open>Simulation of a session\<close>

text \<open>A session: the requests are served one after another, as \<^verbatim>\<open>fuse_session_loop\<close> does.\<close>

fun fk_session :: "fenv \<Rightarrow> request list \<Rightarrow> KvfsMount \<Rightarrow> (reply list \<times> KvfsMount) outcome" where
  "fk_session E [] m = Val ([], m)"
| "fk_session E (req # reqs) m =
     obind (fk_oper E req m) (\<lambda>(r, m). obind (fk_session E reqs m) (\<lambda>(rs, m). Val (r # rs, m)))"

fun spec_session :: "('o \<Rightarrow> 'c \<Rightarrow> ('z \<times> 'c) option) \<Rightarrow> 'o list \<Rightarrow> 'c \<Rightarrow> ('z list \<times> 'c) option" where
  "spec_session spec [] c = Some ([], c)"
| "spec_session spec (op # ops) c =
     (case spec op c of
        None \<Rightarrow> None
      | Some (z, c) \<Rightarrow> (case spec_session spec ops c of None \<Rightarrow> None | Some (zs, c) \<Rightarrow> Some (z # zs, c)))"

locale session_simulation =
  fixes E :: fenv
    and spec :: "'o \<Rightarrow> 'c \<Rightarrow> ('z \<times> 'c) option"
    and request :: "'o \<Rightarrow> request"
    and answer :: "reply \<Rightarrow> 'z"
    and related :: "'c \<Rightarrow> KvfsMount \<Rightarrow> bool"
  assumes simulated: "related c m \<Longrightarrow> spec op c = Some (z, c') \<Longrightarrow>
      \<exists>r m'. fk_oper E (request op) m = Val (r, m') \<and> answer r = z \<and> related c' m'"
begin

lemma session_simulated:
  "related c m \<Longrightarrow> spec_session spec ops c = Some (zs, c') \<Longrightarrow>
   \<exists>rs m'. fk_session E (map request ops) m = Val (rs, m') \<and> map answer rs = zs \<and> related c' m'"
proof (induction ops arbitrary: c m zs)
  case Nil
  then show ?case by auto
next
  case (Cons op ops)
  from Cons.prems(2) obtain z c1 zs1 where s: "spec op c = Some (z, c1)" "spec_session spec ops c1 = Some (zs1, c')" "zs = z # zs1"
    by (auto split: option.splits)
  obtain r m1 where "fk_oper E (request op) m = Val (r, m1)" "answer r = z" "related c1 m1"
    using simulated [OF Cons.prems(1) s(1)] by blast
  with Cons.IH [OF _ s(2)] s(3) show ?case by fastforce
qed

end

section \<open>Open files as strings\<close>

datatype data_op = DWrite nat nat string | DRead nat nat nat | DResize nat nat | DSize nat

datatype data_answer = Wrote nat | Bytes string | Size int | Refused

text \<open>\<open>files\<close>: the open files, by their handles. A request outside the limits of the code has no answer here.\<close>

primrec data_spec :: "nat set \<Rightarrow> data_op \<Rightarrow> (nat \<Rightarrow> string) \<Rightarrow> (data_answer \<times> (nat \<Rightarrow> string)) option" where
  "data_spec files (DWrite a off d) c =
     (if a \<in> files \<and> off + length d < 2 ^ 63 then Some (Wrote (length d), c(a := write_at off d (c a))) else None)"
| "data_spec files (DRead a off n) c =
     (if a \<in> files \<and> off \<le> length (c a) \<and> off + n < 2 ^ 63 then Some (Bytes (take n (drop off (c a))), c) else None)"
| "data_spec files (DResize a n) c =
     (if a \<in> files \<and> n < 2 ^ 63 then Some (Size (int n), c(a := str_resize n (c a))) else None)"
| "data_spec files (DSize a) c = (if a \<in> files then Some (Size (int (length (c a))), c) else None)"

text \<open>The requests of the kernel for them; \<open>ino\<close> is the inode number behind a handle.\<close>

primrec data_request :: "(nat \<Rightarrow> u64) \<Rightarrow> data_op \<Rightarrow> request" where
  "data_request ino (DWrite a off d) = Req_write (ino a) d (word_of_nat (length d)) (int off) (Some a)"
| "data_request ino (DRead a off n) = Req_read (ino a) (word_of_nat n) (int off) (Some a)"
| "data_request ino (DResize a n) = Req_setattr (ino a) (zero_stat\<lparr>st_size := int n\<rparr>) FUSE_SET_ATTR_SIZE"
| "data_request ino (DSize a) = Req_getattr (ino a)"

fun answer_of :: "reply \<Rightarrow> data_answer" where
  "answer_of (reply_write n) = Wrote (unat n)"
| "answer_of (reply_buf b) = Bytes b"
| "answer_of (reply_attr attr t) = Size (st_size attr)"
| "answer_of r = Refused"

section \<open>Open files in the mount\<close>

text \<open>
  An open file: it is held, its file object is sound over the store, and attributes that were read
  carry its size.
\<close>

definition open_file :: "KvfsMount \<Rightarrow> nat \<Rightarrow> FuseKvfsInode \<Rightarrow> bool" where
  "open_file m a i \<longleftrightarrow> km_inodes m a = Some i \<and> 0 < i_nlookup i \<and> file_ok (i_file i, s_kv m) \<and>
     (i_state i \<noteq> INVALID \<longrightarrow> st_size (i_attr i) = int (length (content (i_file i, s_kv m))))"

definition mount_content :: "KvfsMount \<Rightarrow> nat \<Rightarrow> string" where
  "mount_content m a = content (file_at m a, s_kv m)"

definition files_open :: "nat set \<Rightarrow> (nat \<Rightarrow> u64) \<Rightarrow> KvfsMount \<Rightarrow> bool" where
  "files_open files ino m \<longleftrightarrow> mount_inv m \<and> s_change_log m \<noteq> None \<and>
     (\<forall>a \<in> files. \<exists>i. open_file m a i \<and> st_ino (i_attr i) = ino a)"

definition env_fine :: "fenv \<Rightarrow> bool" where
  "env_fine E \<longleftrightarrow> (\<forall>n. fe_malloc E n) \<and> (\<forall>r. fe_reply E r = 0)"

definition data_related :: "fenv \<Rightarrow> nat set \<Rightarrow> (nat \<Rightarrow> u64) \<Rightarrow> (nat \<Rightarrow> string) \<Rightarrow> KvfsMount \<Rightarrow> bool" where
  "data_related E files ino c m \<longleftrightarrow> env_fine E \<and> files_open files ino m \<and> (\<forall>a \<in> files. mount_content m a = c a)"

lemma open_file_content: "open_file m a i \<Longrightarrow> mount_content m a = content (i_file i, s_kv m)"
  by (simp add: open_file_def mount_content_def file_at_def)

lemma open_file_id:
  assumes "files_open files ino m" "a \<in> files"
  obtains i where "open_file m a i" "st_ino (i_attr i) = ino a" "f_handle (i_file i) = ino a" "km_inode_map m (ino a) = Some a"
proof -
  obtain i where i: "open_file m a i" "st_ino (i_attr i) = ino a" "mount_inv m" using assms by (auto simp: files_open_def)
  then have "km_inodes m a = Some i" by (simp add: open_file_def)
  with i(3) have "inode_ok (km_fs_id m) i" "km_inode_map m (st_ino (i_attr i)) = Some a"
    by (auto simp: mount_inv_def table_ok_def)
  with i(1,2) show thesis by (intro that [of i]) (simp_all add: inode_ok_def)
qed

text \<open>A change to one file leaves the others as they are.\<close>

lemma other_file_kept:
  assumes "same_elsewhere h kv kv'" "reliable kv'" "f_handle t \<noteq> h" "file_ok (t, kv)"
  shows "file_ok (t, kv')" "content (t, kv') = content (t, kv)"
proof -
  have "\<not> file_key h (chunk_key (f_handle t) (int c))" for c using assms(3) by (auto simp: file_key_def key_simps)
  then have c: "chunk_val kv' (f_handle t) = chunk_val kv (f_handle t)"
    using assms(1) by (auto simp: same_elsewhere_def chunk_val_def fun_eq_iff)
  have "\<not> file_key h (inode_key (f_handle t))" using assms(3) by (auto simp: file_key_def key_simps)
  then have "kv_data kv' (inode_key (f_handle t)) = kv_data kv (inode_key (f_handle t))"
    using assms(1) by (auto simp: same_elsewhere_def)
  with c assms(2,4) show "file_ok (t, kv')"
    by (simp add: file_ok_def data_inv_def inode_inv_def resident_def chunks_within_def)
  show "content (t, kv') = content (t, kv)" using c by (simp add: content_def fbyte_def)
qed

text \<open>The mount after an operation on the file at one address.\<close>

lemma related_upd:
  assumes "data_related E files ino c m" "a \<in> files" "fk_oper E req m = Val (r, m')" "s_change_log m' \<noteq> None"
    and "open_file m' a j" "st_ino (i_attr j) = ino a" "\<And>b. b \<noteq> a \<Longrightarrow> km_inodes m' b = km_inodes m b"
    and "same_elsewhere (ino a) (s_kv m) (s_kv m')" "content (i_file j, s_kv m') = d"
  shows "data_related E files ino (c(a := d)) m'"
proof -
  have op: "files_open files ino m" using assms(1) by (simp add: data_related_def)
  have rel: "reliable (s_kv m')" using assms(5) by (simp add: open_file_def file_ok_def data_inv_def)
  have inv: "mount_inv m'" using oper_inv [of m E req] assms(3) op by (simp add: files_open_def)
  have other: "\<exists>i. open_file m' b i \<and> st_ino (i_attr i) = ino b \<and> mount_content m' b = c b"
    if b: "b \<in> files" "b \<noteq> a" for b
  proof -
    obtain i where i: "open_file m b i" "st_ino (i_attr i) = ino b" "f_handle (i_file i) = ino b" "km_inode_map m (ino b) = Some b"
      using open_file_id [OF op b(1)] .
    have "km_inode_map m (ino a) = Some a" using open_file_id [OF op assms(2)] by blast
    with i(4) b(2) have "ino b \<noteq> ino a" by auto
    then have kept: "file_ok (i_file i, s_kv m')" "content (i_file i, s_kv m') = content (i_file i, s_kv m)"
      using other_file_kept [OF assms(8) rel, of "i_file i"] i(1,3) by (auto simp: open_file_def)
    then have "open_file m' b i" using i(1) assms(7) [OF b(2)] by (simp add: open_file_def)
    moreover have "content (i_file i, s_kv m) = c b"
      using open_file_content [OF i(1)] assms(1) b(1) by (simp add: data_related_def)
    ultimately show ?thesis using i(2) kept(2) open_file_content by metis
  qed
  moreover have "mount_content m' a = d" using open_file_content [OF assms(5)] assms(9) by simp
  ultimately have "files_open files ino m'" "\<forall>b \<in> files. mount_content m' b = (c(a := d)) b"
    using inv assms(4-6) by (fastforce simp: files_open_def)+
  then show ?thesis using assms(1) by (simp add: data_related_def)
qed

section \<open>The operations\<close>

text \<open>A refreshed inode: its attributes carry the size, and nothing else of it has changed.\<close>

lemma Refresh_open:
  assumes "open_file m a i" "inode_ok (km_fs_id m) i"
  obtains j where "Refresh a m = Val (0, put_inode a j m)" "open_file (put_inode a j m) a j" "i_file j = i_file i"
    "st_ino (i_attr j) = st_ino (i_attr i)" "i_nlookup j = i_nlookup i" "i_state j \<noteq> INVALID"
proof (cases "i_state i = INVALID")
  case True
  let ?j = "i\<lparr>i_attr := stat_of_meta (f_meta (i_file i)), i_state := CLEAN\<rparr>"
  have inv: "inode_inv (i_file i, s_kv m)" "reliable (s_kv m)" "f_size (i_file i) < 2 ^ 63"
    using assms(1) by (simp_all add: open_file_def file_ok_def data_inv_def)
  then have "Refresh a m = Val (0, put_inode a ?j m)" using assms(1) True by (intro Refresh_stored) (simp_all add: open_file_def)
  moreover have "st_size (i_attr ?j) = int (length (content (i_file i, s_kv m)))"
    using sint_f_size [OF inv(3)] by (simp add: stat_of_meta_def content_def)
  moreover have "st_ino (i_attr ?j) = st_ino (i_attr i)"
    using inv(1) assms(2) by (simp add: stat_of_meta_def inode_inv_def inode_ok_def)
  ultimately show thesis using assms(1) by (intro that [of ?j]) (simp_all add: open_file_def)
next
  case False
  have "put_inode a i m = m" using assms(1) by (simp add: put_inode_def open_file_def fun_upd_idem)
  with False assms(1) show thesis by (intro that [of i]) (simp_all add: Refresh_def open_file_def)
qed

lemma fi_to_inode_open:
  "open_file m a i \<Longrightarrow> fk_fi_to_inode (Some a) (st_ino (i_attr i)) m = Val a"
  by (simp add: fk_fi_to_inode_def open_file_def)

lemma related_file:
  assumes "data_related E files ino c m" "a \<in> files"
  obtains i j where "open_file m a i" "st_ino (i_attr i) = ino a" "km_inode_map m (ino a) = Some a"
    "Refresh a m = Val (0, put_inode a j m)" "open_file (put_inode a j m) a j" "i_file j = i_file i"
    "st_ino (i_attr j) = ino a" "i_nlookup j = i_nlookup i" "i_state j \<noteq> INVALID"
    "content (i_file i, s_kv m) = c a" "f_handle (i_file i) = ino a"
proof -
  have op: "files_open files ino m" using assms(1) by (simp add: data_related_def)
  obtain i where i: "open_file m a i" "st_ino (i_attr i) = ino a" "f_handle (i_file i) = ino a" "km_inode_map m (ino a) = Some a"
    using open_file_id [OF op assms(2)] .
  have "inode_ok (km_fs_id m) i" using op i(1) mount_inv_inode by (auto simp: files_open_def open_file_def)
  then obtain j where j: "Refresh a m = Val (0, put_inode a j m)" "open_file (put_inode a j m) a j" "i_file j = i_file i"
    "st_ino (i_attr j) = st_ino (i_attr i)" "i_nlookup j = i_nlookup i" "i_state j \<noteq> INVALID"
    using Refresh_open [OF i(1)] by metis
  moreover have "content (i_file i, s_kv m) = c a"
    using open_file_content [OF i(1)] assms by (simp add: data_related_def)
  ultimately show thesis using i by (intro that [of i j]) simp_all
qed

lemma read_open:
  assumes "data_related E files ino c m" "a \<in> files" "off \<le> length (c a)" "off + n < 2 ^ 63"
  shows "\<exists>m'. fk_oper E (data_request ino (DRead a off n)) m = Val (reply_buf (take n (drop off (c a))), m') \<and>
    data_related E files ino c m'"
proof -
  obtain i j where i: "open_file m a i" "st_ino (i_attr i) = ino a"
    and j: "Refresh a m = Val (0, put_inode a j m)" "open_file (put_inode a j m) a j" "i_file j = i_file i" "st_ino (i_attr j) = ino a"
    and ca: "content (i_file i, s_kv m) = c a"
    using related_file [OF assms(1,2)] by metis
  let ?m = "put_inode a j m" and ?out = "take n (drop off (c a))"
  have ok: "file_ok (i_file i, s_kv m)" using i(1) by (simp add: open_file_def)
  have rd: "file_read (fe_env E) (fe_tier E) (int off) (word_of_nat n) True (i_file i, s_kv m) =
      Val (STATUS_OK, word_of_nat (length ?out), ?out, i_file i, s_kv m)"
    using file_ok_read [OF ok, of off n] assms(3,4) ca by simp
  have len: "length ?out < 2 ^ 63" "length ?out \<le> n" "n < 2 ^ 63" using assms(4) by auto
  have same: "(put_inode a (j\<lparr>i_file := i_file i\<rparr>) ?m)\<lparr>s_kv := s_kv m\<rparr> = ?m" by (simp add: put_inode_def flip: j(3))
  have "\<forall>r. fe_reply E r = 0" "\<forall>n. fe_malloc E n" using assms(1) by (simp_all add: data_related_def env_fine_def)
  moreover have "take (min (length (c a) - off) n) (drop off (c a)) = ?out" by (simp add: min_def)
  ultimately have run: "fk_oper E (data_request ino (DRead a off n)) m = Val (reply_buf ?out, ?m)"
    using fi_to_inode_open [OF i(1)] i(2) j(1,3) rd len same
    by (simp add: fk_read_def Inode_Read_def on_file_def unat_of_small)
  have "data_related E files ino (c(a := c a)) ?m"
    by (rule related_upd [OF assms(1,2) run _ j(2,4)])
      (use assms(1) j(3) ca in \<open>simp_all add: data_related_def files_open_def same_elsewhere_def\<close>)
  with run show ?thesis by (intro exI [of _ ?m]) simp
qed

lemma write_open:
  assumes "data_related E files ino c m" "a \<in> files" "off + length d < 2 ^ 63"
  shows "\<exists>m'. fk_oper E (data_request ino (DWrite a off d)) m = Val (reply_write (word_of_nat (length d)), m') \<and>
    data_related E files ino (c(a := write_at off d (c a))) m'"
proof -
  obtain i j where i: "open_file m a i" "st_ino (i_attr i) = ino a"
    and j: "Refresh a m = Val (0, put_inode a j m)" "open_file (put_inode a j m) a j" "i_file j = i_file i" "st_ino (i_attr j) = ino a"
      "i_state j \<noteq> INVALID"
    and ca: "content (i_file i, s_kv m) = c a" and h: "f_handle (i_file i) = ino a"
    using related_file [OF assms(1,2)] by metis
  have ok: "file_ok (i_file i, s_kv m)" using i(1) by (simp add: open_file_def)
  obtain t kv where w: "file_write (fe_env E) (int off) (word_of_nat (length d)) (Some d) True (i_file i, s_kv m) =
       Val (STATUS_OK, word_of_nat (length d), t, kv)"
    "file_ok (t, kv)" "content (t, kv) = write_at off d (content (i_file i, s_kv m))"
    "same_elsewhere (f_handle (i_file i)) (s_kv m) kv"
    using file_ok_write [OF ok assms(3)] by metis
  obtain l where l: "s_change_log m = Some l" using assms(1) by (auto simp: data_related_def files_open_def)
  let ?stop = "sint (word_of_int (int off) + word_of_nat (length d) :: u64)"
  let ?k = "j\<lparr>i_file := t, i_attr := (i_attr j)\<lparr>st_size := max (st_size (i_attr j)) ?stop, st_mtime := now (fe_env E)\<rparr>, i_state := DIRTY\<rparr>"
  obtain m' where run: "fk_oper E (data_request ino (DWrite a off d)) m = Val (reply_write (word_of_nat (length d)), m')"
    and m': "km_inodes m' = (km_inodes m)(a := Some ?k)" "s_kv m' = kv" "s_change_log m' \<noteq> None"
    using fi_to_inode_open [OF i(1)] i(2) j(1,3) w(1) l
    by (simp add: fk_write_def Inode_Write_def on_file_def set_state_def upd_inode_def get_inode_def log_append_def put_inode_def)
  have "?stop = int (off + length d)" using sint_of_small [OF assms(3)] by (simp add: of_nat_add)
  moreover have "st_size (i_attr j) = int (length (c a))" using j(2,3,5) ca by (simp add: open_file_def)
  ultimately have size: "st_size (i_attr ?k) = int (length (write_at off d (c a)))" by simp
  have "open_file m' a ?k" using j(2) w(2,3) size ca m' by (simp add: open_file_def)
  then have "data_related E files ino (c(a := write_at off d (c a))) m'"
    by (rule related_upd [OF assms(1,2) run m'(3)]) (use w ca j(4) h m' in \<open>simp_all\<close>)
  with run show ?thesis by blast
qed

text \<open>
  Requests by inode number hold the inode for the call. An open file is held already, so the
  release at the end does not close it.
\<close>

lemma with_inode_open:
  assumes "km_inodes m a = Some i" "km_inode_map m ino = Some a" "0 < i_nlookup i"
    and "call a (put_inode a (i\<lparr>i_nlookup := i_nlookup i + 1\<rparr>) m) = Val (r, m1)" "km_inodes m1 a = Some j"
    and "i_nlookup j = i_nlookup i + 1"
  shows "with_inode E ino call m = Val (r, put_inode a (j\<lparr>i_nlookup := i_nlookup i\<rparr>) m1)"
  using assms by (simp add: with_inode_def get_or_create_def GetInode_def Hold_def Release_def Let_def)

lemma held_related:
  assumes "data_related E files ino c m" "open_file m a i"
  shows "data_related E files ino c (put_inode a (i\<lparr>i_nlookup := i_nlookup i + 1\<rparr>) m)"
proof -
  let ?m = "put_inode a (i\<lparr>i_nlookup := i_nlookup i + 1\<rparr>) m"
  have i: "km_inodes m a = Some i" "mount_inv m" "inode_ok (km_fs_id m) i"
    using assms mount_inv_inode by (auto simp: data_related_def files_open_def open_file_def)
  have "mount_inv ?m" by (rule mount_inv_put [OF i(2,1)]) (use i(3) in \<open>simp_all add: inode_ok_def\<close>)
  moreover have "file_at ?m = file_at m" using i(1) by (simp add: file_at_def fun_eq_iff)
  moreover have "\<exists>k. open_file ?m b k \<and> st_ino (i_attr k) = ino b" if "b \<in> files" for b
    using assms that by (cases "b = a") (auto simp: data_related_def files_open_def open_file_def)
  ultimately show ?thesis using assms(1) by (simp add: data_related_def files_open_def mount_content_def)
qed

lemma size_open:
  assumes "data_related E files ino c m" "a \<in> files"
  shows "\<exists>attr t m'. fk_oper E (data_request ino (DSize a)) m = Val (reply_attr attr t, m') \<and>
    st_size attr = int (length (c a)) \<and> data_related E files ino c m'"
proof -
  obtain i where i: "open_file m a i" "st_ino (i_attr i) = ino a" "km_inode_map m (ino a) = Some a"
    using related_file [OF assms] by metis
  let ?m = "put_inode a (i\<lparr>i_nlookup := i_nlookup i + 1\<rparr>) m"
  have held: "data_related E files ino c ?m" by (rule held_related [OF assms(1) i(1)])
  obtain i' j where ij: "open_file ?m a i'" "Refresh a ?m = Val (0, put_inode a j ?m)" "open_file (put_inode a j ?m) a j"
    "i_file j = i_file i'" "st_ino (i_attr j) = ino a" "i_nlookup j = i_nlookup i'" "i_state j \<noteq> INVALID"
    "content (i_file i', s_kv ?m) = c a"
    using related_file [OF held assms(2)] by metis
  have i': "i' = i\<lparr>i_nlookup := i_nlookup i + 1\<rparr>" using ij(1) by (simp add: open_file_def)
  let ?j = "j\<lparr>i_nlookup := i_nlookup i\<rparr>"
  have size: "st_size (i_attr j) = int (length (c a))" using ij(3,4,7) by (simp add: open_file_def flip: ij(8))
  have run: "fk_oper E (data_request ino (DSize a)) m =
      Val (reply_attr (i_attr j) (km_fuse_attr_timeout (put_inode a j ?m)), put_inode a ?j (put_inode a j ?m))"
    using with_inode_open [of m a i "ino a" Getattr] i ij(2,6) i'
    by (simp add: fk_getattr_def Getattr_def open_file_def)
  have opened: "open_file (put_inode a ?j (put_inode a j ?m)) a ?j" using ij(3) i(1) by (simp add: open_file_def)
  have "data_related E files ino (c(a := c a)) (put_inode a ?j (put_inode a j ?m))"
    by (rule related_upd [OF assms run _ opened])
      (use assms(1) ij(4,5,8) in \<open>simp_all add: data_related_def files_open_def same_elsewhere_def\<close>)
  with run size show ?thesis by auto
qed

text \<open>
  Truncation. The number of the transaction is put in the metadata of the object first; \<^verbatim>\<open>SetSize\<close>
  then reads the metadata from the store again, so the number is lost.
\<close>

lemma SetSize_stamped:
  assumes "reliable kv" "inode_inv (t, kv)"
  shows "SetSize env n (upd_meta g t, kv) = SetSize env n (t, kv)"
proof -
  have "file_open (upd_meta g t, kv) = file_open (t, kv)"
    using assms by (simp add: file_open_def inode_inv_def readFromLog_def kv_simps codec_simps upd_meta_def)
  then show ?thesis by (simp add: SetSize_def)
qed

lemma setattr_size_ok:
  assumes "km_inodes m a = Some j" "SetSize (fe_env E) n (upd_meta (set_xid (word_of_int x)) (i_file j), s_kv m) = Val (STATUS_OK, t, kv)"
    and "k = j\<lparr>i_file := t, i_attr := (i_attr j)\<lparr>st_size := n\<rparr>, i_state := if st_size (i_attr j) = n then i_state j else DIRTY\<rparr>"
  obtains m' where "setattr_size E x n a m = Val (STATUS_OK, m')" "km_inodes m' = (km_inodes m)(a := Some k)" "s_kv m' = kv"
    "s_change_log m' = s_change_log m" "km_inode_map m' = km_inode_map m" "km_fuse_attr_timeout m' = km_fuse_attr_timeout m"
proof (cases "st_size (i_attr j) = n")
  case True
  then have "k = j\<lparr>i_file := t\<rparr>" using assms(3) by auto
  with True assms(1,2) that show thesis
    by (simp add: setattr_size_def set_file_xid_def upd_inode_def get_inode_def on_file_def put_inode_def)
next
  case False
  with assms that show thesis
    by (simp add: setattr_size_def set_file_xid_def upd_inode_def get_inode_def on_file_def put_inode_def set_state_def)
qed

lemma Setattr_size_only:
  assumes "s_change_log m = Some l" "m1 = m\<lparr>s_change_log := Some (snd (NextXid l))\<rparr>" "Refresh a m1 = Val (0, put_inode a j m1)"
    and "SetSize (fe_env E) n (upd_meta (set_xid (word_of_int (l_next_xid l))) (i_file j), s_kv m) = Val (STATUS_OK, t, kv)"
    and "k = j\<lparr>i_file := t, i_attr := (i_attr j)\<lparr>st_size := n\<rparr>, i_state := if st_size (i_attr j) = n then i_state j else DIRTY\<rparr>"
  obtains m' where "Setattr E (zero_stat\<lparr>st_size := n\<rparr>) FUSE_SET_ATTR_SIZE a m = Val (reply_attr (i_attr k) (km_fuse_attr_timeout m), m')"
    "km_inodes m' = (km_inodes m)(a := Some k)" "s_kv m' = kv" "s_change_log m' \<noteq> None" "km_inode_map m' = km_inode_map m"
proof -
  have mask: "FUSE_SET_ATTR_SIZE \<noteq> 0" by (simp add: FUSE_SET_ATTR_SIZE_def)
  have sz: "km_inodes (put_inode a j m1) a = Some j"
    "SetSize (fe_env E) n (upd_meta (set_xid (word_of_int (l_next_xid l))) (i_file j), s_kv (put_inode a j m1)) = Val (STATUS_OK, t, kv)"
    using assms(2,4) by simp_all
  obtain m2 where m2: "setattr_size E (l_next_xid l) n a (put_inode a j m1) = Val (STATUS_OK, m2)"
    "km_inodes m2 = (km_inodes (put_inode a j m1))(a := Some k)" "s_kv m2 = kv"
    "s_change_log m2 = s_change_log (put_inode a j m1)" "km_inode_map m2 = km_inode_map (put_inode a j m1)"
    "km_fuse_attr_timeout m2 = km_fuse_attr_timeout (put_inode a j m1)"
    using setattr_size_ok [OF sz assms(5)] .
  have log: "log_next_xid m = Val (l_next_xid l, m1)" using assms(1,2) by (simp add: log_next_xid_def NextXid_def)
  have m2': "km_inodes m2 a = Some k" "s_change_log m2 = Some (snd (NextXid l))" "km_fuse_attr_timeout m2 = km_fuse_attr_timeout m"
    using m2 assms(2) by (simp_all add: put_inode_def)
  obtain l' where run: "Setattr E (zero_stat\<lparr>st_size := n\<rparr>) FUSE_SET_ATTR_SIZE a m =
      Val (reply_attr (i_attr k) (km_fuse_attr_timeout m), m2\<lparr>s_change_log := Some l'\<rparr>)"
    using m2' by (simp add: Setattr_def log assms(3) mask m2(1) log_append_def)
  then show thesis using m2 assms(2) by (intro that [OF run]) (simp_all add: put_inode_def)
qed

lemma resize_open:
  assumes "data_related E files ino c m" "a \<in> files" "n < 2 ^ 63"
  shows "\<exists>attr t m'. fk_oper E (data_request ino (DResize a n)) m = Val (reply_attr attr t, m') \<and>
    st_size attr = int n \<and> data_related E files ino (c(a := str_resize n (c a))) m'"
proof -
  obtain i where i: "open_file m a i" "st_ino (i_attr i) = ino a" "km_inode_map m (ino a) = Some a"
    "content (i_file i, s_kv m) = c a" "f_handle (i_file i) = ino a"
    using related_file [OF assms(1,2)] by metis
  obtain l where l: "s_change_log m = Some l" using assms(1) by (auto simp: data_related_def files_open_def)
  let ?i = "i\<lparr>i_nlookup := i_nlookup i + 1\<rparr>" let ?m = "put_inode a ?i m"
  let ?m1 = "?m\<lparr>s_change_log := Some (snd (NextXid l))\<rparr>"
  have "open_file ?m1 a ?i" using i(1) by (simp add: open_file_def)
  moreover have "inode_ok (km_fs_id ?m1) ?i"
    using assms(1) i(1) mount_inv_inode by (auto simp: data_related_def files_open_def open_file_def inode_ok_def)
  ultimately obtain j where j: "Refresh a ?m1 = Val (0, put_inode a j ?m1)" "open_file (put_inode a j ?m1) a j" "i_file j = i_file ?i"
    "st_ino (i_attr j) = st_ino (i_attr ?i)" "i_nlookup j = i_nlookup ?i" "i_state j \<noteq> INVALID"
    using Refresh_open by blast
  have ok: "file_ok (i_file i, s_kv m)" using i(1) by (simp add: open_file_def)
  obtain t kv where t: "SetSize (fe_env E) (int n) (i_file i, s_kv m) = Val (STATUS_OK, t, kv)" "file_ok (t, kv)"
    "content (t, kv) = str_resize n (c a)" "same_elsewhere (ino a) (s_kv m) kv"
    using file_ok_resize [OF ok assms(3)] i(4,5) by metis
  let ?k = "j\<lparr>i_file := t, i_attr := (i_attr j)\<lparr>st_size := int n\<rparr>, i_state := if st_size (i_attr j) = int n then i_state j else DIRTY\<rparr>"
  have sz: "SetSize (fe_env E) (int n) (upd_meta (set_xid (word_of_int (l_next_xid l))) (i_file j), s_kv ?m) = Val (STATUS_OK, t, kv)"
    using SetSize_stamped [of "s_kv m" "i_file i"] ok t(1) j(3) by (simp add: file_ok_def data_inv_def)
  have "s_change_log ?m = Some l" using l by simp
  then obtain m2 where m2: "Setattr E (zero_stat\<lparr>st_size := int n\<rparr>) FUSE_SET_ATTR_SIZE a ?m = Val (reply_attr (i_attr ?k) (km_fuse_attr_timeout ?m), m2)"
    "km_inodes m2 = (km_inodes ?m)(a := Some ?k)" "s_kv m2 = kv" "s_change_log m2 \<noteq> None"
    using Setattr_size_only [OF _ refl j(1) sz refl] by metis
  let ?k' = "?k\<lparr>i_nlookup := i_nlookup i\<rparr>" let ?m' = "put_inode a ?k' m2"
  have run: "fk_oper E (data_request ino (DResize a n)) m = Val (reply_attr (i_attr ?k) (km_fuse_attr_timeout ?m), ?m')"
    using with_inode_open [of m a i "ino a" "Setattr E (zero_stat\<lparr>st_size := int n\<rparr>) FUSE_SET_ATTR_SIZE" _ m2 ?k E]
      i(1,3) m2(1,2) j(5)
    by (simp add: fk_setattr_def open_file_def)
  have opened: "open_file ?m' a ?k'"
    using t(2,3) m2(3) i(1) by (simp add: open_file_def)
  have "data_related E files ino (c(a := str_resize n (c a))) ?m'"
    by (rule related_upd [OF assms(1,2) run _ opened]) (use m2(2-4) t(3,4) i(2) j(4) in simp_all)
  with run show ?thesis by auto
qed

section \<open>Sessions on open files\<close>

interpretation ds: session_simulation E "data_spec files" "data_request ino" answer_of "data_related E files ino" for E files ino
proof
  fix c m op z c'
  assume rel: "data_related E files ino c m" and spec: "data_spec files op c = Some (z, c')"
  show "\<exists>r m'. fk_oper E (data_request ino op) m = Val (r, m') \<and> answer_of r = z \<and> data_related E files ino c' m'"
  proof (cases op)
    case (DWrite a off d)
    with spec write_open [OF rel, of a off d] show ?thesis by (auto split: if_splits simp: unat_of_small)
  next
    case (DRead a off n)
    with spec read_open [OF rel, of a off n] show ?thesis by (auto split: if_splits)
  next
    case (DResize a n)
    with spec resize_open [OF rel, of a n] show ?thesis by (fastforce split: if_splits)
  next
    case (DSize a)
    with spec size_open [OF rel, of a] show ?thesis by (fastforce split: if_splits)
  qed
qed

text \<open>
  C1. Open files behave as strings of bytes, whatever mixture of requests a session makes: when
  requests to read, write, truncate and ask for the size of open files are served one after another
  through the handlers, each is answered as it would be if every file were a string of its own. A
  write to one file never shows in another, sizes are always those of the contents, and the files
  are still open and sound afterwards. Reads may start at most at the end of a file.
\<close>

theorem session_refines_byte_strings:
  assumes "env_fine E" "files_open files ino m" "spec_session (data_spec files) ops (mount_content m) = Some (answers, c')"
  shows "\<exists>replies m'. fk_session E (map (data_request ino) ops) m = Val (replies, m') \<and>
    map answer_of replies = answers \<and> files_open files ino m' \<and> (\<forall>a \<in> files. mount_content m' a = c' a)"
proof -
  have "data_related E files ino (mount_content m) m" using assms(1,2) by (simp add: data_related_def)
  from ds.session_simulated [OF this assms(3)] show ?thesis by (auto simp: data_related_def)
qed

text \<open>A mount with one open file, empty so far.\<close>

definition sample_inode :: FuseKvfsInode where
  "sample_inode = \<lparr>i_attr = zero_stat\<lparr>st_ino := 5\<rparr>, i_file = fst sample_file, i_nlookup = 1, i_state = INVALID\<rparr>"

definition sample_mount :: KvfsMount where
  "sample_mount = (new_KvfsMount ((new_FileSystemManager (snd sample_file))\<lparr>s_change_log := Some (new_FsChangeLog ''/p'' 1)\<rparr>) 1)
     \<lparr>km_inodes := [0 \<mapsto> sample_inode], km_inode_map := [5 \<mapsto> 0], km_next_addr := 1\<rparr>"

lemma sample_mount_open: "files_open {0} (\<lambda>_. 5) sample_mount" "mount_content sample_mount 0 = []"
proof -
  have f: "f_fsId (fst sample_file) = 1" by (simp add: sample_file_def writeToLog_reliable)
  have i: "km_inodes sample_mount = [0 \<mapsto> sample_inode]" "s_kv sample_mount = snd sample_file"
    by (simp_all add: sample_mount_def new_KvfsMount_def new_FileSystemManager_def)
  have "open_file sample_mount 0 sample_inode" using sample_file_ok i by (simp add: open_file_def sample_inode_def)
  moreover have "mount_inv sample_mount"
    using sample_file_ok(3) f by (simp add: mount_inv_def table_ok_def log_inv_def log_ordered_def inode_ok_def sample_mount_def sample_inode_def
        new_KvfsMount_def new_FileSystemManager_def new_FsChangeLog_def)
  moreover have "st_ino (i_attr sample_inode) = 5" by (simp add: sample_inode_def)
  moreover have "s_change_log sample_mount \<noteq> None" by (simp add: sample_mount_def new_KvfsMount_def)
  ultimately show "files_open {0} (\<lambda>_. 5) sample_mount" unfolding files_open_def by blast
  show "mount_content sample_mount 0 = []" using sample_file_ok(2) i by (simp add: mount_content_def file_at_def sample_inode_def)
qed

theorem session_refines_byte_strings_witness:
  "\<exists>replies m'. fk_session sample_fenv
      [Req_write 5 ''abc'' (word_of_nat (length ''abc'')) 3 (Some 0), Req_read 5 10 0 (Some 0),
       Req_setattr 5 (zero_stat\<lparr>st_size := 4\<rparr>) FUSE_SET_ATTR_SIZE, Req_getattr 5] sample_mount = Val (replies, m') \<and>
    map answer_of replies = [Wrote 3, Bytes ([NUL, NUL, NUL] @ ''abc''), Size 4, Size 4] \<and>
    mount_content m' 0 = [NUL, NUL, NUL, CHR ''a'']"
proof -
  let ?ops = "[DWrite 0 3 ''abc'', DRead 0 0 10, DResize 0 4, DSize 0]"
  have "env_fine sample_fenv" by (simp add: env_fine_def sample_fenv_def)
  moreover have "spec_session (data_spec {0}) ?ops (mount_content sample_mount) =
    Some ([Wrote 3, Bytes ([NUL, NUL, NUL] @ ''abc''), Size 4, Size 4], (mount_content sample_mount)(0 := [NUL, NUL, NUL, CHR ''a'']))"
    using sample_mount_open(2) by (simp add: write_at_def str_resize_def numeral_3_eq_3)
  ultimately show ?thesis
    using session_refines_byte_strings [OF _ sample_mount_open(1), of sample_fenv ?ops] by fastforce
qed

end
