(* ===== verification/Spec2Isabelle.thy ===== *)
theory Spec2Isabelle
  imports Prelude StdMap Status KVStore Stores MetaData DirPartition File FileData FileSpec FileEvict FileMeta
    Directory Namespace ChangeLog FSManager Mount FuseOps MountInv Superblock MountNames Listing Crash
    Worker Host IndexManager Segments Persister SegmentSpec TieringOut TieringLive TieringIn TieringSpec
    Eviction Web System Config Startup Hexdump StoreLife ErrOps WallTime MountData
begin

text \<open>
  A model of the file system \<^verbatim>\<open>kvfs\<close> (\<^verbatim>\<open>src/src\<close>): a FUSE file system that keeps its inodes, data and
  directories in a key-value store, logs every change, copies changed files to tarballs in the
  cloud (tiering out), removes the data of files that were copied (eviction) and brings it back
  when a file is read (tiering in).

  \<^bold>\<open>The program.\<close> A request of the kernel reaches a handler \<^verbatim>\<open>fk_...\<close> (\<^verbatim>\<open>fuse_kvfs_ops.cc\<close>), which
  finds the inode in the table of the mount (\<^verbatim>\<open>kvfs_mount.cc\<close>) and calls its operation. The inode
  holds a file object (\<^verbatim>\<open>KVFSFile.cc\<close>) with the metadata (\<^verbatim>\<open>KVFSMetaData.h\<close>), whose data is stored in
  chunks and whose directory entries are stored in partitions (\<^verbatim>\<open>KVFSDirectoryPartition.cc\<close>), all
  under keys of one store (\<^verbatim>\<open>KVStore.h\<close>, implemented over LevelDB and RocksDB). Operations that change
  something append an entry to the change log (\<^verbatim>\<open>tiering/fs_change_log.cc\<close>). Three threads work on the
  same mount: the tiering-out agent reads the log and has the snapshot persister write segments and
  the index of segments; the eviction agent reads the log and evicts old files; the web server turns
  commands into requests to the two. A read of an evicted file asks the tiering-in agent for its
  latest copy. The main program builds all of this from a configuration.

  \<^bold>\<open>Theories, in the order they build on each other.\<close>
  \<^item> \<open>Prelude\<close>, \<open>StdMap\<close>, \<open>Status\<close>: machine integers, decimal and little-endian numbers, the outcome of a
    call (a value, the end of the process, or undefined behaviour of C++), \<^verbatim>\<open>std::map\<close> as a sorted
    list (locale \<open>finite_table\<close>, interpretation \<open>smap\<close>), status codes and \<^verbatim>\<open>errno\<close>.
  \<^item> \<open>KVStore\<close>, \<open>Stores\<close>, \<open>Hexdump\<close>, \<open>StoreLife\<close>: the store as the file system sees it, with calls that may
    fail (locale \<open>kv_store\<close>, interpretation \<open>kv\<close>), the keys, the two implementations over an arbitrary
    database library, what they print about themselves, and the life of the store object between the
    main program, the handlers, the agents and the web server's thread as a step relation of their
    single calls (locale \<open>store_object\<close>, interpretations \<open>lo\<close> and \<open>ro\<close>).
  \<^item> \<open>MetaData\<close>, \<open>File\<close>, \<open>FileData\<close>, \<open>FileSpec\<close>, \<open>FileEvict\<close>, \<open>FileMeta\<close>: the inode and its bytes; reading,
    writing, resizing, eviction and restoring of a file, access, attributes. \<open>FileSpec\<close> has the
    abstract file, a list of bytes (locale \<open>byte_file\<close>, interpretation \<open>fs\<close>).
  \<^item> \<open>DirPartition\<close>, \<open>Directory\<close>, \<open>Namespace\<close>: one partition and a whole directory as tables of names
    (locale \<open>name_table\<close>, interpretations \<open>dp\<close> and \<open>dir\<close>), creating, linking and removing files.
  \<^item> \<open>ChangeLog\<close>, \<open>FSManager\<close>: the log, its files, inode numbers from an atomic counter, the operations
    by inode number.
  \<^item> \<open>Mount\<close>, \<open>FuseOps\<close>, \<open>ErrOps\<close>, \<open>MountInv\<close>, \<open>Superblock\<close>, \<open>MountNames\<close>, \<open>Listing\<close>, \<open>Crash\<close>, \<open>MountData\<close>:
    the inode table and every inode operation, the handlers and the table of handlers, the invariant of
    the mount by rules for each call (collection \<open>wp\<close>), start and stop of a mount, names in a mounted
    directory, what a listing replies, sessions that end without a stop, and sessions of requests on
    open files (locale \<open>session_simulation\<close>, interpretation \<open>ds\<close>).
  \<^item> \<open>Host\<close>, \<open>Worker\<close>: the machine under the agents (commands, files, \<^verbatim>\<open>errno\<close>), and the contract of an
    object with a thread (locale \<open>worker\<close>, interpretations \<open>toa\<close>, \<open>tia\<close>, \<open>ea\<close>).
  \<^item> \<open>IndexManager\<close>, \<open>Segments\<close>, \<open>SegmentSpec\<close>, \<open>Persister\<close>: the index of segments (locale \<open>catalog\<close>,
    interpretation \<open>ix\<close>), segments and their working directories, paths of inodes, making a segment.
  \<^item> \<open>TieringOut\<close>, \<open>TieringLive\<close>, \<open>TieringIn\<close>, \<open>TieringSpec\<close>, \<open>Eviction\<close>, \<open>Web\<close>, \<open>System\<close>: the agents, the web
    server, and the states the program reaches when they take turns.
  \<^item> \<open>Config\<close>, \<open>WallTime\<close>, \<open>Startup\<close>: the JSON configuration module, the clock, the main program.

  \<^bold>\<open>Correspondence.\<close> Classes are records, enumerations datatypes, methods functions of the same name
  that take and return the state they change; a prefix tells methods of the same name apart
  (\<open>to_\<close>, \<open>ti_\<close>, \<open>ea_\<close>, \<open>ws_\<close>, \<open>wc_\<close>, \<open>fm_\<close>, \<open>dp_\<close>, \<open>file_\<close>, \<open>index_\<close>). Loops are recursive functions. Their
  termination is proved, except for the two loops that need not end: following the parents of an
  inode (\<open>get_path_loop\<close>) and the passes of a snapshot (\<open>snapshot_loop\<close>). They are partial functions
  whose value \<open>None\<close> is a call that does not return, and \<open>path_lookup_returns\<close>,
  \<open>snapshot_reaches_end_of_log\<close> and \<open>snapshot_after_gap_never_ends\<close> say when they do. No model has a
  bound on its fuel. Aliasing matters where several file objects take part in a call (a directory
  that is its own parent): there the operations work on a family of objects given by names
  (\<open>hstate\<close>), and on addresses in the inode table.

  \<^bold>\<open>Arguments and hypotheses.\<close> What is not part of the program is an argument: the database library,
  the hash of names, the serialisations of protocol buffers, the JSON library and the calendar, the
  replies of the FUSE library, commands, files and the clock of the host. Where a property depends on
  them, it has what they document as a hypothesis with a name (\<open>writes_documented\<close>, \<open>files_work\<close>,
  \<open>quiet\<close>, \<open>reads_back\<close>, \<open>reads_document\<close>, \<open>reliable\<close>), and its witness has a concrete instance.

  \<^bold>\<open>What the properties show.\<close>
  \<^item> Sessions: whatever mixture of reads, writes, truncations and questions for the size a session
    makes of the files it has open, the answers are those of one string of bytes for each file.
  \<^item> Files: a write changes the content exactly where it says, a read returns the content, a resize
    cuts it or extends it with zeros, a refused write changes nothing, permissions are the mode bits.
  \<^item> Directories and inodes: a directory is a table of names whatever the hash; any sequence of
    insertions and removals is read back by an object made later over the store, for names without
    the separator; the entries of a partition survive in their stored form; reading a directory
    replies with every entry once, as far as the buffer reaches; a created file is found with the
    attributes stored for it; an unlinked file is removed when it is closed.
  \<^item> Mount and program: the first start brings everything up, and stopping it writes the superblock and
    the log; in every state reached from a start the inode table and the log are consistent; a clean
    stop and restart never reuses an inode number; no thread uses the store after it was closed, and
    when the mount of the FUSE file system failed, one can.
  \<^item> Log and tiering: reading a range of the log, its files, the inodes of a batch, the latest segment
    in the index, the path of an inode; a snapshot of a log without gaps hands the
    persister the inodes of every new entry in one of its batches and ends at the end of the log; a file that was tiered out and evicted reads as before.
  \<^item> Configuration: the values that are printed for the settings are read back as the same settings, in
    whole units; sizes and times that are too large overflow.
  \<^item> Behaviour that the code should not have is stated as it is: later starts that reset the links of
    the root, lookups that delete a directory that is not cached, entries listed twice after a rename back, inode
    numbers reused after a crash or by two threads, writes to evicted files that are lost, evictions of data that was not copied, snapshots that read live data or never end,
    requests that are lost.

  \<^bold>\<open>Not modelled.\<close> Logging and profiling; the calibration of the cycle counter (\<^verbatim>\<open>Cycles.cc\<close>), which is
  floating-point arithmetic; generated protocol buffer code, whose serialisations are arguments; the
  HTTP library; the test programs (\<^verbatim>\<open>KVFS.cc\<close>, \<^verbatim>\<open>config/test_main.cc\<close>,
  \<^verbatim>\<open>tiering/file_test_util.cc\<close>), which call operations that no longer exist, and the command line
  client, which is not C++. Threads take turns by whole operations in \<open>System\<close>; the allocation of
  inode numbers, the flags of the tiering-out agent and the use of the store are modelled in finer
  steps. Transaction numbers are integers, where the code has 64-bit ones that no log reaches.

  \<^bold>\<open>Open.\<close> Finer interleavings of the agents with the handlers, and the growth of the log over
  requests.
\<close>

section \<open>The running file system\<close>

text \<open>
  C8. In every state that the program reaches after a successful start, by serving requests while
  the eviction agent makes its passes and the tiering-out agent its snapshots in between, whatever
  the store and the host answer: each inode in the table is the one inode of its number, its file
  object is the file of that number, its reference count is not negative, and the transaction
  numbers of the change log are strictly increasing and below the next one.
\<close>

theorem system_stays_consistent:
  assumes "main_start M w0 = Val p"
    and "system_reaches E SE K sf compact snapshot (pg_index p, pg_mount p, pg_world p) (im, m, w)"
  shows "(\<forall>ino a. km_inode_map m ino = Some a \<longrightarrow>
      (\<exists>i. km_inodes m a = Some i \<and> st_ino (i_attr i) = ino \<and> f_handle (i_file i) = ino \<and> 0 \<le> i_nlookup i)) \<and>
    (\<forall>a i. km_inodes m a = Some i \<longrightarrow> km_inode_map m (st_ino (i_attr i)) = Some a) \<and>
    (\<forall>l. s_change_log m = Some l \<longrightarrow> sorted_wrt (<) (map entry_xid (l_log_deque l)) \<and>
      (\<forall>e \<in> set (l_log_deque l). entry_xid e < l_next_xid l))"
proof -
  have "mount_inv m" using system_inv [OF assms(2)] main_start_inv [OF assms(1)] by simp
  then show ?thesis
    by (fastforce simp: mount_inv_def table_ok_def log_inv_def log_ordered_def inode_ok_def)
qed

theorem system_stays_consistent_witness:
  "\<exists>p m a i. main_start sample_main [''cfg'' \<mapsto> ''s3:b''] = Val p \<and>
    system_reaches sample_fenv sample_segment_env TieringLive.sample_codec (pg_factory p) id id
      (pg_index p, pg_mount p, pg_world p) (pg_index p, m, pg_world p) \<and>
    km_inode_map m 7 = Some a \<and> km_inodes m a = Some i \<and> f_handle (i_file i) = 7 \<and> 0 \<le> i_nlookup i"
proof -
  obtain p where p: "main_start sample_main [''cfg'' \<mapsto> ''s3:b''] = Val p" "km_inode_map (pg_mount p) = (\<lambda>_. None)"
    using first_start [OF sample_main_starts sample_main_store,
        of "\<lparr>h_files = (\<lambda>_. None), h_can_create = (\<lambda>_. True), h_last_log_file = []\<rparr>"] by auto
  obtain r m a where m: "fk_oper sample_fenv (Req_open 7) (pg_mount p) = Val (r, m)" "km_inode_map m 7 = Some a"
    using p(2) by (simp add: fk_open_def get_or_create_def GetInode_def Hold_def get_inode_def put_inode_def)
  have run: "system_reaches sample_fenv sample_segment_env TieringLive.sample_codec (pg_factory p) id id
      (pg_index p, pg_mount p, pg_world p) (pg_index p, m, pg_world p)"
    by (rule system_reaches.serve [OF system_reaches.start m(1)])
  show ?thesis
    using system_stays_consistent [OF p(1) run] m(2) p(1) run by blast
qed

end
